theory Spec2Isabelle
  imports Complex_Main
begin

section \<open>Strings of the page\<close>

text \<open>
  A JavaScript string is modelled as a \<open>string\<close>: a list of code units below 256.
  \<open>String.prototype.trim\<close> removes white space and line terminators at both ends; in
  this range they are TAB, LF, VT, FF, CR, SPACE and NBSP.
\<close>

definition isTrimSpace :: "char \<Rightarrow> bool" where
  "isTrimSpace c = (c \<in> set [CHR 0x09, CHR 0x0A, CHR 0x0B, CHR 0x0C, CHR 0x0D, CHR 0x20, CHR 0xA0])"

definition trim :: "string \<Rightarrow> string" where
  "trim s = rev (dropWhile isTrimSpace (rev (dropWhile isTrimSpace s)))"

definition startsWith :: "string \<Rightarrow> string \<Rightarrow> bool" where
  "startsWith s p = (take (length p) s = p)"

definition endsWith :: "string \<Rightarrow> string \<Rightarrow> bool" where
  "endsWith s p = (length p \<le> length s \<and> drop (length s - length p) s = p)"

section \<open>The URL object of the platform\<close>

text \<open>
  Both collectors keep one \<open>URL\<close> object, made by \<open>new URL('about:blank')\<close>, and assign
  each candidate to its \<open>href\<close>. The setter runs the URL parser of the platform without a
  base URL and throws a \<open>TypeError\<close> when the parser fails. The parser is not code of the
  repository. What is modelled of it is its beginning: leading and trailing C0 controls
  and spaces are removed, then every TAB, LF and CR; the scheme is an ASCII letter
  followed by letters, digits, \<open>+\<close>, \<open>-\<close> and \<open>.\<close> up to a colon, in lower case; an input
  with no scheme fails, since there is no base URL. Whether the rest of the input (host,
  port, path) parses is left to the parameter \<open>tail_ok\<close>.
\<close>

datatype js_error = TypeError | Error string

record url =
  protocol :: string

definition aboutBlank :: url where
  "aboutBlank = \<lparr>protocol = ''about:''\<rparr>"

definition isC0OrSpace :: "char \<Rightarrow> bool" where
  "isC0OrSpace c = ((of_char c :: nat) \<le> 0x20)"

definition isTabOrNewline :: "char \<Rightarrow> bool" where
  "isTabOrNewline c = (c \<in> set [CHR 0x09, CHR 0x0A, CHR 0x0D])"

definition asciiLower :: string where
  "asciiLower = ''abcdefghijklmnopqrstuvwxyz''"

definition asciiUpper :: string where
  "asciiUpper = ''ABCDEFGHIJKLMNOPQRSTUVWXYZ''"

definition isAsciiAlpha :: "char \<Rightarrow> bool" where
  "isAsciiAlpha c = (c \<in> set (asciiLower @ asciiUpper))"

definition isSchemeChar :: "char \<Rightarrow> bool" where
  "isSchemeChar c = (isAsciiAlpha c \<or> c \<in> set ''0123456789+-.'')"

definition toAsciiLower :: "char \<Rightarrow> char" where
  "toAsciiLower c = (case map_of (zip asciiUpper asciiLower) c of Some l \<Rightarrow> l | None \<Rightarrow> c)"

definition url_preprocess :: "string \<Rightarrow> string" where
  "url_preprocess s =
     filter (\<lambda>c. \<not> isTabOrNewline c) (rev (dropWhile isC0OrSpace (rev (dropWhile isC0OrSpace s))))"

definition url_scheme :: "string \<Rightarrow> string option" where
  "url_scheme s =
     (case url_preprocess s of
        [] \<Rightarrow> None
      | c # cs \<Rightarrow>
          if isAsciiAlpha c
          then (case dropWhile isSchemeChar cs of
                  [] \<Rightarrow> None
                | d # _ \<Rightarrow>
                    if d = CHR '':'' then Some (map toAsciiLower (c # takeWhile isSchemeChar cs))
                    else None)
          else None)"

definition set_href :: "(string \<Rightarrow> bool) \<Rightarrow> url \<Rightarrow> string \<Rightarrow> js_error + url" where
  "set_href tail_ok u s =
     (case url_scheme s of
        None \<Rightarrow> Inl TypeError
      | Some sch \<Rightarrow> if tail_ok s then Inr (u\<lparr>protocol := sch @ '':''\<rparr>) else Inl TypeError)"

text \<open>The reference predicate of the specification: the string parses as an absolute
  URL whose scheme is http or https.\<close>

definition parses_http :: "(string \<Rightarrow> bool) \<Rightarrow> string \<Rightarrow> bool" where
  "parses_http tail_ok s = (tail_ok s \<and> (url_scheme s = Some ''http'' \<or> url_scheme s = Some ''https''))"

section \<open>Link filtering\<close>

text \<open>\<open>goodSchemes\<close> / \<open>this.good\<close>: the object \<open>{ 'http:': true, 'https:': true }\<close>; a
  missing key reads as \<open>undefined\<close>, which is falsy.\<close>

definition goodSchemes :: "(string \<times> bool) list" where
  "goodSchemes = [(''http:'', True), (''https:'', True)]"

definition good :: "string \<Rightarrow> bool" where
  "good p = (case map_of goodSchemes p of Some b \<Rightarrow> b | None \<Rightarrow> False)"

definition ignored_prefixes :: "string list" where
  "ignored_prefixes =
     [''about:'', ''data:'', ''mailto:'', ''javascript:'', ''js:'', ''{'', ''*'', ''ftp:'', ''tel:'']"

text \<open>
  The loop \<open>while (i--) { if (test.startsWith(a[i])) { ignored = true; break; } }\<close>.
  The counter is what \<open>length\<close> gave: \<open>Some n\<close> for a number, \<open>None\<close> for \<open>undefined\<close>. The
  postfix decrement of \<open>undefined\<close> is \<open>NaN\<close>, which is falsy, so the body never runs.
\<close>

fun prefix_loop :: "(nat \<Rightarrow> string) \<Rightarrow> nat \<Rightarrow> string \<Rightarrow> bool" where
  "prefix_loop a 0 test = False"
| "prefix_loop a (Suc i) test = (if startsWith test (a i) then True else prefix_loop a i test)"

definition while_prefix :: "(nat \<Rightarrow> string) \<Rightarrow> nat option \<Rightarrow> string \<Rightarrow> bool" where
  "while_prefix a len test = (case len of None \<Rightarrow> False | Some n \<Rightarrow> prefix_loop a n test)"

text \<open>The tail both functions share: assign \<open>href\<close> under \<open>try\<close>, then
  \<open>return !(parsed && good[protocol])\<close>.\<close>

definition parse_verdict :: "(string \<Rightarrow> bool) \<Rightarrow> url \<Rightarrow> string \<Rightarrow> bool \<times> url" where
  "parse_verdict tail_ok u test =
     (case set_href tail_ok u test of
        Inl _ \<Rightarrow> (\<not> (False \<and> good (protocol u)), u)
      | Inr u' \<Rightarrow> (\<not> (True \<and> good (protocol u')), u'))"

text \<open>
  Timeline variant, \<open>shouldIgnoreLink\<close>. It starts with \<open>let ignored = false; let i =
  ignored.length\<close>: the length of a boolean is \<open>undefined\<close>, and \<open>ignored[i]\<close> would be
  \<open>undefined\<close> too, which \<open>startsWith\<close> turns into the string \<open>undefined\<close>.
\<close>

definition shouldIgnoreLink :: "(string \<Rightarrow> bool) \<Rightarrow> url \<Rightarrow> string \<Rightarrow> bool \<times> url" where
  "shouldIgnoreLink tail_ok u test =
     (let ignored = while_prefix (\<lambda>i. ''undefined'') None test
      in if \<not> ignored then parse_verdict tail_ok u test else (ignored, u))"

text \<open>Grid variant, \<open>OutLinkCollector.shouldIgnore\<close>, over \<open>this.ignored\<close>.\<close>

record collector =
  outlinks :: "string list"
  urlParer :: url

definition OutLinkCollector_new :: collector where
  "OutLinkCollector_new = \<lparr>outlinks = [], urlParer = aboutBlank\<rparr>"

definition shouldIgnore :: "(string \<Rightarrow> bool) \<Rightarrow> url \<Rightarrow> string \<Rightarrow> bool \<times> url" where
  "shouldIgnore tail_ok u test =
     (let ignored = while_prefix (\<lambda>i. ignored_prefixes ! i) (Some (length ignored_prefixes)) test
      in if \<not> ignored then parse_verdict tail_ok u test else (ignored, u))"

section \<open>The outlink registry\<close>

text \<open>
  A JavaScript \<open>Set\<close> keeps its members in insertion order, and
  \<open>Array.from\<close> lists them in that order: the registry is a list, \<open>add\<close> appends a string
  that is not a member yet.
\<close>

definition set_has :: "'a list \<Rightarrow> 'a \<Rightarrow> bool" where
  "set_has xs x = (x \<in> set xs)"

definition set_add :: "'a list \<Rightarrow> 'a \<Rightarrow> 'a list" where
  "set_add xs x = (if x \<in> set xs then xs else xs @ [x])"

text \<open>The body of the loop of \<open>addOutLinks\<close>, and of \<open>addOutlink\<close> after \<open>href\<close> is
  known: \<open>if (href && !outlinks.has(href) && !shouldIgnore(href)) outlinks.add(href)\<close>.
  The filter is only called when the two tests before it pass.\<close>

definition consider_href ::
  "((string \<Rightarrow> bool) \<Rightarrow> url \<Rightarrow> string \<Rightarrow> bool \<times> url) \<Rightarrow> (string \<Rightarrow> bool) \<Rightarrow> collector \<Rightarrow> string \<Rightarrow> collector" where
  "consider_href ignore tail_ok c href =
     (if href \<noteq> [] \<and> \<not> set_has (outlinks c) href
      then (case ignore tail_ok (urlParer c) href of
              (ig, u) \<Rightarrow> if \<not> ig then \<lparr>outlinks = set_add (outlinks c) href, urlParer = u\<rparr>
                        else c\<lparr>urlParer := u\<rparr>)
      else c)"

text \<open>\<open>let i = toAdd.length; while (i--) { href = toAdd[i].href.trim(); ... }\<close>: the
  candidates are walked from the last to the first. A candidate is given by the value
  of its \<open>href\<close>.\<close>

fun addOutLinks_from ::
  "((string \<Rightarrow> bool) \<Rightarrow> url \<Rightarrow> string \<Rightarrow> bool \<times> url) \<Rightarrow> (string \<Rightarrow> bool) \<Rightarrow> collector \<Rightarrow> string list \<Rightarrow> nat \<Rightarrow> collector" where
  "addOutLinks_from ignore tail_ok c toAdd 0 = c"
| "addOutLinks_from ignore tail_ok c toAdd (Suc i) =
     addOutLinks_from ignore tail_ok (consider_href ignore tail_ok c (trim (toAdd ! i))) toAdd i"

text \<open>Timeline variant: the function \<open>addOutLinks\<close> over the globals \<open>outlinks\<close> and
  \<open>outLinkURLParser\<close>.\<close>

definition timeline_links_new :: collector where
  "timeline_links_new = \<lparr>outlinks = [], urlParer = aboutBlank\<rparr>"

definition addOutLinks :: "(string \<Rightarrow> bool) \<Rightarrow> collector \<Rightarrow> string list \<Rightarrow> collector" where
  "addOutLinks tail_ok c toAdd = addOutLinks_from shouldIgnoreLink tail_ok c toAdd (length toAdd)"

text \<open>Grid variant: the methods of \<open>OutLinkCollector\<close>.\<close>

definition OLC_addOutLinks :: "(string \<Rightarrow> bool) \<Rightarrow> collector \<Rightarrow> string list \<Rightarrow> collector" where
  "OLC_addOutLinks tail_ok c toAdd = addOutLinks_from shouldIgnore tail_ok c toAdd (length toAdd)"

text \<open>\<open>addOutlink(elemOrString)\<close> takes \<open>(elemOrString.href || elemOrString).trim()\<close>. A
  string has no \<open>href\<close>. An element whose \<open>href\<close> is the empty string is itself the
  value of the disjunction, and an element has no method \<open>trim\<close>.\<close>

datatype link_arg = LinkElem string | LinkString string

definition addOutlink :: "(string \<Rightarrow> bool) \<Rightarrow> collector \<Rightarrow> link_arg \<Rightarrow> js_error + collector" where
  "addOutlink tail_ok c elemOrString =
     (case elemOrString of
        LinkString s \<Rightarrow> Inr (consider_href shouldIgnore tail_ok c (trim s))
      | LinkElem h \<Rightarrow>
          if h \<noteq> [] then Inr (consider_href shouldIgnore tail_ok c (trim h)) else Inl TypeError)"

definition outLinkArray :: "collector \<Rightarrow> string list" where
  "outLinkArray c = outlinks c"

text \<open>The ignore-prefix test in the words of the specification.\<close>

definition hasIgnoredPrefix :: "string \<Rightarrow> bool" where
  "hasIgnoredPrefix s = list_ex (startsWith s) ignored_prefixes"

text \<open>A session of the host against the Grid collector is a list of calls:
  \<open>collectFrom\<close> hands \<open>addOutLinks\<close> the \<open>href\<close>s of the links it selected,
  \<open>addOutlink\<close> takes one element or string. An exception ends the session.\<close>

datatype feed_op = CollectFrom "string list" | AddOutlink link_arg

fun candidates :: "feed_op \<Rightarrow> string list" where
  "candidates (CollectFrom hs) = hs"
| "candidates (AddOutlink (LinkElem h)) = [h]"
| "candidates (AddOutlink (LinkString s)) = [s]"

fun OLC_feed :: "(string \<Rightarrow> bool) \<Rightarrow> collector \<Rightarrow> feed_op list \<Rightarrow> js_error + collector" where
  "OLC_feed tail_ok c [] = Inr c"
| "OLC_feed tail_ok c (CollectFrom hs # ops) = OLC_feed tail_ok (OLC_addOutLinks tail_ok c hs) ops"
| "OLC_feed tail_ok c (AddOutlink a # ops) =
     (case addOutlink tail_ok c a of Inl e \<Rightarrow> Inl e | Inr c' \<Rightarrow> OLC_feed tail_ok c' ops)"

text \<open>The calls that do not throw: \<open>addOutlink\<close> of an element whose \<open>href\<close> is the empty
  string is the one that does.\<close>

fun feed_ok :: "feed_op \<Rightarrow> bool" where
  "feed_ok (CollectFrom hs) = True"
| "feed_ok (AddOutlink (LinkString s)) = True"
| "feed_ok (AddOutlink (LinkElem h)) = (h \<noteq> [])"

text \<open>The Timeline runner only ever calls \<open>addOutLinks\<close> (through
  \<open>collectOutlinksFrom\<close>).\<close>

fun timeline_feed :: "(string \<Rightarrow> bool) \<Rightarrow> collector \<Rightarrow> string list list \<Rightarrow> collector" where
  "timeline_feed tail_ok c [] = c"
| "timeline_feed tail_ok c (hs # hss) = timeline_feed tail_ok (addOutLinks tail_ok c hs) hss"

text \<open>A parser whose later states accept every input, for closed examples.\<close>

definition all_tails_parse :: "string \<Rightarrow> bool" where
  "all_tails_parse s = True"

definition scenario1 :: "string list" where
  "scenario1 = [''https://x.com/a'', ''https://x.com/a'', ''javascript:evil()'', ''  https://x.com/b  '']"

text \<open>What the collector keeps, in the words of the specification.\<close>

definition accepted :: "(string \<Rightarrow> bool) \<Rightarrow> string \<Rightarrow> bool" where
  "accepted tail_ok s = (s \<noteq> [] \<and> \<not> hasIgnoredPrefix s \<and> parses_http tail_ok s)"

section \<open>The browser\<close>

text \<open>
  The scripts run inside a page and reach it through the DOM. The DOM is not code of the
  repository: it is a parameter, a record of the platform functions the scripts call.
  \<open>'p\<close> is the state of the page (document, location, scroll position, timers, the
  scripts of the site), \<open>'e\<close> the type of element references; a call that gives \<open>null\<close>
  gives \<open>None\<close>. What the page does when an event is dispatched, and while the traversal
  is suspended for some milliseconds, are functions of the page as well.
\<close>

record 'e fiber =
  fiber_key :: "string option"
  stateNode :: "'e option"

record ('p, 'e) browser =
  querySelector :: "string \<Rightarrow> 'e \<Rightarrow> 'p \<Rightarrow> 'e option"
  documentQuerySelector :: "string \<Rightarrow> 'p \<Rightarrow> 'e option"
  getElementById :: "string \<Rightarrow> 'p \<Rightarrow> 'e option"
  selectHrefs :: "string \<Rightarrow> 'e \<Rightarrow> 'p \<Rightarrow> string list"
  parentElement :: "'e \<Rightarrow> 'p \<Rightarrow> 'e option"
  datasetGet :: "'e \<Rightarrow> string \<Rightarrow> 'p \<Rightarrow> string option"
  classListAdd :: "string \<Rightarrow> 'e \<Rightarrow> 'p \<Rightarrow> 'p"
  classListRemove :: "string \<Rightarrow> 'e \<Rightarrow> 'p \<Rightarrow> 'p"
  dispatchMouseEvent :: "string \<Rightarrow> 'e \<Rightarrow> 'p \<Rightarrow> 'p"
  elementClick :: "'e \<Rightarrow> 'p \<Rightarrow> 'p"
  elementScrollIntoView :: "'e \<Rightarrow> 'p \<Rightarrow> 'p"
  videoPlay :: "'e \<Rightarrow> 'p \<Rightarrow> 'p"
  timePasses :: "nat \<Rightarrow> 'p \<Rightarrow> 'p"
  documentBaseURI :: "'p \<Rightarrow> string"
  documentEvaluate :: "string \<Rightarrow> 'e option \<Rightarrow> 'p \<Rightarrow> 'e list"
  windowScrollY :: "'p \<Rightarrow> real"
  windowInnerHeight :: "'p \<Rightarrow> real"
  bodyScrollHeight :: "'p \<Rightarrow> real"
  bodyOffsetHeight :: "'p \<Rightarrow> real"
  rootClientHeight :: "'p \<Rightarrow> real"
  rootScrollHeight :: "'p \<Rightarrow> real"
  rootOffsetHeight :: "'p \<Rightarrow> real"
  objectKeys :: "'e \<Rightarrow> 'p \<Rightarrow> string list"
  getProperty :: "'e \<Rightarrow> string \<Rightarrow> 'p \<Rightarrow> 'e fiber option"
  childNodes :: "'e \<Rightarrow> 'p \<Rightarrow> 'e list"

text \<open>What a script did to the page is also kept as a trace, in the order of the calls.\<close>

datatype 'e action =
    AddedClass 'e string
  | RemovedClass 'e string
  | MouseEvent string 'e
  | Clicked 'e
  | ScrolledIntoView 'e
  | Played 'e
  | Delayed nat

record ('p, 'e) world =
  page :: 'p
  trace :: "'e action list"

definition act :: "'e action \<Rightarrow> ('p \<Rightarrow> 'p) \<Rightarrow> ('p, 'e) world \<Rightarrow> ('p, 'e) world" where
  "act a f w = \<lparr>page = f (page w), trace = trace w @ [a]\<rparr>"

section \<open>Visit marker and interaction primitives\<close>

definition wrvistited :: string where
  "wrvistited = ''wrvistited''"

text \<open>\<open>markElemAsVisited(elem, marker = 'wrvistited')\<close>\<close>

definition markElemAsVisited ::
  "('p, 'e) browser \<Rightarrow> 'e option \<Rightarrow> string \<Rightarrow> ('p, 'e) world \<Rightarrow> ('p, 'e) world" where
  "markElemAsVisited B elem marker w =
     (case elem of
        None \<Rightarrow> w
      | Some e \<Rightarrow> act (AddedClass e marker) (classListAdd B marker e) w)"

text \<open>\<open>delay(delayTime = 3000)\<close>, awaited: the traversal is suspended and the page runs.\<close>

definition delay :: "('p, 'e) browser \<Rightarrow> nat \<Rightarrow> ('p, 'e) world \<Rightarrow> ('p, 'e) world" where
  "delay B delayTime w = act (Delayed delayTime) (timePasses B delayTime) w"

definition scrollIntoView :: "('p, 'e) browser \<Rightarrow> 'e option \<Rightarrow> ('p, 'e) world \<Rightarrow> ('p, 'e) world" where
  "scrollIntoView B elem w =
     (case elem of
        None \<Rightarrow> w
      | Some e \<Rightarrow> act (ScrolledIntoView e) (elementScrollIntoView B e) w)"

definition scrollIntoViewWithDelay ::
  "('p, 'e) browser \<Rightarrow> 'e option \<Rightarrow> nat \<Rightarrow> ('p, 'e) world \<Rightarrow> ('p, 'e) world" where
  "scrollIntoViewWithDelay B elem delayTime w = delay B delayTime (scrollIntoView B elem w)"

text \<open>\<open>canScrollMore()\<close>\<close>

definition canScrollMore :: "('p, 'e) browser \<Rightarrow> 'p \<Rightarrow> bool" where
  "canScrollMore B p =
     (windowScrollY B p + windowInnerHeight B p <
      Max {bodyScrollHeight B p, bodyOffsetHeight B p, rootClientHeight B p,
           rootScrollHeight B p, rootOffsetHeight B p})"

text \<open>\<open>click(elem)\<close>\<close>

definition click :: "('p, 'e) browser \<Rightarrow> 'e option \<Rightarrow> ('p, 'e) world \<Rightarrow> bool \<times> ('p, 'e) world" where
  "click B elem w =
     (let clicked = False in
      case elem of
        None \<Rightarrow> (clicked, w)
      | Some e \<Rightarrow>
          (let w1 = act (MouseEvent ''mouseover'' e) (dispatchMouseEvent B ''mouseover'' e) w;
               w2 = act (Clicked e) (elementClick B e) w1
           in (True, w2)))"

text \<open>\<open>selectElemFromAndClick(selectFrom, selector)\<close>\<close>

definition selectElemFromAndClick ::
  "('p, 'e) browser \<Rightarrow> 'e \<Rightarrow> string \<Rightarrow> ('p, 'e) world \<Rightarrow> bool \<times> ('p, 'e) world" where
  "selectElemFromAndClick B selectFrom selector w =
     click B (querySelector B selector selectFrom (page w)) w"

text \<open>
  \<open>waitForPredicate(predicate)\<close> arms an interval of 1000 ms; each time it fires the
  predicate runs, and the promise resolves the first time its value is truthy. A
  predicate is a function of the state of its caller (\<open>'s\<close>, which holds the world): it
  may change that state, and it may throw, in which case the callback ends without
  resolving and the interval fires again. The promise may never resolve: \<open>n\<close> bounds the
  number of firings the model follows, and \<open>None\<close> says that it has not resolved by then.
\<close>

definition interval_fires ::
  "('s \<Rightarrow> 's) \<Rightarrow> ('s \<Rightarrow> (js_error + bool) \<times> 's) \<Rightarrow> 's \<Rightarrow> bool \<times> 's" where
  "interval_fires second predicate s =
     (case predicate (second s) of
        (Inr b, s') \<Rightarrow> (b, s')
      | (Inl _, s') \<Rightarrow> (False, s'))"

fun waitForPredicate ::
  "nat \<Rightarrow> ('s \<Rightarrow> 's) \<Rightarrow> ('s \<Rightarrow> (js_error + bool) \<times> 's) \<Rightarrow> 's \<Rightarrow> 's option" where
  "waitForPredicate 0 second predicate s = None"
| "waitForPredicate (Suc n) second predicate s =
     (case interval_fires second predicate s of
        (True, s') \<Rightarrow> Some s'
      | (False, s') \<Rightarrow> waitForPredicate n second predicate s')"

text \<open>\<open>clickAndWaitFor(elem, predicate)\<close>. The state of the caller is the world and
  what the caller keeps beside it (\<open>'c\<close>: the object whose method the predicate is).\<close>

definition second_passes ::
  "('p, 'e) browser \<Rightarrow> ('p, 'e) world \<times> 'c \<Rightarrow> ('p, 'e) world \<times> 'c" where
  "second_passes B s = ((fst s)\<lparr>page := timePasses B 1000 (page (fst s))\<rparr>, snd s)"

definition clickAndWaitFor ::
  "nat \<Rightarrow> ('p, 'e) browser \<Rightarrow> 'e option \<Rightarrow>
   (('p, 'e) world \<times> 'c \<Rightarrow> (js_error + bool) \<times> ('p, 'e) world \<times> 'c) \<Rightarrow>
   ('p, 'e) world \<times> 'c \<Rightarrow> (bool \<times> ('p, 'e) world \<times> 'c) option" where
  "clickAndWaitFor n B elem predicate s =
     (case click B elem (fst s) of
        (clicked, w) \<Rightarrow>
          if clicked
          then (case waitForPredicate n (second_passes B) predicate (w, snd s) of
                  None \<Rightarrow> None
                | Some s' \<Rightarrow> Some (clicked, s'))
          else Some (clicked, (w, snd s)))"

text \<open>A browser in which nothing is found and nothing happens, to build examples from.\<close>

definition null_browser :: "('p, 'e) browser" where
  "null_browser =
     \<lparr>querySelector = (\<lambda>sel e p. None),
      documentQuerySelector = (\<lambda>sel p. None),
      getElementById = (\<lambda>i p. None),
      selectHrefs = (\<lambda>sel e p. []),
      parentElement = (\<lambda>e p. None),
      datasetGet = (\<lambda>e k p. None),
      classListAdd = (\<lambda>c e p. p),
      classListRemove = (\<lambda>c e p. p),
      dispatchMouseEvent = (\<lambda>t e p. p),
      elementClick = (\<lambda>e p. p),
      elementScrollIntoView = (\<lambda>e p. p),
      videoPlay = (\<lambda>e p. p),
      timePasses = (\<lambda>n p. p),
      documentBaseURI = (\<lambda>p. []),
      documentEvaluate = (\<lambda>q e p. []),
      windowScrollY = (\<lambda>p. 0),
      windowInnerHeight = (\<lambda>p. 0),
      bodyScrollHeight = (\<lambda>p. 0),
      bodyOffsetHeight = (\<lambda>p. 0),
      rootClientHeight = (\<lambda>p. 0),
      rootScrollHeight = (\<lambda>p. 0),
      rootOffsetHeight = (\<lambda>p. 0),
      objectKeys = (\<lambda>e p. []),
      getProperty = (\<lambda>e k p. None),
      childNodes = (\<lambda>e p. [])\<rparr>"

text \<open>A page that is a clock in milliseconds, and a predicate that holds from a given
  time on.\<close>

definition clock_browser :: "(nat, nat) browser" where
  "clock_browser = null_browser\<lparr>timePasses := (\<lambda>n p. p + n)\<rparr>"

definition clock_reached ::
  "nat \<Rightarrow> (nat, nat) world \<times> unit \<Rightarrow> (js_error + bool) \<times> (nat, nat) world \<times> unit" where
  "clock_reached t s = (Inr (t \<le> page (fst s)), s)"

section \<open>Generators\<close>

text \<open>
  An async generator is a machine: a state that holds the place where the body is
  suspended, and a step function that runs the body from there to its next event. The
  event is \<open>Tau\<close> when the body has more to do before it yields (a loop went round, a
  wait has not resolved yet), \<open>Yield v\<close> at a \<open>yield\<close>, \<open>Return\<close> when the body ends and
  \<open>Throw e\<close> when it throws. \<open>run_generator n\<close> follows at most \<open>n\<close> steps up to the
  first event that is not \<open>Tau\<close>; \<open>None\<close> says that \<open>next()\<close> has not settled by then.
\<close>

datatype 'v signal = Tau | Yield 'v | Return | Throw js_error

fun run_generator :: "nat \<Rightarrow> ('s \<Rightarrow> 'v signal \<times> 's) \<Rightarrow> 's \<Rightarrow> ('v signal \<times> 's) option" where
  "run_generator 0 step s = None"
| "run_generator (Suc n) step s =
     (case step s of
        (Tau, s') \<Rightarrow> run_generator n step s'
      | (Yield v, s') \<Rightarrow> Some (Yield v, s')
      | (Return, s') \<Rightarrow> Some (Return, s')
      | (Throw e, s') \<Rightarrow> Some (Throw e, s'))"

record 'v iter_result =
  iter_done :: bool
  iter_value :: "'v option"

section \<open>Grid Visitor\<close>

definition onDomNode :: string where
  "onDomNode = ''__reactInternalInstance''"

definition outlinkSelector :: string where
  "outlinkSelector = ''a[href], area[href]''"

definition gridImage :: string where
  "gridImage = ''div[data-grid-item]''"

definition gridContainer :: string where
  "gridContainer = ''div.gridCentered > div > div > div''"

text \<open>\<open>reactInstanceFromDOMElem(elem)\<close>. \<open>Object.keys\<close> of \<open>null\<close> throws. The value of
  the property found is whatever the page stored there: \<open>None\<close> when it is not an
  object.\<close>

definition reactInstanceFromDOMElem ::
  "('p, 'e) browser \<Rightarrow> 'e option \<Rightarrow> 'p \<Rightarrow> js_error + 'e fiber option" where
  "reactInstanceFromDOMElem B elem p =
     (case elem of
        None \<Rightarrow> Inl TypeError
      | Some e \<Rightarrow>
          (case find (\<lambda>k. startsWith k onDomNode) (objectKeys B e p) of
             None \<Rightarrow> Inl (Error ''Could not find react internal key'')
           | Some internalKey \<Rightarrow> Inr (getProperty B e internalKey p)))"

record 'e pin =
  node :: 'e
  reactInstance :: "'e fiber"

text \<open>\<open>reactInstancesFromElements(elems, selectingFn)\<close>. The selecting function has a
  state of its own (\<open>'s\<close>). \<open>reactInstance.key\<close> of \<open>null\<close> throws.\<close>

fun reactInstancesFromElements_loop ::
  "('p, 'e) browser \<Rightarrow> 'p \<Rightarrow> 'e list \<Rightarrow> ('s \<Rightarrow> string option \<Rightarrow> bool \<times> 's) \<Rightarrow> 's \<Rightarrow> 'e pin list \<Rightarrow>
   js_error + 'e pin list \<times> 's" where
  "reactInstancesFromElements_loop B p [] selectingFn st renderedNodes = Inr (renderedNodes, st)"
| "reactInstancesFromElements_loop B p (nd # elems) selectingFn st renderedNodes =
     (case reactInstanceFromDOMElem B (Some nd) p of
        Inl e \<Rightarrow> Inl e
      | Inr None \<Rightarrow> Inl TypeError
      | Inr (Some ri) \<Rightarrow>
          (case selectingFn st (fiber_key ri) of
             (True, st') \<Rightarrow>
               reactInstancesFromElements_loop B p elems selectingFn st'
                 (renderedNodes @ [\<lparr>node = nd, reactInstance = ri\<rparr>])
           | (False, st') \<Rightarrow>
               reactInstancesFromElements_loop B p elems selectingFn st' renderedNodes))"

definition reactInstancesFromElements ::
  "('p, 'e) browser \<Rightarrow> 'p \<Rightarrow> 'e list \<Rightarrow> ('s \<Rightarrow> string option \<Rightarrow> bool \<times> 's) \<Rightarrow> 's \<Rightarrow>
   js_error + 'e pin list \<times> 's" where
  "reactInstancesFromElements B p elems selectingFn st =
     reactInstancesFromElements_loop B p elems selectingFn st []"

text \<open>\<open>OLC.collectFrom(queryFrom)\<close>\<close>

definition OLC_collectFrom ::
  "(string \<Rightarrow> bool) \<Rightarrow> ('p, 'e) browser \<Rightarrow> 'e \<Rightarrow> 'p \<Rightarrow> collector \<Rightarrow> collector" where
  "OLC_collectFrom tail_ok B queryFrom p c =
     OLC_addOutLinks tail_ok c (selectHrefs B outlinkSelector queryFrom p)"

text \<open>\<open>getGridContainer()\<close>. \<open>firstChild.parentElement\<close> throws when no grid item is
  found; the comparison \<open>!==\<close> is identity of the two references, \<open>null\<close> included.\<close>

definition getGridContainer :: "('p, 'e) browser \<Rightarrow> 'p \<Rightarrow> js_error + 'e option" where
  "getGridContainer B p =
     (case documentQuerySelector B gridImage p of
        None \<Rightarrow> Inl TypeError
      | Some firstChild \<Rightarrow>
          (let container = parentElement B firstChild p
           in if container \<noteq> documentQuerySelector B gridContainer p
              then Inl (Error ''wrong container'')
              else Inr container))"

text \<open>
  \<open>iteratePins\<close>. Its locals are \<open>seenPins\<close>, \<open>pinContainerR\<close> and \<open>currentPostRows\<close>;
  \<open>OLC\<close> is the collector of the runner. The body is suspended at the start, or inside
  \<open>consumePins\<close> of the first or of the second \<open>do ... while\<close>, in front of the rows still
  to consume.
\<close>

datatype drain = FirstDrain | SecondDrain

datatype 'e grid_pc = G_Start | G_Consume drain "'e pin list" | G_Done

record ('p, 'e) grid_state =
  g_pc :: "'e grid_pc"
  seenPins :: "string option list"
  pinContainerR :: "'e fiber option"
  OLC :: collector
  g_world :: "('p, 'e) world"

definition iteratePins :: "'p \<Rightarrow> ('p, 'e) grid_state" where
  "iteratePins p =
     \<lparr>g_pc = G_Start, seenPins = [], pinContainerR = None, OLC = OutLinkCollector_new,
      g_world = \<lparr>page = p, trace = []\<rparr>\<rparr>"

text \<open>\<open>keySelector\<close>\<close>

definition keySelector :: "string option list \<Rightarrow> string option \<Rightarrow> bool \<times> string option list" where
  "keySelector seen key =
     (let select = \<not> set_has seen key
      in (select, if select then set_add seen key else seen))"

text \<open>\<open>getRenderedPins\<close>: \<open>pinContainerR.stateNode.childNodes\<close> throws when
  \<open>pinContainerR\<close> or its \<open>stateNode\<close> is \<open>null\<close>.\<close>

definition getRenderedPins ::
  "('p, 'e) browser \<Rightarrow> ('p, 'e) grid_state \<Rightarrow> js_error + 'e pin list \<times> string option list" where
  "getRenderedPins B st =
     (case pinContainerR st of
        None \<Rightarrow> Inl TypeError
      | Some r \<Rightarrow>
          (case stateNode r of
             None \<Rightarrow> Inl TypeError
           | Some sn \<Rightarrow>
               reactInstancesFromElements B (page (g_world st))
                 (childNodes B sn (page (g_world st))) keySelector (seenPins st)))"

text \<open>One turn of \<open>consumePins\<close> on the pin in front.\<close>

definition consumePin ::
  "(string \<Rightarrow> bool) \<Rightarrow> ('p, 'e) browser \<Rightarrow> 'e pin \<Rightarrow> ('p, 'e) grid_state \<Rightarrow> ('p, 'e) grid_state" where
  "consumePin tail_ok B pin st =
     st\<lparr>OLC := OLC_collectFrom tail_ok B (node pin) (page (g_world st)) (OLC st),
        g_world := scrollIntoViewWithDelay B (Some (node pin)) 1000 (g_world st)\<rparr>"

definition iteratePins_step ::
  "(string \<Rightarrow> bool) \<Rightarrow> ('p, 'e) browser \<Rightarrow> ('p, 'e) grid_state \<Rightarrow> 'e pin signal \<times> ('p, 'e) grid_state" where
  "iteratePins_step tail_ok B st =
     (case g_pc st of
        G_Start \<Rightarrow>
          (case getGridContainer B (page (g_world st)) of
             Inl e \<Rightarrow> (Throw e, st)
           | Inr container \<Rightarrow>
               (case reactInstanceFromDOMElem B container (page (g_world st)) of
                  Inl e \<Rightarrow> (Throw e, st)
                | Inr r \<Rightarrow>
                    (let st1 = st\<lparr>seenPins := [], pinContainerR := r\<rparr>
                     in case getRenderedPins B st1 of
                          Inl e \<Rightarrow> (Throw e, st1)
                        | Inr (rows, seen) \<Rightarrow>
                            (Tau, st1\<lparr>seenPins := seen, g_pc := G_Consume FirstDrain rows\<rparr>))))
      | G_Consume d (pin # rows) \<Rightarrow>
          (Yield pin, (consumePin tail_ok B pin st)\<lparr>g_pc := G_Consume d rows\<rparr>)
      | G_Consume d [] \<Rightarrow>
          (case getRenderedPins B st of
             Inl e \<Rightarrow> (Throw e, st)
           | Inr (rows, seen) \<Rightarrow>
               if length rows > 0
               then (Tau, st\<lparr>seenPins := seen, g_pc := G_Consume d rows\<rparr>)
               else (case d of
                       FirstDrain \<Rightarrow>
                         (case getRenderedPins B (st\<lparr>seenPins := seen\<rparr>) of
                            Inl e \<Rightarrow> (Throw e, st\<lparr>seenPins := seen\<rparr>)
                          | Inr (rows2, seen2) \<Rightarrow>
                              (Tau, st\<lparr>seenPins := seen2, g_pc := G_Consume SecondDrain rows2\<rparr>))
                     | SecondDrain \<Rightarrow> (Return, st\<lparr>seenPins := seen, g_pc := G_Done\<rparr>)))
      | G_Done \<Rightarrow> (Return, st))"

text \<open>\<open>$WRIterator$.next()\<close>: a generator that returned or threw is completed, and
  \<open>next()\<close> on a completed generator gives \<open>{done: true, value: undefined}\<close>. The value
  of a \<open>yield\<close> is \<open>pin.node\<close>.\<close>

definition WRIterator_next ::
  "nat \<Rightarrow> (string \<Rightarrow> bool) \<Rightarrow> ('p, 'e) browser \<Rightarrow> ('p, 'e) grid_state \<Rightarrow>
   ((js_error + 'e iter_result) \<times> ('p, 'e) grid_state) option" where
  "WRIterator_next n tail_ok B st =
     (case run_generator n (iteratePins_step tail_ok B) st of
        None \<Rightarrow> None
      | Some (Yield pin, st') \<Rightarrow> Some (Inr \<lparr>iter_done =False, iter_value = Some (node pin)\<rparr>, st')
      | Some (Throw e, st') \<Rightarrow> Some (Inl e, st'\<lparr>g_pc := G_Done\<rparr>)
      | Some (_, st') \<Rightarrow> Some (Inr \<lparr>iter_done =True, iter_value = None\<rparr>, st'\<lparr>g_pc := G_Done\<rparr>))"

text \<open>The Grid runner's \<open>$WRIteratorHandler$\<close>: \<open>return next.done\<close>.\<close>

definition grid_WRIteratorHandler ::
  "nat \<Rightarrow> (string \<Rightarrow> bool) \<Rightarrow> ('p, 'e) browser \<Rightarrow> ('p, 'e) grid_state \<Rightarrow>
   ((js_error + bool) \<times> ('p, 'e) grid_state) option" where
  "grid_WRIteratorHandler n tail_ok B st =
     (case WRIterator_next n tail_ok B st of
        None \<Rightarrow> None
      | Some (Inl e, st') \<Rightarrow> Some (Inl e, st')
      | Some (Inr nxt, st') \<Rightarrow> Some (Inr (iter_done nxt), st'))"

text \<open>
  A session of the host: it calls the handler again and again, and between two calls
  the page may change in any way (\<open>hs\<close> holds one change of the page per call, made
  before the call). The session ends with the first call that reports done, throws, or
  does not settle. \<open>grid_session\<close> lists the pins of the steps taken.
\<close>

fun grid_session ::
  "nat \<Rightarrow> (string \<Rightarrow> bool) \<Rightarrow> ('p, 'e) browser \<Rightarrow> ('p \<Rightarrow> 'p) list \<Rightarrow> ('p, 'e) grid_state \<Rightarrow> 'e pin list" where
  "grid_session n tail_ok B [] st = []"
| "grid_session n tail_ok B (h # hs) st =
     (case run_generator n (iteratePins_step tail_ok B)
             (st\<lparr>g_world := (g_world st)\<lparr>page := h (page (g_world st))\<rparr>\<rparr>) of
        Some (Yield pin, st') \<Rightarrow> pin # grid_session n tail_ok B hs st'
      | _ \<Rightarrow> [])"

text \<open>The keys of a list of pins.\<close>

definition pin_keys :: "'e pin list \<Rightarrow> string option list" where
  "pin_keys pins = map (\<lambda>pin. fiber_key (reactInstance pin)) pins"

text \<open>No node of the list carries an internal handle whose value is \<open>null\<close>.\<close>

definition handles_not_null :: "('p, 'e) browser \<Rightarrow> 'p \<Rightarrow> 'e list \<Rightarrow> bool" where
  "handles_not_null B p elems = list_all (\<lambda>x. reactInstanceFromDOMElem B (Some x) p \<noteq> Inr None) elems"

text \<open>
  An example grid. The page is the time in milliseconds. Element 2 is the container of
  the grid, 10, 11 and 12 are rendered pins with the keys a, b and c; up to two seconds
  the container renders 10 and 11, later 11 and 12. The first grid item is 10, its
  parent is 2. The parameters are what the query for the grid container finds, and
  which elements carry the internal handle of the rendering library.
\<close>

definition example_key :: "nat \<Rightarrow> string option" where
  "example_key e = (if e = 10 then Some ''a'' else if e = 11 then Some ''b'' else Some ''c'')"

definition grid_example :: "nat option \<Rightarrow> (nat \<Rightarrow> bool) \<Rightarrow> (nat, nat) browser" where
  "grid_example found handle =
     null_browser
       \<lparr>documentQuerySelector :=
          (\<lambda>sel p. if sel = gridImage then Some 10 else if sel = gridContainer then found else None),
        parentElement := (\<lambda>e p. if e = 10 then Some 2 else None),
        timePasses := (\<lambda>n p. p + n),
        objectKeys := (\<lambda>e p. if handle e then [''id'', ''__reactInternalInstance$x1''] else [''id'']),
        getProperty := (\<lambda>e k p. Some \<lparr>fiber_key = example_key e, stateNode = Some e\<rparr>),
        childNodes := (\<lambda>e p. if e = 2 then (if p < 2000 then [10, 11] else [11, 12]) else [])\<rparr>"

text \<open>What holds of the machine after the keys \<open>Y\<close> have been yielded: the keys yielded
  and the keys of the rows still to consume are pairwise different and all seen.\<close>

definition grid_inv :: "('p, 'e) grid_state \<Rightarrow> string option list \<Rightarrow> bool" where
  "grid_inv st Y =
     (case g_pc st of
        G_Start \<Rightarrow> Y = []
      | G_Consume d rows \<Rightarrow>
          distinct (Y @ pin_keys rows) \<and> set (Y @ pin_keys rows) \<subseteq> set (seenPins st)
      | G_Done \<Rightarrow> distinct Y)"

section \<open>Timeline Visitor\<close>

definition tweetXpath :: string where
  "tweetXpath = ''//div[starts-with(@class,\"tweet js-stream-tweet\")]/div[@class=\"content\" and not(contains(@class, \"wrvistited\"))]''"

definition overlayTweetXpath :: string where
  "overlayTweetXpath = ''//div[@id=\"permalink-overlay\"]'' @ tweetXpath"

definition tweetFooterSelector :: string where
  "tweetFooterSelector = ''div.stream-item-footer''"

definition replyActionSelector :: string where
  "replyActionSelector = ''div.ProfileTweet-action--reply''"

definition noReplySpanSelector :: string where
  "noReplySpanSelector = ''span.ProfileTweet-actionCount--isZero''"

definition replyBtnSelector :: string where
  "replyBtnSelector = ''button[data-modal=\"ProfileTweet-reply\"]''"

definition closeFullTweetSelector :: string where
  "closeFullTweetSelector = ''div.PermalinkProfile-dismiss > span''"

definition threadSelector :: string where
  "threadSelector = ''a.js-nav.show-thread-link''"

text \<open>\<open>xpathSnapShot(xpathQuery, startElem)\<close>: the ordered snapshot, as the list of its items.\<close>

definition xpathSnapShot :: "('p, 'e) browser \<Rightarrow> string \<Rightarrow> 'e option \<Rightarrow> 'p \<Rightarrow> 'e list" where
  "xpathSnapShot B xpathQuery startElem p = documentEvaluate B xpathQuery startElem p"

text \<open>\<open>maybePolyfillXPG(cliXPG)\<close>: \<open>Some f\<close> is a function whose text holds
  \<open>[Command Line API]\<close>, the \<open>$x\<close> of the developer tools; anything else is replaced by
  the function that copies the snapshot of \<open>document.evaluate\<close> into an array.\<close>

definition maybePolyfillXPG ::
  "('p, 'e) browser \<Rightarrow> (string \<Rightarrow> 'e option \<Rightarrow> 'p \<Rightarrow> 'e list) option \<Rightarrow>
   (string \<Rightarrow> 'e option \<Rightarrow> 'p \<Rightarrow> 'e list)" where
  "maybePolyfillXPG B cliXPG =
     (case cliXPG of
        None \<Rightarrow> (\<lambda>xpathQuery startElem p. documentEvaluate B xpathQuery startElem p)
      | Some f \<Rightarrow> f)"

text \<open>\<open>collectOutlinksFrom(queryFrom)\<close>\<close>

definition collectOutlinksFrom ::
  "(string \<Rightarrow> bool) \<Rightarrow> ('p, 'e) browser \<Rightarrow> 'e \<Rightarrow> 'p \<Rightarrow> collector \<Rightarrow> collector" where
  "collectOutlinksFrom tail_ok B queryFrom p c =
     addOutLinks tail_ok c (selectHrefs B outlinkSelector queryFrom p)"

text \<open>The class \<open>Tweet\<close>. A field that the constructor reads a property of cannot be
  \<open>null\<close> in an object that was constructed.\<close>

record 'e Tweet =
  tweet :: 'e
  container :: 'e
  footer :: 'e
  tRplyAct :: 'e
  rplyButton :: 'e
  fullTweetOverlay :: "'e option"
  priv_hasReplys :: bool
  priv_apartThread :: bool
  priv_baseURI :: string

text \<open>\<open>constructor(aTweet, baseURI)\<close>: the world it returns is the world it left, also
  when it throws.\<close>

definition Tweet_new ::
  "('p, 'e) browser \<Rightarrow> 'e \<Rightarrow> string \<Rightarrow> ('p, 'e) world \<Rightarrow> (js_error + 'e Tweet) \<times> ('p, 'e) world" where
  "Tweet_new B aTweet baseURI w =
     (let w1 = markElemAsVisited B (Some aTweet) wrvistited w; p = page w1 in
      case parentElement B aTweet p of
        None \<Rightarrow> (Inl TypeError, w1)
      | Some cont \<Rightarrow>
      (case querySelector B tweetFooterSelector aTweet p of
        None \<Rightarrow> (Inl TypeError, w1)
      | Some foot \<Rightarrow>
      (case querySelector B replyActionSelector foot p of
        None \<Rightarrow> (Inl TypeError, w1)
      | Some ract \<Rightarrow>
      (case querySelector B replyBtnSelector ract p of
        None \<Rightarrow> (Inl TypeError, w1)
      | Some btn \<Rightarrow>
          (Inr \<lparr>tweet = aTweet, container = cont, footer = foot, tRplyAct = ract,
                rplyButton = btn, fullTweetOverlay = None,
                priv_hasReplys = (querySelector B noReplySpanSelector btn p = None),
                priv_apartThread = (querySelector B threadSelector aTweet p \<noteq> None),
                priv_baseURI = baseURI\<rparr>, w1)))))"

text \<open>\<open>hasVideo()\<close>\<close>

definition hasVideo :: "('p, 'e) browser \<Rightarrow> 'e Tweet \<Rightarrow> ('p, 'e) world \<Rightarrow> bool \<times> ('p, 'e) world" where
  "hasVideo B t w =
     (case querySelector B ''div.AdaptiveMedia-videoContainer'' (tweet t) (page w) of
        None \<Rightarrow> (False, w)
      | Some videoContainer \<Rightarrow>
          (case querySelector B ''video'' videoContainer (page w) of
             None \<Rightarrow> (True, w)
           | Some video \<Rightarrow> (True, act (Played video) (videoPlay B video) w)))"

definition permalinkPath :: "('p, 'e) browser \<Rightarrow> 'e Tweet \<Rightarrow> 'p \<Rightarrow> string option" where
  "permalinkPath B t p = datasetGet B (container t) ''permalinkPath'' p"

definition hasReplys :: "'e Tweet \<Rightarrow> bool" where
  "hasReplys t = priv_hasReplys t"

definition apartOfThread :: "'e Tweet \<Rightarrow> bool" where
  "apartOfThread t = priv_apartThread t"

definition hasRepliedOrInThread :: "'e Tweet \<Rightarrow> bool" where
  "hasRepliedOrInThread t = (hasReplys t \<or> apartOfThread t)"

text \<open>The predicate of \<open>openFullTweet\<close>. \<open>endsWith\<close> turns an \<open>undefined\<close> path into the
  string \<open>undefined\<close>. With \<open>debug\<close> on, \<open>classList\<close> of a \<open>null\<close> overlay throws.\<close>

definition searchString :: "string option \<Rightarrow> string" where
  "searchString v = (case v of None \<Rightarrow> ''undefined'' | Some s \<Rightarrow> s)"

definition openFullTweet_predicate ::
  "bool \<Rightarrow> ('p, 'e) browser \<Rightarrow> string option \<Rightarrow> ('p, 'e) world \<times> 'e Tweet \<Rightarrow>
   (js_error + bool) \<times> ('p, 'e) world \<times> 'e Tweet" where
  "openFullTweet_predicate debug B path s =
     (case s of (w, t) \<Rightarrow>
        (let done = endsWith (documentBaseURI B (page w)) (searchString path) in
         if done
         then (let ov = getElementById B ''permalink-overlay'' (page w);
                   t' = t\<lparr>fullTweetOverlay := ov\<rparr>
               in if debug
                  then (case ov of
                          None \<Rightarrow> (Inl TypeError, (w, t'))
                        | Some el \<Rightarrow>
                            (Inr done,
                             (act (AddedClass el ''wr-debug-visited-overlay'')
                                (classListAdd B ''wr-debug-visited-overlay'' el) w, t')))
                  else (Inr done, (w, t')))
         else (Inr done, (w, t))))"

text \<open>The predicate of \<open>closeFullTweetOverlay\<close>, for the dismiss control found.\<close>

definition closeFullTweetOverlay_predicate ::
  "bool \<Rightarrow> ('p, 'e) browser \<Rightarrow> 'e \<Rightarrow> ('p, 'e) world \<times> 'e Tweet \<Rightarrow>
   (js_error + bool) \<times> ('p, 'e) world \<times> 'e Tweet" where
  "closeFullTweetOverlay_predicate debug B overlay s =
     (case s of (w, t) \<Rightarrow>
        (let done = (documentBaseURI B (page w) = priv_baseURI t) in
         if done \<and> debug
         then (Inr done, (act (RemovedClass overlay ''wr-debug-click'')
                             (classListRemove B ''wr-debug-click'' overlay) w, t))
         else (Inr done, (w, t))))"

text \<open>With \<open>debug\<close> on, one more class is added to an element.\<close>

definition debug_class ::
  "bool \<Rightarrow> ('p, 'e) browser \<Rightarrow> 'e \<Rightarrow> string \<Rightarrow> ('p, 'e) world \<Rightarrow> ('p, 'e) world" where
  "debug_class debug B e c w = (if debug then act (AddedClass e c) (classListAdd B c e) w else w)"

text \<open>
  \<open>timelineIterator(xpathQuerySelector, baseURI)\<close>. The body is suspended
  \<^item> at its start;
  \<^item> at the test of \<open>while (tweets.length > 0)\<close>, with the tweets still in the array;
  \<^item> after \<open>if (aTweet.hasVideo()) { yield true; }\<close>, in front of the choice between
    \<open>viewRepliesOrThread\<close> and \<open>viewRegularTweet\<close>;
  \<^item> inside the wait of \<open>openFullTweet\<close>, and after it;
  \<^item> in \<open>visitThreadReplyTweets\<close> at the test of \<open>while (i < len)\<close>, with the items of
    the snapshot still to visit;
  \<^item> at \<open>closeFullTweetOverlay\<close>, and inside its wait;
  \<^item> or it is completed.
\<close>

datatype view = RepliesOrThread | RegularTweet

datatype 'e timeline_pc =
    T_Start
  | T_Tweets "'e list"
  | T_View "'e Tweet" "'e list"
  | T_Opening view "'e Tweet" "'e list" "string option"
  | T_Opened view "'e Tweet" "'e list"
  | T_Thread "'e Tweet" "'e list" "'e list"
  | T_Close "'e Tweet" "'e list"
  | T_Closing "'e Tweet" "'e list" 'e
  | T_Done

record ('p, 'e) timeline_state =
  t_pc :: "'e timeline_pc"
  baseURI :: string
  links :: collector
  t_world :: "('p, 'e) world"

text \<open>The runner: \<open>timelineIterator(maybePolyfillXPG(xpg), document.baseURI)\<close>, with the
  registry cleared.\<close>

definition timelineIterator :: "('p, 'e) browser \<Rightarrow> 'p \<Rightarrow> ('p, 'e) timeline_state" where
  "timelineIterator B p =
     \<lparr>t_pc = T_Start, baseURI = documentBaseURI B p, links = timeline_links_new,
      t_world = \<lparr>page = p, trace = []\<rparr>\<rparr>"

text \<open>The end of the outer loop: \<open>tweets = xpathQuerySelector(tweetXpath); if
  (tweets.length === 0) { await delay(); tweets = xpathQuerySelector(tweetXpath); }\<close>
  and then the test \<open>while (tweets.length > 0 && canScrollMore())\<close>.\<close>

definition requery ::
  "('p, 'e) browser \<Rightarrow> (string \<Rightarrow> 'e option \<Rightarrow> 'p \<Rightarrow> 'e list) \<Rightarrow> ('p, 'e) world \<Rightarrow>
   'e list \<times> ('p, 'e) world" where
  "requery B xpathQuerySelector w =
     (let tweets = xpathQuerySelector tweetXpath None (page w) in
      if length tweets = 0
      then (let w' = delay B 3000 w in (xpathQuerySelector tweetXpath None (page w'), w'))
      else (tweets, w))"

text \<open>The start of \<open>visitThreadReplyTweets\<close>, up to the first test of the inner loop.\<close>

definition visitThreadReplyTweets_start ::
  "(string \<Rightarrow> bool) \<Rightarrow> ('p, 'e) browser \<Rightarrow> 'e Tweet \<Rightarrow> 'e list \<Rightarrow> ('p, 'e) timeline_state \<Rightarrow>
   bool signal \<times> ('p, 'e) timeline_state" where
  "visitThreadReplyTweets_start tail_ok B t tweets st =
     (case fullTweetOverlay t of
        None \<Rightarrow> (Throw TypeError, st)
      | Some ov \<Rightarrow>
          (let st1 = st\<lparr>links := collectOutlinksFrom tail_ok B ov (page (t_world st)) (links st)\<rparr>;
               snapShot = xpathSnapShot B overlayTweetXpath (Some ov) (page (t_world st))
           in if length snapShot = 0
              then (Tau, st1\<lparr>t_pc := T_Close t tweets\<rparr>)
              else (Tau, st1\<lparr>t_pc := T_Thread t tweets snapShot\<rparr>)))"

text \<open>The end of the \<open>do ... while\<close> of \<open>visitThreadReplyTweets\<close>, after the inner loop.\<close>

definition visitThreadReplyTweets_again ::
  "('p, 'e) browser \<Rightarrow> 'e Tweet \<Rightarrow> 'e list \<Rightarrow> ('p, 'e) timeline_state \<Rightarrow>
   bool signal \<times> ('p, 'e) timeline_state" where
  "visitThreadReplyTweets_again B t tweets st =
     (let w = t_world st;
          snapShot = xpathSnapShot B overlayTweetXpath (fullTweetOverlay t) (page w)
      in if length snapShot = 0
         then (case fullTweetOverlay t of
                 None \<Rightarrow> (Throw TypeError, st)
               | Some ov \<Rightarrow>
                   (case selectElemFromAndClick B ov
                           ''button.ThreadedConversation-showMoreThreadsButton'' w of
                      (clicked, w1) \<Rightarrow>
                        (let w2 = (if clicked then delay B 3000 w1 else w1);
                             snapShot2 = xpathSnapShot B overlayTweetXpath (fullTweetOverlay t) (page w2)
                         in if length snapShot2 > 0
                            then (Tau, st\<lparr>t_world := w2, t_pc := T_Thread t tweets snapShot2\<rparr>)
                            else (Tau, st\<lparr>t_world := w2, t_pc := T_Close t tweets\<rparr>))))
         else (Tau, st\<lparr>t_pc := T_Thread t tweets snapShot\<rparr>))"

definition timelineIterator_step ::
  "bool \<Rightarrow> (string \<Rightarrow> bool) \<Rightarrow> ('p, 'e) browser \<Rightarrow> (string \<Rightarrow> 'e option \<Rightarrow> 'p \<Rightarrow> 'e list) \<Rightarrow>
   ('p, 'e) timeline_state \<Rightarrow> bool signal \<times> ('p, 'e) timeline_state" where
  "timelineIterator_step debug tail_ok B xpathQuerySelector st =
     (let w = t_world st in
      case t_pc st of
        T_Start \<Rightarrow> (Tau, st\<lparr>t_pc := T_Tweets (xpathQuerySelector tweetXpath None (page w))\<rparr>)
      | T_Tweets (x # tweets) \<Rightarrow>
          (case Tweet_new B x (baseURI st) w of
             (Inl e, w1) \<Rightarrow> (Throw e, st\<lparr>t_world := w1\<rparr>)
           | (Inr aTweet, w1) \<Rightarrow>
               (let w2 = debug_class debug B (tweet aTweet) ''wr-debug-visited'' w1;
                    w3 = scrollIntoViewWithDelay B (Some (tweet aTweet)) 500 w2;
                    ls = collectOutlinksFrom tail_ok B (tweet aTweet) (page w3) (links st)
                in case hasVideo B aTweet w3 of
                     (True, w4) \<Rightarrow>
                       (Yield True, st\<lparr>t_world := w4, links := ls, t_pc := T_View aTweet tweets\<rparr>)
                   | (False, w4) \<Rightarrow>
                       (Tau, st\<lparr>t_world := w4, links := ls, t_pc := T_View aTweet tweets\<rparr>)))
      | T_Tweets [] \<Rightarrow>
          (case requery B xpathQuerySelector w of
             (tweets, w') \<Rightarrow>
               if length tweets > 0 \<and> canScrollMore B (page w')
               then (Tau, st\<lparr>t_world := w', t_pc := T_Tweets tweets\<rparr>)
               else (Return, st\<lparr>t_world := w', t_pc := T_Done\<rparr>))
      | T_View aTweet tweets \<Rightarrow>
          (let v = (if hasRepliedOrInThread aTweet then RepliesOrThread else RegularTweet);
               path = permalinkPath B aTweet (page w)
           in case click B (Some (container aTweet)) w of
                (clicked, w1) \<Rightarrow>
                  if clicked
                  then (Tau, st\<lparr>t_world := w1, t_pc := T_Opening v aTweet tweets path\<rparr>)
                  else (Tau, st\<lparr>t_world := w1, t_pc := T_Opened v aTweet tweets\<rparr>))
      | T_Opening v aTweet tweets path \<Rightarrow>
          (case interval_fires (second_passes B) (openFullTweet_predicate debug B path) (w, aTweet) of
             (True, (w', t')) \<Rightarrow> (Tau, st\<lparr>t_world := w', t_pc := T_Opened v t' tweets\<rparr>)
           | (False, (w', t')) \<Rightarrow> (Tau, st\<lparr>t_world := w', t_pc := T_Opening v t' tweets path\<rparr>))
      | T_Opened RegularTweet aTweet tweets \<Rightarrow> (Yield False, st\<lparr>t_pc := T_Close aTweet tweets\<rparr>)
      | T_Opened RepliesOrThread aTweet tweets \<Rightarrow> visitThreadReplyTweets_start tail_ok B aTweet tweets st
      | T_Thread t tweets (aTweet # items) \<Rightarrow>
          (let w1 = markElemAsVisited B (Some aTweet) wrvistited w;
               w2 = debug_class debug B aTweet ''wr-debug-visited-thread-reply'' w1;
               w3 = scrollIntoViewWithDelay B (Some aTweet) 1000 w2
           in (Yield False, st\<lparr>t_world := w3, t_pc := T_Thread t tweets items\<rparr>))
      | T_Thread t tweets [] \<Rightarrow> visitThreadReplyTweets_again B t tweets st
      | T_Close aTweet tweets \<Rightarrow>
          (case documentQuerySelector B closeFullTweetSelector (page w) of
             None \<Rightarrow> (Tau, st\<lparr>t_pc := T_Tweets tweets\<rparr>)
           | Some overlay \<Rightarrow>
               (case click B (Some overlay) (debug_class debug B overlay ''wr-debug-click'' w) of
                  (clicked, w1) \<Rightarrow>
                    if clicked
                    then (Tau, st\<lparr>t_world := w1, t_pc := T_Closing aTweet tweets overlay\<rparr>)
                    else (Tau, st\<lparr>t_world := w1, t_pc := T_Tweets tweets\<rparr>)))
      | T_Closing aTweet tweets overlay \<Rightarrow>
          (case interval_fires (second_passes B) (closeFullTweetOverlay_predicate debug B overlay)
                  (w, aTweet) of
             (True, (w', t')) \<Rightarrow> (Tau, st\<lparr>t_world := w', t_pc := T_Tweets tweets\<rparr>)
           | (False, (w', t')) \<Rightarrow> (Tau, st\<lparr>t_world := w', t_pc := T_Closing t' tweets overlay\<rparr>))
      | T_Done \<Rightarrow> (Return, st))"

text \<open>\<open>$WRTweetIterator$.next()\<close>\<close>

definition WRTweetIterator_next ::
  "nat \<Rightarrow> bool \<Rightarrow> (string \<Rightarrow> bool) \<Rightarrow> ('p, 'e) browser \<Rightarrow> (string \<Rightarrow> 'e option \<Rightarrow> 'p \<Rightarrow> 'e list) \<Rightarrow>
   ('p, 'e) timeline_state \<Rightarrow> ((js_error + bool iter_result) \<times> ('p, 'e) timeline_state) option" where
  "WRTweetIterator_next n debug tail_ok B xpathQuerySelector st =
     (case run_generator n (timelineIterator_step debug tail_ok B xpathQuerySelector) st of
        None \<Rightarrow> None
      | Some (Yield v, st') \<Rightarrow> Some (Inr \<lparr>iter_done = False, iter_value = Some v\<rparr>, st')
      | Some (Throw e, st') \<Rightarrow> Some (Inl e, st'\<lparr>t_pc := T_Done\<rparr>)
      | Some (_, st') \<Rightarrow> Some (Inr \<lparr>iter_done = True, iter_value = None\<rparr>, st'\<lparr>t_pc := T_Done\<rparr>))"

text \<open>The Timeline runner's \<open>$WRIteratorHandler$\<close>: \<open>return { done: next.done, wait:
  !!next.value }\<close>. The runner is called with \<open>debug\<close> true.\<close>

record step_result =
  step_done :: bool
  wait :: bool

definition WRIteratorHandler ::
  "nat \<Rightarrow> (string \<Rightarrow> bool) \<Rightarrow> ('p, 'e) browser \<Rightarrow> (string \<Rightarrow> 'e option \<Rightarrow> 'p \<Rightarrow> 'e list) option \<Rightarrow>
   ('p, 'e) timeline_state \<Rightarrow> ((js_error + step_result) \<times> ('p, 'e) timeline_state) option" where
  "WRIteratorHandler n tail_ok B xpg st =
     (case WRTweetIterator_next n True tail_ok B (maybePolyfillXPG B xpg) st of
        None \<Rightarrow> None
      | Some (Inl e, st') \<Rightarrow> Some (Inl e, st')
      | Some (Inr nxt, st') \<Rightarrow>
          Some (Inr \<lparr>step_done = iter_done nxt,
                     wait = (case iter_value nxt of None \<Rightarrow> False | Some v \<Rightarrow> v)\<rparr>, st'))"

text \<open>
  An example timeline with one tweet. Element 1 is the content of the tweet, 100 its
  container, 11 the footer, 12 the reply action, 13 the reply button, 14 the span that
  says that there is no reply, 15 the link to the thread, 16 the video container, 17
  the video, 50 the overlay and 51 its dismiss control. The page holds the location,
  the time in milliseconds, the elements marked as visited and the videos playing. A
  click on the container opens the tweet, a click on the dismiss control goes back.
  The parameters say which of 14, 15, 16 and 17 exist, when the tweet arrives in the
  document, and how high the document is; the window is 800 high and not scrolled.
\<close>

record tpage =
  uri :: string
  clock :: nat
  visited :: "nat list"
  playing :: "nat list"

definition timeline_home :: string where
  "timeline_home = ''https://twitter.com/u''"

definition tpage0 :: tpage where
  "tpage0 = \<lparr>uri = timeline_home, clock = 0, visited = [], playing = []\<rparr>"

definition timeline_example ::
  "bool \<Rightarrow> bool \<Rightarrow> bool \<Rightarrow> bool \<Rightarrow> nat \<Rightarrow> real \<Rightarrow> (tpage, nat) browser" where
  "timeline_example zero thread vcontainer video arrival height =
     null_browser
       \<lparr>querySelector :=
          (\<lambda>sel e p.
             if e = 1 \<and> sel = tweetFooterSelector then Some 11
             else if e = 11 \<and> sel = replyActionSelector then Some 12
             else if e = 12 \<and> sel = replyBtnSelector then Some 13
             else if e = 13 \<and> sel = noReplySpanSelector \<and> zero then Some 14
             else if e = 1 \<and> sel = threadSelector \<and> thread then Some 15
             else if e = 1 \<and> sel = ''div.AdaptiveMedia-videoContainer'' \<and> vcontainer then Some 16
             else if e = 16 \<and> sel = ''video'' \<and> video then Some 17
             else None),
        documentQuerySelector := (\<lambda>sel p. if sel = closeFullTweetSelector then Some 51 else None),
        getElementById := (\<lambda>i p. if i = ''permalink-overlay'' then Some 50 else None),
        parentElement := (\<lambda>e p. if e = 1 then Some 100 else None),
        datasetGet := (\<lambda>e k p. if e = 100 \<and> k = ''permalinkPath'' then Some ''/u/status/1'' else None),
        classListAdd := (\<lambda>c e p. if c = wrvistited then p\<lparr>visited := visited p @ [e]\<rparr> else p),
        elementClick :=
          (\<lambda>e p. if e = 100 then p\<lparr>uri := timeline_home @ ''/status/1''\<rparr>
                  else if e = 51 then p\<lparr>uri := timeline_home\<rparr> else p),
        videoPlay := (\<lambda>e p. p\<lparr>playing := playing p @ [e]\<rparr>),
        timePasses := (\<lambda>n p. p\<lparr>clock := clock p + n\<rparr>),
        documentBaseURI := uri,
        documentEvaluate :=
          (\<lambda>q e p. if q = tweetXpath \<and> e = None \<and> arrival \<le> clock p \<and> 1 \<notin> set (visited p)
                    then [1] else []),
        windowInnerHeight := (\<lambda>p. 800),
        bodyScrollHeight := (\<lambda>p. height),
        rootScrollHeight := (\<lambda>p. height)\<rparr>"

text \<open>
  The yields of a stretch of the body. The machine is followed from a state until \<open>stop\<close>
  holds of the state reached (or the body ends), for at most \<open>n\<close> steps, and the values
  it yields on the way are listed in their order. At a \<open>yield\<close> the generator is suspended
  until the host calls \<open>step()\<close> again, and the page may change meanwhile: \<open>host\<close> is what
  has happened to the state when the body resumes.
\<close>

fun yields_until ::
  "nat \<Rightarrow> ('s \<Rightarrow> bool) \<Rightarrow> ('s \<Rightarrow> 's) \<Rightarrow> ('s \<Rightarrow> 'v signal \<times> 's) \<Rightarrow> 's \<Rightarrow> ('v list \<times> 's) option" where
  "yields_until 0 stop host step s = None"
| "yields_until (Suc n) stop host step s =
     (if stop s then Some ([], s)
      else case step s of
             (Tau, s') \<Rightarrow> yields_until n stop host step s'
           | (Yield v, s') \<Rightarrow>
               (case yields_until n stop host step (host s') of
                  None \<Rightarrow> None
                | Some (vs, s'') \<Rightarrow> Some (v # vs, s''))
           | (Return, s') \<Rightarrow> Some ([], s')
           | (Throw e, s') \<Rightarrow> Some ([], s'))"

text \<open>Between two steps of the host only the page changes, in any way: the new page is
  a function of the state the generator is suspended in.\<close>

definition between_steps ::
  "(('p, 'e) timeline_state \<Rightarrow> 'p) \<Rightarrow> ('p, 'e) timeline_state \<Rightarrow> ('p, 'e) timeline_state" where
  "between_steps h st = st\<lparr>t_world := (t_world st)\<lparr>page := h st\<rparr>\<rparr>"

text \<open>The body of \<open>timelineIterator\<close> is back at the test of its inner loop, with
  \<open>tweets\<close> left in the array.\<close>

definition at_rest :: "'e list \<Rightarrow> ('p, 'e) timeline_state \<Rightarrow> bool" where
  "at_rest tweets st = (t_pc st = T_Tweets tweets)"

section \<open>Properties of the link filters and the registry\<close>


lemmas char_class_defs = isC0OrSpace_def isTabOrNewline_def isAsciiAlpha_def isSchemeChar_def toAsciiLower_def asciiLower_def asciiUpper_def

lemma startsWith_iff: "startsWith s p \<longleftrightarrow> (\<exists>t. s = p @ t)"
  unfolding startsWith_def
  by (metis append_eq_conv_conj append_take_drop_id)

lemma tabnl_is_c0: "isTabOrNewline c \<Longrightarrow> isC0OrSpace c"
  by (auto simp: isTabOrNewline_def isC0OrSpace_def)

lemma strip_keeps_prefix:
  assumes "p \<noteq> []" and "\<not> isC0OrSpace (hd p)" and "\<not> isC0OrSpace (last p)"
  shows "rev (dropWhile isC0OrSpace (rev (dropWhile isC0OrSpace (p @ t))))
         = p @ rev (dropWhile isC0OrSpace (rev t))"
proof -
  from assms obtain c cs where p: "p = c # cs" and c: "\<not> isC0OrSpace c"
    by (cases p) auto
  have front: "dropWhile isC0OrSpace (p @ t) = p @ t"
    using p c by simp
  have bk: "dropWhile isC0OrSpace (rev t @ rev p) = dropWhile isC0OrSpace (rev t) @ rev p"
  proof (cases "\<forall>x\<in>set (rev t). isC0OrSpace x")
    case True
    have "dropWhile isC0OrSpace (rev p) = rev p"
      using assms(1,3) by (cases "rev p") (auto simp: last_rev hd_rev)
    moreover have "dropWhile isC0OrSpace (rev t @ rev p) = dropWhile isC0OrSpace (rev p)"
      using True by (intro dropWhile_append2) auto
    moreover have "dropWhile isC0OrSpace (rev t) = []"
      using True by simp
    ultimately show ?thesis by simp
  next
    case False
    then show ?thesis by (metis dropWhile_append1)
  qed
  show ?thesis by (simp add: front bk)
qed

lemma url_preprocess_prefix:
  assumes "p \<noteq> []" and "\<forall>c\<in>set p. \<not> isC0OrSpace c"
  shows "\<exists>t'. url_preprocess (p @ t) = p @ t'"
proof -
  have "\<not> isC0OrSpace (hd p)" "\<not> isC0OrSpace (last p)"
    using assms by auto
  then have s: "rev (dropWhile isC0OrSpace (rev (dropWhile isC0OrSpace (p @ t))))
         = p @ rev (dropWhile isC0OrSpace (rev t))"
    using assms(1) by (rule_tac strip_keeps_prefix)
  have "filter (\<lambda>c. \<not> isTabOrNewline c) p = p"
    using assms(2) tabnl_is_c0 by (auto simp: filter_id_conv)
  then show ?thesis
    unfolding url_preprocess_def s by simp
qed

lemma ignored_prefix_not_http:
  assumes "p \<in> set ignored_prefixes"
  shows "url_scheme (p @ t) \<noteq> Some ''http'' \<and> url_scheme (p @ t) \<noteq> Some ''https''"
proof -
  have ne: "p \<noteq> []" and c0: "\<forall>c\<in>set p. \<not> isC0OrSpace c"
    using assms by (auto simp: ignored_prefixes_def isC0OrSpace_def)
  obtain t' where pre: "url_preprocess (p @ t) = p @ t'"
    using url_preprocess_prefix[OF ne c0] by blast
  show ?thesis
    using assms unfolding url_scheme_def pre
    by (auto simp: ignored_prefixes_def char_class_defs)
qed


lemma prefix_loop_iff: "prefix_loop a n test \<longleftrightarrow> (\<exists>i<n. startsWith test (a i))"
  by (induction n) (auto simp: less_Suc_eq)

lemma hasIgnoredPrefix_iff:
  "hasIgnoredPrefix s \<longleftrightarrow> (\<exists>i<length ignored_prefixes. startsWith s (ignored_prefixes ! i))"
  unfolding hasIgnoredPrefix_def list_ex_iff by (metis in_set_conv_nth)

lemma hasIgnoredPrefix_not_http:
  assumes "hasIgnoredPrefix s"
  shows "\<not> parses_http tail_ok s"
proof -
  from assms obtain p where p: "p \<in> set ignored_prefixes" and "startsWith s p"
    unfolding hasIgnoredPrefix_def list_ex_iff by blast
  then obtain t where "s = p @ t"
    by (auto simp: startsWith_iff)
  with ignored_prefix_not_http[OF p, of t] show ?thesis
    by (simp add: parses_http_def)
qed

lemma good_iff: "good p \<longleftrightarrow> p = ''http:'' \<or> p = ''https:''"
  by (auto simp: good_def goodSchemes_def)

lemma parse_verdict_fst: "fst (parse_verdict tail_ok u s) = (\<not> parses_http tail_ok s)"
  by (auto simp: parse_verdict_def set_href_def parses_http_def good_iff split: option.splits)

lemma shouldIgnoreLink_fst: "fst (shouldIgnoreLink tail_ok u s) = (\<not> parses_http tail_ok s)"
  by (simp add: shouldIgnoreLink_def while_prefix_def parse_verdict_fst)

lemma shouldIgnore_fst:
  "fst (shouldIgnore tail_ok u s) = (hasIgnoredPrefix s \<or> \<not> parses_http tail_ok s)"
  by (auto simp: shouldIgnore_def while_prefix_def parse_verdict_fst prefix_loop_iff
      hasIgnoredPrefix_iff Let_def)

lemma shouldIgnore_fst': "fst (shouldIgnore tail_ok u s) = (\<not> parses_http tail_ok s)"
  using hasIgnoredPrefix_not_http by (auto simp: shouldIgnore_fst)

lemma consider_href_outlinks:
  assumes "\<And>u s. fst (ignore tail_ok u s) = (\<not> parses_http tail_ok s)"
  shows "outlinks (consider_href ignore tail_ok c h) =
         (if h \<notin> set (outlinks c) \<and> accepted tail_ok h then outlinks c @ [h] else outlinks c)"
proof -
  have "fst (ignore tail_ok (urlParer c) h) = (\<not> parses_http tail_ok h)"
    by (rule assms)
  moreover have "parses_http tail_ok h \<Longrightarrow> \<not> hasIgnoredPrefix h"
    using hasIgnoredPrefix_not_http by blast
  moreover have "parses_http tail_ok h \<Longrightarrow> h \<noteq> []"
    by (auto simp: parses_http_def url_scheme_def url_preprocess_def)
  ultimately show ?thesis
    by (auto simp: consider_href_def set_has_def set_add_def accepted_def split: prod.splits)
qed

lemma addOutLinks_from_set:
  assumes ig: "\<And>u s. fst (ignore tail_ok u s) = (\<not> parses_http tail_ok s)"
    and "i \<le> length toAdd"
  shows "set (outlinks (addOutLinks_from ignore tail_ok c toAdd i)) =
         set (outlinks c) \<union> {h \<in> trim ` set (take i toAdd). accepted tail_ok h}"
  using assms(2)
proof (induction i arbitrary: c)
  case 0
  then show ?case by simp
next
  case (Suc i)
  have tk: "set (take (Suc i) toAdd) = insert (toAdd ! i) (set (take i toAdd))"
    using Suc.prems by (simp add: take_Suc_conv_app_nth)
  show ?case
    using Suc.prems
    by (auto simp: Suc.IH consider_href_outlinks[of ignore tail_ok, OF ig] tk)
qed

lemma addOutLinks_from_distinct:
  assumes ig: "\<And>u s. fst (ignore tail_ok u s) = (\<not> parses_http tail_ok s)"
  shows "distinct (outlinks c) \<Longrightarrow> distinct (outlinks (addOutLinks_from ignore tail_ok c toAdd i))"
  by (induction i arbitrary: c) (simp_all add: consider_href_outlinks[of ignore tail_ok, OF ig])

lemma OLC_addOutLinks_set:
  "set (outlinks (OLC_addOutLinks tail_ok c hs)) =
   set (outlinks c) \<union> {h \<in> trim ` set hs. accepted tail_ok h}"
  unfolding OLC_addOutLinks_def
  by (subst addOutLinks_from_set) (simp_all add: shouldIgnore_fst')

lemma addOutLinks_set:
  "set (outlinks (addOutLinks tail_ok c hs)) =
   set (outlinks c) \<union> {h \<in> trim ` set hs. accepted tail_ok h}"
  unfolding addOutLinks_def
  by (subst addOutLinks_from_set) (simp_all add: shouldIgnoreLink_fst)

lemma addOutlink_set:
  assumes "addOutlink tail_ok c a = Inr c'"
  shows "set (outlinks c') =
         set (outlinks c) \<union> {h \<in> trim ` set (candidates (AddOutlink a)). accepted tail_ok h}"
  using assms
  by (cases a) (auto simp: addOutlink_def consider_href_outlinks[of shouldIgnore tail_ok, OF shouldIgnore_fst']
      split: if_splits)

lemma addOutlink_distinct:
  assumes "addOutlink tail_ok c a = Inr c'" and "distinct (outlinks c)"
  shows "distinct (outlinks c')"
  using assms
  by (cases a) (auto simp: addOutlink_def consider_href_outlinks[of shouldIgnore tail_ok, OF shouldIgnore_fst']
      split: if_splits)

lemma OLC_feed_set:
  assumes "OLC_feed tail_ok c ops = Inr c'"
  shows "set (outlinks c') =
         set (outlinks c) \<union> {h \<in> trim ` (\<Union>op\<in>set ops. set (candidates op)). accepted tail_ok h}"
  using assms
proof (induction tail_ok c ops rule: OLC_feed.induct)
  case (1 tail_ok c)
  then show ?case by simp
next
  case (2 tail_ok c hs ops)
  then show ?case by (auto simp: OLC_addOutLinks_set)
next
  case (3 tail_ok c a ops)
  from "3.prems" obtain c1 where c1: "addOutlink tail_ok c a = Inr c1"
    and rest: "OLC_feed tail_ok c1 ops = Inr c'"
    by (auto split: sum.splits)
  show ?case
    using "3.IH"[OF c1 rest] addOutlink_set[OF c1] by auto
qed

lemma OLC_feed_distinct:
  assumes "OLC_feed tail_ok c ops = Inr c'" and "distinct (outlinks c)"
  shows "distinct (outlinks c')"
  using assms
proof (induction tail_ok c ops rule: OLC_feed.induct)
  case (1 tail_ok c)
  then show ?case by simp
next
  case (2 tail_ok c hs ops)
  then show ?case
    by (simp add: OLC_addOutLinks_def addOutLinks_from_distinct shouldIgnore_fst')
next
  case (3 tail_ok c a ops)
  then show ?case
    by (auto split: sum.splits dest: addOutlink_distinct)
qed

lemma timeline_feed_set:
  "set (outlinks (timeline_feed tail_ok c hss)) =
   set (outlinks c) \<union> {h \<in> trim ` (\<Union>hs\<in>set hss. set hs). accepted tail_ok h}"
  by (induction tail_ok c hss rule: timeline_feed.induct) (auto simp: addOutLinks_set)

lemma timeline_feed_distinct:
  "distinct (outlinks c) \<Longrightarrow> distinct (outlinks (timeline_feed tail_ok c hss))"
  by (induction tail_ok c hss rule: timeline_feed.induct)
     (simp_all add: addOutLinks_def addOutLinks_from_distinct shouldIgnoreLink_fst)

text \<open>
  Claim C10. For every input string the Timeline filter \<open>shouldIgnoreLink\<close> and the Grid
  filter \<open>OutLinkCollector.shouldIgnore\<close> return the same verdict, whatever the URL
  objects held before, and the verdict of each is: ignore exactly when the string does
  not parse as an absolute URL with protocol http: or https:. Only the Grid filter
  consults the prefix list; a string with a listed prefix never parses to http or https.
\<close>

theorem link_filters_agree:
  "fst (shouldIgnoreLink tail_ok u s) = fst (shouldIgnore tail_ok u' s)
   \<and> fst (shouldIgnoreLink tail_ok u s) = (\<not> parses_http tail_ok s)
   \<and> fst (shouldIgnore tail_ok u' s) = (\<not> parses_http tail_ok s)"
  by (simp add: shouldIgnoreLink_fst shouldIgnore_fst')

theorem link_filters_agree_witness:
  "fst (shouldIgnoreLink all_tails_parse aboutBlank ''javascript:evil()'') = True
   \<and> fst (shouldIgnore all_tails_parse aboutBlank ''javascript:evil()'') = True
   \<and> \<not> parses_http all_tails_parse ''javascript:evil()''
   \<and> fst (shouldIgnoreLink all_tails_parse aboutBlank ''https://x.com/a'') = False
   \<and> fst (shouldIgnore all_tails_parse aboutBlank ''https://x.com/a'') = False"
proof -
  have js: "\<not> parses_http all_tails_parse ''javascript:evil()''"
    by (simp add: parses_http_def url_scheme_def url_preprocess_def char_class_defs)
  have ok: "parses_http all_tails_parse ''https://x.com/a''"
    by (simp add: parses_http_def all_tails_parse_def url_scheme_def url_preprocess_def char_class_defs)
  show ?thesis
    using js ok
      link_filters_agree [of all_tails_parse aboutBlank "''javascript:evil()''" aboutBlank]
      link_filters_agree [of all_tails_parse aboutBlank "''https://x.com/a''" aboutBlank]
    by simp
qed

lemma OLC_consider_href [simp]:
  "outlinks (consider_href shouldIgnore tail_ok c h) =
     (if h \<notin> set (outlinks c) \<and> accepted tail_ok h then outlinks c @ [h] else outlinks c)"
  by (rule consider_href_outlinks) (rule shouldIgnore_fst')

lemma timeline_consider_href [simp]:
  "outlinks (consider_href shouldIgnoreLink tail_ok c h) =
     (if h \<notin> set (outlinks c) \<and> accepted tail_ok h then outlinks c @ [h] else outlinks c)"
  by (rule consider_href_outlinks) (rule shouldIgnoreLink_fst)

lemma scenario1_trims:
  "trim ''https://x.com/a'' = ''https://x.com/a''"
  "trim ''javascript:evil()'' = ''javascript:evil()''"
  "trim ''  https://x.com/b  '' = ''https://x.com/b''"
  by (simp_all add: trim_def isTrimSpace_def)

lemma scenario1_schemes:
  "url_scheme ''https://x.com/a'' = Some ''https''"
  "url_scheme ''https://x.com/b'' = Some ''https''"
  "url_scheme ''javascript:evil()'' = Some ''javascript''"
  by (simp_all add: url_scheme_def url_preprocess_def char_class_defs)

lemma scenario1_accepted:
  "accepted tail_ok ''https://x.com/a'' = tail_ok ''https://x.com/a''"
  "accepted tail_ok ''https://x.com/b'' = tail_ok ''https://x.com/b''"
  "accepted tail_ok ''javascript:evil()'' = False"
  by (simp_all add: accepted_def parses_http_def scenario1_schemes hasIgnoredPrefix_def
      ignored_prefixes_def startsWith_def)

lemma scenario1_grid:
  "outlinks (OLC_addOutLinks tail_ok OutLinkCollector_new scenario1) =
     (if tail_ok ''https://x.com/b'' then [''https://x.com/b''] else [])
     @ (if tail_ok ''https://x.com/a'' then [''https://x.com/a''] else [])"
  by (simp add: OLC_addOutLinks_def OutLinkCollector_new_def scenario1_def eval_nat_numeral
      scenario1_trims scenario1_accepted)

lemma scenario1_timeline:
  "outlinks (addOutLinks tail_ok timeline_links_new scenario1) =
     (if tail_ok ''https://x.com/b'' then [''https://x.com/b''] else [])
     @ (if tail_ok ''https://x.com/a'' then [''https://x.com/a''] else [])"
  by (simp add: addOutLinks_def timeline_links_new_def scenario1_def eval_nat_numeral
      scenario1_trims scenario1_accepted)

lemma scenario1_one_by_one:
  "\<exists>c. OLC_feed tail_ok OutLinkCollector_new (map (\<lambda>s. AddOutlink (LinkString s)) scenario1) = Inr c
     \<and> outlinks c = (if tail_ok ''https://x.com/a'' then [''https://x.com/a''] else [])
         @ (if tail_ok ''https://x.com/b'' then [''https://x.com/b''] else [])"
  by (simp add: addOutlink_def OutLinkCollector_new_def scenario1_def
      scenario1_trims scenario1_accepted)

lemma OLC_feed_succeeds:
  "list_all feed_ok ops \<Longrightarrow> \<exists>c'. OLC_feed tail_ok c ops = Inr c'"
proof (induction tail_ok c ops rule: OLC_feed.induct)
  case (3 tail_ok c a ops)
  then show ?case
    by (cases a) (auto simp add: addOutlink_def)
qed simp_all

lemma OLC_feed_throws:
  "\<not> list_all feed_ok ops \<Longrightarrow> OLC_feed tail_ok c ops = Inl TypeError"
proof (induction tail_ok c ops rule: OLC_feed.induct)
  case (3 tail_ok c a ops)
  then show ?case
    by (cases a) (auto simp add: addOutlink_def)
qed simp_all

text \<open>
  Claim C1. Feed any sequence of candidates to the collector, through \<open>addOutLinks\<close>
  (\<open>collectFrom\<close>) and \<open>addOutlink\<close> for the Grid collector, through \<open>addOutLinks\<close> for the
  Timeline registry, starting from the empty registry. The feed of the Grid collector
  succeeds unless \<open>addOutlink\<close> is given an element whose \<open>href\<close> is the empty string,
  and then it throws a \<open>TypeError\<close>; \<open>addOutlink\<close> of a string always succeeds, and
  the registry after it is the registry before it with the trimmed string appended
  exactly when that is not empty, not present, has no ignored prefix and parses to
  http or https. After a feed that succeeds, and after every feed of the Timeline
  registry, a string is in the registry if and only if it is the trimmed text of a
  candidate, is not empty, starts with no entry of the ignore-prefix list and parses
  as an absolute URL whose scheme is http or https. No string is in the registry
  twice: a candidate that is already present is not inserted again. One insertion step
  appends the trimmed text exactly when it is not empty, not present, has no ignored
  prefix and parses to http or https, and leaves the registry as it was otherwise.
\<close>

theorem registry_membership:
  "(list_all feed_ok ops \<longrightarrow>
      (\<exists>c. OLC_feed tail_ok OutLinkCollector_new ops = Inr c
         \<and> (s \<in> set (outLinkArray c) \<longleftrightarrow>
              s \<in> trim ` (\<Union>op\<in>set ops. set (candidates op)) \<and> s \<noteq> [] \<and> \<not> hasIgnoredPrefix s
              \<and> parses_http tail_ok s)
         \<and> distinct (outLinkArray c)))
   \<and> (\<not> list_all feed_ok ops \<longrightarrow> OLC_feed tail_ok OutLinkCollector_new ops = Inl TypeError)
   \<and> (\<forall>c. OLC_feed tail_ok OutLinkCollector_new ops = Inr c \<longrightarrow>
        (s \<in> set (outLinkArray c) \<longleftrightarrow>
            s \<in> trim ` (\<Union>op\<in>set ops. set (candidates op)) \<and> s \<noteq> [] \<and> \<not> hasIgnoredPrefix s
            \<and> parses_http tail_ok s)
        \<and> distinct (outLinkArray c))
   \<and> addOutlink tail_ok c0 (LinkString x) = Inr (consider_href shouldIgnore tail_ok c0 (trim x))
   \<and> addOutlink tail_ok c0 (LinkElem x) =
       (if x \<noteq> [] then Inr (consider_href shouldIgnore tail_ok c0 (trim x)) else Inl TypeError)
   \<and> (\<exists>c'. addOutlink tail_ok c0 (LinkString x) = Inr c'
         \<and> outLinkArray c' =
             (if trim x \<noteq> [] \<and> trim x \<notin> set (outLinkArray c0) \<and> \<not> hasIgnoredPrefix (trim x)
                 \<and> parses_http tail_ok (trim x)
              then outLinkArray c0 @ [trim x] else outLinkArray c0))
   \<and> (s \<in> set (outlinks (timeline_feed tail_ok timeline_links_new hss)) \<longleftrightarrow>
        s \<in> trim ` (\<Union>hs\<in>set hss. set hs) \<and> s \<noteq> [] \<and> \<not> hasIgnoredPrefix s
        \<and> parses_http tail_ok s)
   \<and> distinct (outlinks (timeline_feed tail_ok timeline_links_new hss))
   \<and> outlinks (consider_href shouldIgnore tail_ok c0 h) =
       (if h \<noteq> [] \<and> h \<notin> set (outlinks c0) \<and> \<not> hasIgnoredPrefix h \<and> parses_http tail_ok h
        then outlinks c0 @ [h] else outlinks c0)
   \<and> outlinks (consider_href shouldIgnoreLink tail_ok c0 h) =
       (if h \<noteq> [] \<and> h \<notin> set (outlinks c0) \<and> \<not> hasIgnoredPrefix h \<and> parses_http tail_ok h
        then outlinks c0 @ [h] else outlinks c0)"
proof -
  have grid: "(s \<in> set (outLinkArray c) \<longleftrightarrow>
            s \<in> trim ` (\<Union>op\<in>set ops. set (candidates op)) \<and> s \<noteq> [] \<and> \<not> hasIgnoredPrefix s
            \<and> parses_http tail_ok s)
        \<and> distinct (outLinkArray c)"
    if run: "OLC_feed tail_ok OutLinkCollector_new ops = Inr c" for c
  proof -
    have m: "set (outlinks c) = {h \<in> trim ` (\<Union>op\<in>set ops. set (candidates op)). accepted tail_ok h}"
      using OLC_feed_set[OF run] by (simp add: OutLinkCollector_new_def)
    have d: "distinct (outlinks c)"
      using OLC_feed_distinct[OF run] by (simp add: OutLinkCollector_new_def)
    show ?thesis
      unfolding outLinkArray_def m using d by (simp add: accepted_def)
  qed
  have c1: "list_all feed_ok ops \<longrightarrow>
      (\<exists>c. OLC_feed tail_ok OutLinkCollector_new ops = Inr c
         \<and> (s \<in> set (outLinkArray c) \<longleftrightarrow>
              s \<in> trim ` (\<Union>op\<in>set ops. set (candidates op)) \<and> s \<noteq> [] \<and> \<not> hasIgnoredPrefix s
              \<and> parses_http tail_ok s)
         \<and> distinct (outLinkArray c))"
  proof
    assume "list_all feed_ok ops"
    then obtain c where run: "OLC_feed tail_ok OutLinkCollector_new ops = Inr c"
      using OLC_feed_succeeds by blast
    from grid[OF run] run
    show "\<exists>c. OLC_feed tail_ok OutLinkCollector_new ops = Inr c
         \<and> (s \<in> set (outLinkArray c) \<longleftrightarrow>
              s \<in> trim ` (\<Union>op\<in>set ops. set (candidates op)) \<and> s \<noteq> [] \<and> \<not> hasIgnoredPrefix s
              \<and> parses_http tail_ok s)
         \<and> distinct (outLinkArray c)"
      by blast
  qed
  have c2: "\<not> list_all feed_ok ops \<longrightarrow> OLC_feed tail_ok OutLinkCollector_new ops = Inl TypeError"
    using OLC_feed_throws by blast
  have c3: "\<forall>c. OLC_feed tail_ok OutLinkCollector_new ops = Inr c \<longrightarrow>
        (s \<in> set (outLinkArray c) \<longleftrightarrow>
            s \<in> trim ` (\<Union>op\<in>set ops. set (candidates op)) \<and> s \<noteq> [] \<and> \<not> hasIgnoredPrefix s
            \<and> parses_http tail_ok s)
        \<and> distinct (outLinkArray c)"
    using grid by blast
  have c4: "addOutlink tail_ok c0 (LinkString x) = Inr (consider_href shouldIgnore tail_ok c0 (trim x))"
    by (simp add: addOutlink_def)
  have c5: "addOutlink tail_ok c0 (LinkElem x) =
       (if x \<noteq> [] then Inr (consider_href shouldIgnore tail_ok c0 (trim x)) else Inl TypeError)"
    by (simp add: addOutlink_def)
  have c6: "\<exists>c'. addOutlink tail_ok c0 (LinkString x) = Inr c'
         \<and> outLinkArray c' =
             (if trim x \<noteq> [] \<and> trim x \<notin> set (outLinkArray c0) \<and> \<not> hasIgnoredPrefix (trim x)
                 \<and> parses_http tail_ok (trim x)
              then outLinkArray c0 @ [trim x] else outLinkArray c0)"
    unfolding c4 by (simp add: outLinkArray_def accepted_def)
  have tl: "set (outlinks (timeline_feed tail_ok timeline_links_new hss)) =
            {h \<in> trim ` (\<Union>hs\<in>set hss. set hs). accepted tail_ok h}"
    by (simp add: timeline_feed_set timeline_links_new_def)
  have c7: "s \<in> set (outlinks (timeline_feed tail_ok timeline_links_new hss)) \<longleftrightarrow>
            s \<in> trim ` (\<Union>hs\<in>set hss. set hs) \<and> s \<noteq> [] \<and> \<not> hasIgnoredPrefix s
            \<and> parses_http tail_ok s"
    unfolding tl by (simp add: accepted_def)
  have c8: "distinct (outlinks (timeline_feed tail_ok timeline_links_new hss))"
    by (rule timeline_feed_distinct) (simp add: timeline_links_new_def)
  have c9: "outlinks (consider_href shouldIgnore tail_ok c0 h) =
             (if h \<noteq> [] \<and> h \<notin> set (outlinks c0) \<and> \<not> hasIgnoredPrefix h \<and> parses_http tail_ok h
              then outlinks c0 @ [h] else outlinks c0)"
    by (simp add: accepted_def)
  have c10: "outlinks (consider_href shouldIgnoreLink tail_ok c0 h) =
             (if h \<noteq> [] \<and> h \<notin> set (outlinks c0) \<and> \<not> hasIgnoredPrefix h \<and> parses_http tail_ok h
              then outlinks c0 @ [h] else outlinks c0)"
    by (simp add: accepted_def)
  from c1 c2 c3 c4 c5 c6 c7 c8 c9 c10 show ?thesis
    by (intro conjI)
qed

theorem registry_membership_witness:
  "list_all feed_ok
       [AddOutlink (LinkString ''  https://x.com/c''), CollectFrom scenario1,
        AddOutlink (LinkElem ''https://x.com/d''), AddOutlink (LinkString ''ftp://x.com/c'')]
   \<and> OLC_feed all_tails_parse OutLinkCollector_new
       [AddOutlink (LinkString ''  https://x.com/c''), CollectFrom scenario1,
        AddOutlink (LinkElem ''https://x.com/d''), AddOutlink (LinkString ''ftp://x.com/c'')]
     = Inr \<lparr>outlinks = [''https://x.com/c'', ''https://x.com/b'', ''https://x.com/a'', ''https://x.com/d''],
            urlParer = \<lparr>protocol = ''https:''\<rparr>\<rparr>
   \<and> ''https://x.com/c'' \<in> set (outLinkArray
        \<lparr>outlinks = [''https://x.com/c'', ''https://x.com/b'', ''https://x.com/a'', ''https://x.com/d''],
         urlParer = \<lparr>protocol = ''https:''\<rparr>\<rparr>)
   \<and> \<not> hasIgnoredPrefix ''https://x.com/c''
   \<and> parses_http all_tails_parse ''https://x.com/c''
   \<and> addOutlink all_tails_parse OutLinkCollector_new (LinkString ''  https://x.com/c'')
       = Inr \<lparr>outlinks = [''https://x.com/c''], urlParer = \<lparr>protocol = ''https:''\<rparr>\<rparr>
   \<and> \<not> list_all feed_ok [CollectFrom scenario1, AddOutlink (LinkElem '''')]
   \<and> OLC_feed all_tails_parse OutLinkCollector_new [CollectFrom scenario1, AddOutlink (LinkElem '''')]
       = Inl TypeError
   \<and> ''https://x.com/b'' \<in> set (outlinks (timeline_feed all_tails_parse timeline_links_new [scenario1]))"
proof -
  let ?ops = "[AddOutlink (LinkString ''  https://x.com/c''), CollectFrom scenario1,
        AddOutlink (LinkElem ''https://x.com/d''), AddOutlink (LinkString ''ftp://x.com/c'')]"
  have ok: "list_all feed_ok ?ops"
    by simp
  have run: "OLC_feed all_tails_parse OutLinkCollector_new ?ops
     = Inr \<lparr>outlinks = [''https://x.com/c'', ''https://x.com/b'', ''https://x.com/a'', ''https://x.com/d''],
            urlParer = \<lparr>protocol = ''https:''\<rparr>\<rparr>"
    by code_simp
  have one: "addOutlink all_tails_parse OutLinkCollector_new (LinkString ''  https://x.com/c'')
       = Inr \<lparr>outlinks = [''https://x.com/c''], urlParer = \<lparr>protocol = ''https:''\<rparr>\<rparr>"
    by code_simp
  have bad: "\<not> list_all feed_ok [CollectFrom scenario1, AddOutlink (LinkElem '''')]"
    by simp
  have memb: "''https://x.com/b'' \<in> trim ` set scenario1"
    by (simp add: scenario1_def scenario1_trims)
  have tr: "trim ''  https://x.com/c'' = ''https://x.com/c''"
    by (simp add: trim_def isTrimSpace_def)
  have A: "''https://x.com/c'' \<in> set (outLinkArray
        \<lparr>outlinks = [''https://x.com/c'', ''https://x.com/b'', ''https://x.com/a'', ''https://x.com/d''],
         urlParer = \<lparr>protocol = ''https:''\<rparr>\<rparr>)
     \<and> \<not> hasIgnoredPrefix ''https://x.com/c'' \<and> parses_http all_tails_parse ''https://x.com/c''"
    using ok run tr
      registry_membership [of ?ops all_tails_parse "''https://x.com/c''" OutLinkCollector_new "[]" "[]" "[]"]
    by (simp add: outLinkArray_def)
  have B: "OLC_feed all_tails_parse OutLinkCollector_new [CollectFrom scenario1, AddOutlink (LinkElem '''')]
       = Inl TypeError"
    using bad
      registry_membership [of "[CollectFrom scenario1, AddOutlink (LinkElem '''')]" all_tails_parse
         "[]" OutLinkCollector_new "[]" "[]" "[]"]
    by blast
  have C: "''https://x.com/b'' \<in> set (outlinks (timeline_feed all_tails_parse timeline_links_new [scenario1]))"
    using memb A
      registry_membership [of "[]" all_tails_parse "''https://x.com/b''" OutLinkCollector_new "[]" "[scenario1]" "[]"]
    by (simp add: accepted_def scenario1_accepted hasIgnoredPrefix_def parses_http_def
        scenario1_schemes all_tails_parse_def ignored_prefixes_def startsWith_def)
  from ok run one bad A B C show ?thesis
    by (intro conjI) simp_all
qed

text \<open>
  Claim C3, as amended. \<open>addOutLinks\<close> walks its candidates from the last to the first
  (\<open>let i = toAdd.length; while (i--)\<close>) and the registry lists its members in insertion
  order. Given the four candidates of scenario 1 in one call, the Grid collector and
  the Timeline registry, both empty before, end with exactly the two strings
  \<open>https://x.com/b\<close> and \<open>https://x.com/a\<close>, in this order, provided the URL parser
  accepts the two https strings. Given one at a time to \<open>addOutlink\<close>, in the order
  of the scenario, the snapshot lists \<open>https://x.com/a\<close> first.
\<close>

theorem scenario1_snapshot:
  assumes "tail_ok ''https://x.com/a''" and "tail_ok ''https://x.com/b''"
  shows "outLinkArray (OLC_addOutLinks tail_ok OutLinkCollector_new scenario1)
           = [''https://x.com/b'', ''https://x.com/a'']
         \<and> outLinkArray (addOutLinks tail_ok timeline_links_new scenario1)
           = [''https://x.com/b'', ''https://x.com/a'']
         \<and> (\<exists>c. OLC_feed tail_ok OutLinkCollector_new (map (\<lambda>s. AddOutlink (LinkString s)) scenario1) = Inr c
              \<and> outLinkArray c = [''https://x.com/a'', ''https://x.com/b''])"
  using assms scenario1_one_by_one[of tail_ok]
  by (simp add: outLinkArray_def scenario1_grid scenario1_timeline)

theorem scenario1_snapshot_witness:
  "all_tails_parse ''https://x.com/a'' \<and> all_tails_parse ''https://x.com/b''
   \<and> outLinkArray (OLC_addOutLinks all_tails_parse OutLinkCollector_new scenario1)
           = [''https://x.com/b'', ''https://x.com/a'']
   \<and> outLinkArray (addOutLinks all_tails_parse timeline_links_new scenario1)
           = [''https://x.com/b'', ''https://x.com/a'']"
proof -
  have a: "all_tails_parse ''https://x.com/a''" and b: "all_tails_parse ''https://x.com/b''"
    by (simp_all add: all_tails_parse_def)
  show ?thesis
    using a b scenario1_snapshot [OF a b] by simp
qed

text \<open>
  The claim C3 as it was stated fails: with a parser that accepts both https strings,
  the snapshot after the four candidates of scenario 1 is not the list
  \<open>https://x.com/a\<close>, \<open>https://x.com/b\<close>, for the Grid collector and for the Timeline
  registry alike.
\<close>

theorem scenario1_order_counterexample:
  "outLinkArray (OLC_addOutLinks all_tails_parse OutLinkCollector_new
      [''https://x.com/a'', ''https://x.com/a'', ''javascript:evil()'', ''  https://x.com/b  ''])
     \<noteq> [''https://x.com/a'', ''https://x.com/b'']
   \<and> outLinkArray (addOutLinks all_tails_parse timeline_links_new
      [''https://x.com/a'', ''https://x.com/a'', ''javascript:evil()'', ''  https://x.com/b  ''])
     \<noteq> [''https://x.com/a'', ''https://x.com/b'']"
  using scenario1_grid[of all_tails_parse] scenario1_timeline[of all_tails_parse]
  by (simp add: outLinkArray_def all_tails_parse_def scenario1_def)

section \<open>Properties of the interaction primitives\<close>

lemma click_None: "click B None w = (False, w)"
  by (simp add: click_def)

lemma click_Some:
  "click B (Some e) w =
     (True, \<lparr>page = elementClick B e (dispatchMouseEvent B ''mouseover'' e (page w)),
             trace = trace w @ [MouseEvent ''mouseover'' e, Clicked e]\<rparr>)"
  by (simp add: click_def act_def)

lemma waitForPredicate_mono:
  "waitForPredicate n sec predicate s = Some s' \<Longrightarrow> waitForPredicate (n + k) sec predicate s = Some s'"
proof (induction n arbitrary: s)
  case 0
  then show ?case by simp
next
  case (Suc n)
  then show ?case
    by (cases "interval_fires sec predicate s") (auto split: bool.splits)
qed

text \<open>
  Claim C9. \<open>click\<close> returns true exactly when the element is not null. On a null
  element it returns false, throws nothing and leaves the page and the trace as they
  were; on an element it dispatches a mouseover and then clicks it. \<open>clickAndWaitFor\<close>
  clicks; when nothing was clicked it returns false at once, without a firing of the
  interval, whatever the predicate is; when the element was clicked it polls the
  predicate, and when the wait resolves it returns true with the state the wait ended
  in. Whenever it returns, it returns whether the click happened.
\<close>

theorem click_and_wait:
  "fst (click B elem w) = (elem \<noteq> None)
   \<and> click B None w = (False, w)
   \<and> click B (Some e) w =
       (True, \<lparr>page = elementClick B e (dispatchMouseEvent B ''mouseover'' e (page w)),
               trace = trace w @ [MouseEvent ''mouseover'' e, Clicked e]\<rparr>)
   \<and> clickAndWaitFor n B None predicate (w, c) = Some (False, (w, c))
   \<and> clickAndWaitFor n B (Some e) predicate (w, c) =
       map_option (Pair True)
         (waitForPredicate n (second_passes B) predicate (snd (click B (Some e) w), c))
   \<and> (clickAndWaitFor n B elem predicate (w, c) = Some r \<longrightarrow> fst r = (elem \<noteq> None))"
proof -
  have a: "fst (click B elem w) = (elem \<noteq> None)"
    by (cases elem) (simp_all add: click_None click_Some)
  have b: "clickAndWaitFor n B None predicate (w, c) = Some (False, (w, c))"
    by (simp add: clickAndWaitFor_def click_None)
  have d: "clickAndWaitFor n B (Some e) predicate (w, c) =
       map_option (Pair True)
         (waitForPredicate n (second_passes B) predicate (snd (click B (Some e) w), c))"
    by (simp add: clickAndWaitFor_def click_Some split: option.splits)
  have f: "clickAndWaitFor n B elem predicate (w, c) = Some r \<longrightarrow> fst r = (elem \<noteq> None)"
  proof (cases elem)
    case None
    then show ?thesis using b by auto
  next
    case (Some x)
    then show ?thesis
      by (auto simp: clickAndWaitFor_def click_Some split: option.splits)
  qed
  show ?thesis
    using a b d f by (simp add: click_None click_Some)
qed

theorem click_and_wait_witness:
  "clickAndWaitFor 5 clock_browser (Some 7) (clock_reached 3000) (\<lparr>page = 0, trace = []\<rparr>, ())
     = Some (True, (\<lparr>page = 3000, trace = [MouseEvent ''mouseover'' 7, Clicked 7]\<rparr>, ()))
   \<and> clickAndWaitFor 2 clock_browser (Some 7) (clock_reached 3000) (\<lparr>page = 0, trace = []\<rparr>, ())
     = None
   \<and> clickAndWaitFor 0 clock_browser None (clock_reached 3000) (\<lparr>page = 0, trace = []\<rparr>, ())
     = Some (False, (\<lparr>page = 0, trace = []\<rparr>, ()))
   \<and> fst (click clock_browser (Some 7) \<lparr>page = 0, trace = []\<rparr>) = True"
proof -
  have run: "clickAndWaitFor 5 clock_browser (Some 7) (clock_reached 3000) (\<lparr>page = 0, trace = []\<rparr>, ())
     = Some (True, (\<lparr>page = 3000, trace = [MouseEvent ''mouseover'' 7, Clicked 7]\<rparr>, ()))"
    by (simp add: clickAndWaitFor_def click_Some clock_browser_def null_browser_def
        eval_nat_numeral interval_fires_def second_passes_def clock_reached_def)
  have short: "clickAndWaitFor 2 clock_browser (Some 7) (clock_reached 3000) (\<lparr>page = 0, trace = []\<rparr>, ())
     = None"
    by (simp add: clickAndWaitFor_def click_Some clock_browser_def null_browser_def
        eval_nat_numeral interval_fires_def second_passes_def clock_reached_def)
  show ?thesis
    using run short
      click_and_wait [where B = clock_browser and elem = "Some 7" and e = 7 and n = 5
        and w = "\<lparr>page = 0, trace = []\<rparr>" and predicate = "clock_reached 3000" and c = "()"
        and r = "(True, (\<lparr>page = 3000, trace = [MouseEvent ''mouseover'' 7, Clicked 7]\<rparr>, ()))"]
      click_and_wait [where B = clock_browser and elem = "None" and e = 7 and n = 0
        and w = "\<lparr>page = 0, trace = []\<rparr>" and predicate = "clock_reached 3000" and c = "()"]
    by simp
qed

section \<open>Properties of the Grid Visitor\<close>

lemma keySelector_loop:
  assumes "reactInstancesFromElements_loop B p elems keySelector seen acc = Inr (rows, seen')"
  shows "\<exists>new. rows = acc @ new \<and> distinct (pin_keys new) \<and> set (pin_keys new) \<inter> set seen = {}
               \<and> set seen' = set seen \<union> set (pin_keys new)"
  using assms
proof (induction elems arbitrary: seen acc)
  case Nil
  then show ?case by (simp add: pin_keys_def)
next
  case (Cons nd elems)
  from Cons.prems obtain ri where ri: "reactInstanceFromDOMElem B (Some nd) p = Inr (Some ri)"
    by (auto split: sum.splits option.splits)
  show ?case
  proof (cases "fiber_key ri \<in> set seen")
    case True
    then have "keySelector seen (fiber_key ri) = (False, seen)"
      by (simp add: keySelector_def set_has_def)
    with Cons.prems ri
    have "reactInstancesFromElements_loop B p elems keySelector seen acc = Inr (rows, seen')"
      by simp
    from Cons.IH[OF this] show ?thesis .
  next
    case False
    then have "keySelector seen (fiber_key ri) = (True, seen @ [fiber_key ri])"
      by (simp add: keySelector_def set_has_def set_add_def)
    with Cons.prems ri
    have "reactInstancesFromElements_loop B p elems keySelector (seen @ [fiber_key ri])
            (acc @ [\<lparr>node = nd, reactInstance = ri\<rparr>]) = Inr (rows, seen')"
      by simp
    from Cons.IH[OF this] obtain new where new: "rows = (acc @ [\<lparr>node = nd, reactInstance = ri\<rparr>]) @ new"
      "distinct (pin_keys new)" "set (pin_keys new) \<inter> set (seen @ [fiber_key ri]) = {}"
      "set seen' = set (seen @ [fiber_key ri]) \<union> set (pin_keys new)"
      by blast
    show ?thesis
      apply (rule exI[of _ "\<lparr>node = nd, reactInstance = ri\<rparr> # new"])
      using new False by (auto simp: pin_keys_def)
  qed
qed

lemma getRenderedPins_fresh:
  assumes "getRenderedPins B st = Inr (rows, seen')"
  shows "distinct (pin_keys rows) \<and> set (pin_keys rows) \<inter> set (seenPins st) = {}
         \<and> set seen' = set (seenPins st) \<union> set (pin_keys rows)"
  using assms keySelector_loop[of B _ _ "seenPins st" "[]" rows seen']
  by (auto simp: getRenderedPins_def reactInstancesFromElements_def split: option.splits)

lemma grid_inv_page [simp]:
  "grid_inv (st\<lparr>g_world := w\<rparr>) Y = grid_inv st Y"
  by (simp add: grid_inv_def split: grid_pc.splits)

lemma grid_step_inv:
  assumes "grid_inv st Y" and "iteratePins_step tail_ok B st = (sig, st')"
  shows "(sig = Tau \<longrightarrow> grid_inv st' Y) \<and> (\<forall>pin. sig = Yield pin \<longrightarrow> grid_inv st' (Y @ pin_keys [pin]))"
proof (cases "g_pc st")
  case G_Start
  with assms(1) have Y: "Y = []" by (simp add: grid_inv_def)
  show ?thesis
  proof (cases sig)
    case Tau
    with assms(2) G_Start obtain r rows seen where
      g: "getRenderedPins B (st\<lparr>seenPins := [], pinContainerR := r\<rparr>) = Inr (rows, seen)"
      and st': "st' = st\<lparr>seenPins := seen, pinContainerR := r, g_pc := G_Consume FirstDrain rows\<rparr>"
      by (auto simp: iteratePins_step_def Let_def split: sum.splits prod.splits)
    from getRenderedPins_fresh[OF g] show ?thesis
      using Tau Y st' by (auto simp: grid_inv_def)
  next
    case (Yield pin)
    with assms(2) G_Start show ?thesis
      by (auto simp: iteratePins_step_def Let_def split: sum.splits prod.splits)
  qed simp_all
next
  case (G_Consume d rows)
  show ?thesis
  proof (cases rows)
    case (Cons pin rest)
    with assms G_Consume show ?thesis
      by (auto simp: iteratePins_step_def grid_inv_def consumePin_def pin_keys_def)
  next
    case Nil
    from assms(1) G_Consume Nil have Y: "distinct Y" "set Y \<subseteq> set (seenPins st)"
      by (auto simp: grid_inv_def pin_keys_def)
    show ?thesis
    proof (cases sig)
      case Tau
      with assms(2) G_Consume Nil obtain rows1 seen1 where
        g1: "getRenderedPins B st = Inr (rows1, seen1)"
        by (auto simp: iteratePins_step_def split: sum.splits)
      note f1 = getRenderedPins_fresh[OF g1]
      show ?thesis
      proof (cases "rows1 = []")
        case False
        with assms(2) G_Consume Nil g1 have "st' = st\<lparr>seenPins := seen1, g_pc := G_Consume d rows1\<rparr>"
          by (auto simp: iteratePins_step_def)
        with f1 Y Tau show ?thesis
          by (auto simp: grid_inv_def)
      next
        case True
        with assms(2) G_Consume Nil g1 Tau obtain rows2 seen2 where
          g2: "getRenderedPins B (st\<lparr>seenPins := seen1\<rparr>) = Inr (rows2, seen2)"
          and st': "st' = st\<lparr>seenPins := seen2, g_pc := G_Consume SecondDrain rows2\<rparr>"
          by (auto simp: iteratePins_step_def split: sum.splits drain.splits)
        from getRenderedPins_fresh[OF g2] f1 True Y Tau st' show ?thesis
          by (auto simp: grid_inv_def pin_keys_def)
      qed
    next
      case (Yield pin)
      with assms(2) G_Consume Nil show ?thesis
        by (auto simp: iteratePins_step_def split: sum.splits drain.splits if_splits)
    qed simp_all
  qed
next
  case G_Done
  with assms(2) show ?thesis
    by (auto simp: iteratePins_step_def)
qed

lemma grid_run_inv:
  assumes "grid_inv st Y" and "run_generator n (iteratePins_step tail_ok B) st = Some (Yield pin, st')"
  shows "grid_inv st' (Y @ pin_keys [pin])"
  using assms
proof (induction n arbitrary: st)
  case 0
  then show ?case by simp
next
  case (Suc n)
  obtain sig st1 where step: "iteratePins_step tail_ok B st = (sig, st1)"
    by (cases "iteratePins_step tail_ok B st")
  note inv = grid_step_inv[OF Suc.prems(1) step]
  show ?case
  proof (cases sig)
    case Tau
    with Suc.prems(2) step have "run_generator n (iteratePins_step tail_ok B) st1 = Some (Yield pin, st')"
      by simp
    with Suc.IH inv Tau show ?thesis by blast
  next
    case (Yield v)
    with Suc.prems(2) step inv show ?thesis by auto
  next
    case Return
    with Suc.prems(2) step show ?thesis by simp
  next
    case (Throw e)
    with Suc.prems(2) step show ?thesis by simp
  qed
qed

lemma grid_inv_distinct: "grid_inv st Y \<Longrightarrow> distinct Y"
  by (auto simp: grid_inv_def split: grid_pc.splits)

lemma grid_session_distinct:
  "grid_inv st Y \<Longrightarrow> distinct (Y @ pin_keys (grid_session n tail_ok B hs st))"
proof (induction hs arbitrary: st Y)
  case Nil
  then show ?case by (simp add: pin_keys_def grid_inv_distinct)
next
  case (Cons h hs)
  let ?st0 = "st\<lparr>g_world := (g_world st)\<lparr>page := h (page (g_world st))\<rparr>\<rparr>"
  have inv0: "grid_inv ?st0 Y" using Cons.prems by simp
  show ?case
  proof (cases "run_generator n (iteratePins_step tail_ok B) ?st0")
    case None
    then show ?thesis using Cons.prems by (simp add: pin_keys_def grid_inv_distinct)
  next
    case (Some r)
    obtain sig st' where r: "r = (sig, st')" by (cases r)
    show ?thesis
    proof (cases sig)
      case (Yield pin)
      with Some r have run: "run_generator n (iteratePins_step tail_ok B) ?st0 = Some (Yield pin, st')"
        by simp
      from Cons.IH[OF grid_run_inv[OF inv0 run]]
      show ?thesis using run by (simp add: pin_keys_def)
    qed (use Some r Cons.prems in \<open>simp_all add: pin_keys_def grid_inv_distinct\<close>)
  qed
qed

text \<open>
  Claim C5. In every session of the Grid Visitor, whatever the page does between the
  calls of the host and during the waits, and however many calls the host makes, the
  keys of the pins yielded are pairwise different: no rendered record whose key was
  yielded before is yielded again, in the first drain or in the second.
\<close>

theorem grid_never_yields_a_key_twice:
  "distinct (pin_keys (grid_session n tail_ok B hs (iteratePins p)))"
  using grid_session_distinct[of "iteratePins p" "[]" n tail_ok B hs]
  by (simp add: grid_inv_def iteratePins_def)

theorem grid_never_yields_a_key_twice_witness:
  "pin_keys (grid_session 5 all_tails_parse (grid_example (Some 2) (\<lambda>e. True)) [id, id, id, id, id] (iteratePins 0))
     = [Some ''a'', Some ''b'', Some ''c'']
   \<and> distinct (pin_keys (grid_session 5 all_tails_parse (grid_example (Some 2) (\<lambda>e. True))
        [id, id, id, id, id] (iteratePins 0)))"
proof -
  have run: "pin_keys (grid_session 5 all_tails_parse (grid_example (Some 2) (\<lambda>e. True)) [id, id, id, id, id] (iteratePins 0))
     = [Some ''a'', Some ''b'', Some ''c'']"
    by code_simp
  show ?thesis
    using run grid_never_yields_a_key_twice [of 5 all_tails_parse "grid_example (Some 2) (\<lambda>e. True)"
        "[id, id, id, id, id]" 0]
    by simp
qed

lemma reactInstanceFromDOMElem_missing:
  "find (\<lambda>k. startsWith k onDomNode) (objectKeys B e p) = None \<Longrightarrow>
   reactInstanceFromDOMElem B (Some e) p = Inl (Error ''Could not find react internal key'')"
  by (simp add: reactInstanceFromDOMElem_def)

lemma loop_missing_handle:
  assumes "nd \<in> set elems" and "find (\<lambda>k. startsWith k onDomNode) (objectKeys B nd p) = None"
  shows "isl (reactInstancesFromElements_loop B p elems selectingFn st acc)"
  using assms(1)
proof (induction elems arbitrary: st acc)
  case Nil
  then show ?case by simp
next
  case (Cons x elems)
  show ?case
  proof (cases "x = nd")
    case True
    then show ?thesis
      using reactInstanceFromDOMElem_missing[OF assms(2)] by simp
  next
    case False
    with Cons.prems have "nd \<in> set elems" by simp
    from Cons.IH[OF this] show ?thesis
      by (auto split: sum.splits option.splits prod.splits bool.splits)
  qed
qed

lemma getGridContainer_wrong:
  assumes "documentQuerySelector B gridImage p = Some firstChild"
    and "parentElement B firstChild p \<noteq> documentQuerySelector B gridContainer p"
  shows "getGridContainer B p = Inl (Error ''wrong container'')"
  using assms by (simp add: getGridContainer_def)

lemma next_throws:
  "iteratePins_step tail_ok B st = (Throw e, st') \<Longrightarrow>
   grid_WRIteratorHandler (Suc n) tail_ok B st = Some (Inl e, st'\<lparr>g_pc := G_Done\<rparr>)"
  by (simp add: grid_WRIteratorHandler_def WRIterator_next_def)

lemma loop_missing_handle_error:
  assumes "nd \<in> set elems" and "find (\<lambda>k. startsWith k onDomNode) (objectKeys B nd p) = None"
    and "handles_not_null B p elems"
  shows "reactInstancesFromElements_loop B p elems selectingFn st acc
           = Inl (Error ''Could not find react internal key'')"
  using assms(1,3)
proof (induction elems arbitrary: st acc)
  case Nil
  then show ?case by simp
next
  case (Cons x elems)
  show ?case
  proof (cases "find (\<lambda>k. startsWith k onDomNode) (objectKeys B x p)")
    case None
    then show ?thesis
      by (simp add: reactInstanceFromDOMElem_def)
  next
    case (Some k)
    with assms(2) have "x \<noteq> nd" by auto
    with Cons.prems have mem: "nd \<in> set elems" by simp
    from Cons.prems have nn: "handles_not_null B p elems"
      and x: "reactInstanceFromDOMElem B (Some x) p \<noteq> Inr None"
      by (simp_all add: handles_not_null_def)
    from x Some obtain ri where ri: "reactInstanceFromDOMElem B (Some x) p = Inr (Some ri)"
      by (cases "getProperty B x k p") (simp_all add: reactInstanceFromDOMElem_def)
    note IH = Cons.IH[OF mem nn]
    show ?thesis
      by (cases "selectingFn st (fiber_key ri)") (simp add: ri IH split: bool.splits)
  qed
qed

lemma getRenderedPins_missing:
  assumes "pinContainerR st = Some r" and "stateNode r = Some sn"
    and "e \<in> set (childNodes B sn (page (g_world st)))"
    and "find (\<lambda>k. startsWith k onDomNode) (objectKeys B e (page (g_world st))) = None"
  shows "\<exists>err. getRenderedPins B st = Inl err"
    and "handles_not_null B (page (g_world st)) (childNodes B sn (page (g_world st))) \<Longrightarrow>
         getRenderedPins B st = Inl (Error ''Could not find react internal key'')"
proof -
  have "isl (getRenderedPins B st)"
    using loop_missing_handle[OF assms(3,4)] assms(1,2)
    by (simp add: getRenderedPins_def reactInstancesFromElements_def)
  then show "\<exists>err. getRenderedPins B st = Inl err"
    by (cases "getRenderedPins B st") auto
  show "getRenderedPins B st = Inl (Error ''Could not find react internal key'')"
    if "handles_not_null B (page (g_world st)) (childNodes B sn (page (g_world st)))"
    using loop_missing_handle_error[OF assms(3,4) that] assms(1,2)
    by (simp add: getRenderedPins_def reactInstancesFromElements_def)
qed

lemma first_pass_throws:
  assumes "g_pc st = G_Start"
    and "getGridContainer B (page (g_world st)) = Inr cont"
    and "reactInstanceFromDOMElem B cont (page (g_world st)) = Inr r"
    and "getRenderedPins B (st\<lparr>seenPins := [], pinContainerR := r\<rparr>) = Inl err"
  shows "grid_WRIteratorHandler (Suc n) tail_ok B st
           = Some (Inl err, st\<lparr>seenPins := [], pinContainerR := r, g_pc := G_Done\<rparr>)"
proof -
  have "iteratePins_step tail_ok B st = (Throw err, st\<lparr>seenPins := [], pinContainerR := r\<rparr>)"
    using assms by (simp add: iteratePins_step_def)
  from next_throws[OF this] show ?thesis by simp
qed

lemma later_pass_throws:
  assumes "g_pc st = G_Consume d []" and "getRenderedPins B st = Inl err"
  shows "grid_WRIteratorHandler (Suc n) tail_ok B st = Some (Inl err, st\<lparr>g_pc := G_Done\<rparr>)"
proof -
  have "iteratePins_step tail_ok B st = (Throw err, st)"
    using assms by (simp add: iteratePins_step_def)
  from next_throws[OF this] show ?thesis .
qed

lemma container_handle_throws:
  assumes "g_pc st = G_Start"
    and "getGridContainer B (page (g_world st)) = Inr (Some c)"
    and "find (\<lambda>k. startsWith k onDomNode) (objectKeys B c (page (g_world st))) = None"
  shows "grid_WRIteratorHandler (Suc n) tail_ok B st
           = Some (Inl (Error ''Could not find react internal key''), st\<lparr>g_pc := G_Done\<rparr>)"
proof -
  have "iteratePins_step tail_ok B st = (Throw (Error ''Could not find react internal key''), st)"
    using assms by (simp add: iteratePins_step_def reactInstanceFromDOMElem_def)
  from next_throws[OF this] show ?thesis .
qed

lemma completed_stays_done:
  assumes "g_pc st = G_Done"
  shows "grid_WRIteratorHandler (Suc n) tail_ok B st = Some (Inr True, st)"
  using assms
  by (simp add: grid_WRIteratorHandler_def WRIterator_next_def iteratePins_step_def)

text \<open>
  Claim C8. The Grid Visitor raises an error to the host and does not skip. When the
  parent of the first grid item is not the very element the query for the grid
  container finds, \<open>getGridContainer\<close> throws the error \<open>wrong container\<close>, and so does
  the first step of the session. When no own key of a node starts with the name of the
  internal handle, \<open>reactInstanceFromDOMElem\<close> throws \<open>Could not find react internal
  key\<close>; a pass over rendered nodes that include such a node ends in an error, not in
  a list of rows, and the error is this one when no other node of the pass carries a
  handle that is \<open>null\<close>. The step of the session that makes the pass throws to the
  host: the first step, which makes the first pass right after it has found the
  container, and every later step that finds the rows of the last pass consumed. The
  first step also throws when the container itself carries no handle. After an error
  the generator is completed, and a completed generator reports done.
\<close>

theorem grid_invariant_violations_are_fatal:
  "(documentQuerySelector B gridImage p = Some firstChild \<longrightarrow>
    parentElement B firstChild p \<noteq> documentQuerySelector B gridContainer p \<longrightarrow>
      getGridContainer B p = Inl (Error ''wrong container'')
      \<and> grid_WRIteratorHandler (Suc n) tail_ok B (iteratePins p)
          = Some (Inl (Error ''wrong container''), (iteratePins p)\<lparr>g_pc := G_Done\<rparr>))
   \<and> (find (\<lambda>k. startsWith k onDomNode) (objectKeys B e p) = None \<longrightarrow>
        reactInstanceFromDOMElem B (Some e) p = Inl (Error ''Could not find react internal key'')
        \<and> (e \<in> set elems \<longrightarrow>
             isl (reactInstancesFromElements B p elems selectingFn s)
             \<and> (handles_not_null B p elems \<longrightarrow>
                  reactInstancesFromElements B p elems selectingFn s
                    = Inl (Error ''Could not find react internal key''))))
   \<and> (g_pc st = G_Consume d [] \<longrightarrow> pinContainerR st = Some r \<longrightarrow> stateNode r = Some sn \<longrightarrow>
        e \<in> set (childNodes B sn (page (g_world st))) \<longrightarrow>
        find (\<lambda>k. startsWith k onDomNode) (objectKeys B e (page (g_world st))) = None \<longrightarrow>
        (\<exists>err. grid_WRIteratorHandler (Suc n) tail_ok B st = Some (Inl err, st\<lparr>g_pc := G_Done\<rparr>))
        \<and> (handles_not_null B (page (g_world st)) (childNodes B sn (page (g_world st))) \<longrightarrow>
             grid_WRIteratorHandler (Suc n) tail_ok B st
               = Some (Inl (Error ''Could not find react internal key''), st\<lparr>g_pc := G_Done\<rparr>)))
   \<and> (g_pc st = G_Start \<longrightarrow> getGridContainer B (page (g_world st)) = Inr cont \<longrightarrow>
        reactInstanceFromDOMElem B cont (page (g_world st)) = Inr (Some r) \<longrightarrow>
        stateNode r = Some sn \<longrightarrow>
        e \<in> set (childNodes B sn (page (g_world st))) \<longrightarrow>
        find (\<lambda>k. startsWith k onDomNode) (objectKeys B e (page (g_world st))) = None \<longrightarrow>
        (\<exists>err. grid_WRIteratorHandler (Suc n) tail_ok B st
                 = Some (Inl err, st\<lparr>seenPins := [], pinContainerR := Some r, g_pc := G_Done\<rparr>))
        \<and> (handles_not_null B (page (g_world st)) (childNodes B sn (page (g_world st))) \<longrightarrow>
             grid_WRIteratorHandler (Suc n) tail_ok B st
               = Some (Inl (Error ''Could not find react internal key''),
                       st\<lparr>seenPins := [], pinContainerR := Some r, g_pc := G_Done\<rparr>)))
   \<and> (g_pc st = G_Start \<longrightarrow> getGridContainer B (page (g_world st)) = Inr (Some c) \<longrightarrow>
        find (\<lambda>k. startsWith k onDomNode) (objectKeys B c (page (g_world st))) = None \<longrightarrow>
        grid_WRIteratorHandler (Suc n) tail_ok B st
          = Some (Inl (Error ''Could not find react internal key''), st\<lparr>g_pc := G_Done\<rparr>))
   \<and> (g_pc st = G_Done \<longrightarrow> grid_WRIteratorHandler (Suc n) tail_ok B st = Some (Inr True, st))"
proof -
  have a: "getGridContainer B p = Inl (Error ''wrong container'')
      \<and> grid_WRIteratorHandler (Suc n) tail_ok B (iteratePins p)
          = Some (Inl (Error ''wrong container''), (iteratePins p)\<lparr>g_pc := G_Done\<rparr>)"
    if "documentQuerySelector B gridImage p = Some firstChild"
      and "parentElement B firstChild p \<noteq> documentQuerySelector B gridContainer p"
  proof -
    have w: "getGridContainer B p = Inl (Error ''wrong container'')"
      using that by (rule getGridContainer_wrong)
    have "iteratePins_step tail_ok B (iteratePins p) = (Throw (Error ''wrong container''), iteratePins p)"
      using w by (simp add: iteratePins_step_def iteratePins_def)
    from next_throws[OF this] w show ?thesis by simp
  qed
  have b: "isl (reactInstancesFromElements B p elems selectingFn s)
             \<and> (handles_not_null B p elems \<longrightarrow>
                  reactInstancesFromElements B p elems selectingFn s
                    = Inl (Error ''Could not find react internal key''))"
    if miss: "find (\<lambda>k. startsWith k onDomNode) (objectKeys B e p) = None" and mem: "e \<in> set elems"
    using loop_missing_handle[OF mem miss, of selectingFn s "[]"]
      loop_missing_handle_error[OF mem miss, of selectingFn s "[]"]
    by (simp add: reactInstancesFromElements_def)
  have c: "(\<exists>err. grid_WRIteratorHandler (Suc n) tail_ok B st = Some (Inl err, st\<lparr>g_pc := G_Done\<rparr>))
        \<and> (handles_not_null B (page (g_world st)) (childNodes B sn (page (g_world st))) \<longrightarrow>
             grid_WRIteratorHandler (Suc n) tail_ok B st
               = Some (Inl (Error ''Could not find react internal key''), st\<lparr>g_pc := G_Done\<rparr>))"
    if pc: "g_pc st = G_Consume d []" and r: "pinContainerR st = Some r" and sn: "stateNode r = Some sn"
      and mem: "e \<in> set (childNodes B sn (page (g_world st)))"
      and miss: "find (\<lambda>k. startsWith k onDomNode) (objectKeys B e (page (g_world st))) = None"
  proof (intro conjI impI)
    from getRenderedPins_missing(1)[OF r sn mem miss]
    obtain err where "getRenderedPins B st = Inl err" by blast
    from later_pass_throws[OF pc this]
    show "\<exists>err. grid_WRIteratorHandler (Suc n) tail_ok B st = Some (Inl err, st\<lparr>g_pc := G_Done\<rparr>)"
      by blast
  next
    assume "handles_not_null B (page (g_world st)) (childNodes B sn (page (g_world st)))"
    from later_pass_throws[OF pc getRenderedPins_missing(2)[OF r sn mem miss this]]
    show "grid_WRIteratorHandler (Suc n) tail_ok B st
               = Some (Inl (Error ''Could not find react internal key''), st\<lparr>g_pc := G_Done\<rparr>)" .
  qed
  have d: "(\<exists>err. grid_WRIteratorHandler (Suc n) tail_ok B st
                 = Some (Inl err, st\<lparr>seenPins := [], pinContainerR := Some r, g_pc := G_Done\<rparr>))
        \<and> (handles_not_null B (page (g_world st)) (childNodes B sn (page (g_world st))) \<longrightarrow>
             grid_WRIteratorHandler (Suc n) tail_ok B st
               = Some (Inl (Error ''Could not find react internal key''),
                       st\<lparr>seenPins := [], pinContainerR := Some r, g_pc := G_Done\<rparr>))"
    if pc: "g_pc st = G_Start" and gc: "getGridContainer B (page (g_world st)) = Inr cont"
      and ri: "reactInstanceFromDOMElem B cont (page (g_world st)) = Inr (Some r)"
      and sn: "stateNode r = Some sn"
      and mem: "e \<in> set (childNodes B sn (page (g_world st)))"
      and miss: "find (\<lambda>k. startsWith k onDomNode) (objectKeys B e (page (g_world st))) = None"
  proof -
    let ?st1 = "st\<lparr>seenPins := [], pinContainerR := Some r\<rparr>"
    have r1: "pinContainerR ?st1 = Some r" by simp
    have mem1: "e \<in> set (childNodes B sn (page (g_world ?st1)))" using mem by simp
    have miss1: "find (\<lambda>k. startsWith k onDomNode) (objectKeys B e (page (g_world ?st1))) = None"
      using miss by simp
    show ?thesis
    proof (intro conjI impI)
      from getRenderedPins_missing(1)[OF r1 sn mem1 miss1]
      obtain err where "getRenderedPins B ?st1 = Inl err" by blast
      from first_pass_throws[OF pc gc ri this]
      show "\<exists>err. grid_WRIteratorHandler (Suc n) tail_ok B st
                 = Some (Inl err, st\<lparr>seenPins := [], pinContainerR := Some r, g_pc := G_Done\<rparr>)"
        by blast
    next
      assume "handles_not_null B (page (g_world st)) (childNodes B sn (page (g_world st)))"
      then have "handles_not_null B (page (g_world ?st1)) (childNodes B sn (page (g_world ?st1)))"
        by simp
      from first_pass_throws[OF pc gc ri getRenderedPins_missing(2)[OF r1 sn mem1 miss1 this]]
      show "grid_WRIteratorHandler (Suc n) tail_ok B st
               = Some (Inl (Error ''Could not find react internal key''),
                       st\<lparr>seenPins := [], pinContainerR := Some r, g_pc := G_Done\<rparr>)" .
    qed
  qed
  show ?thesis
  proof (intro conjI impI)
    assume h: "documentQuerySelector B gridImage p = Some firstChild"
      "parentElement B firstChild p \<noteq> documentQuerySelector B gridContainer p"
    from a[OF h] show "getGridContainer B p = Inl (Error ''wrong container'')" by simp
    from a[OF h] show "grid_WRIteratorHandler (Suc n) tail_ok B (iteratePins p)
          = Some (Inl (Error ''wrong container''), (iteratePins p)\<lparr>g_pc := G_Done\<rparr>)" by simp
  next
    assume "find (\<lambda>k. startsWith k onDomNode) (objectKeys B e p) = None"
    then show "reactInstanceFromDOMElem B (Some e) p = Inl (Error ''Could not find react internal key'')"
      by (rule reactInstanceFromDOMElem_missing)
  next
    assume "find (\<lambda>k. startsWith k onDomNode) (objectKeys B e p) = None" "e \<in> set elems"
    from b[OF this] show "isl (reactInstancesFromElements B p elems selectingFn s)" by simp
  next
    assume "find (\<lambda>k. startsWith k onDomNode) (objectKeys B e p) = None" "e \<in> set elems"
      and nn: "handles_not_null B p elems"
    from b[OF this(1,2)] nn
    show "reactInstancesFromElements B p elems selectingFn s
            = Inl (Error ''Could not find react internal key'')" by simp
  next
    assume h: "g_pc st = G_Consume d []" "pinContainerR st = Some r" "stateNode r = Some sn"
      "e \<in> set (childNodes B sn (page (g_world st)))"
      "find (\<lambda>k. startsWith k onDomNode) (objectKeys B e (page (g_world st))) = None"
    from c[OF h]
    show "\<exists>err. grid_WRIteratorHandler (Suc n) tail_ok B st = Some (Inl err, st\<lparr>g_pc := G_Done\<rparr>)"
      by simp
  next
    assume h: "g_pc st = G_Consume d []" "pinContainerR st = Some r" "stateNode r = Some sn"
      "e \<in> set (childNodes B sn (page (g_world st)))"
      "find (\<lambda>k. startsWith k onDomNode) (objectKeys B e (page (g_world st))) = None"
      and nn: "handles_not_null B (page (g_world st)) (childNodes B sn (page (g_world st)))"
    from c[OF h] nn
    show "grid_WRIteratorHandler (Suc n) tail_ok B st
               = Some (Inl (Error ''Could not find react internal key''), st\<lparr>g_pc := G_Done\<rparr>)"
      by simp
  next
    assume h: "g_pc st = G_Start" "getGridContainer B (page (g_world st)) = Inr cont"
      "reactInstanceFromDOMElem B cont (page (g_world st)) = Inr (Some r)"
      "stateNode r = Some sn"
      "e \<in> set (childNodes B sn (page (g_world st)))"
      "find (\<lambda>k. startsWith k onDomNode) (objectKeys B e (page (g_world st))) = None"
    from d[OF h]
    show "\<exists>err. grid_WRIteratorHandler (Suc n) tail_ok B st
                 = Some (Inl err, st\<lparr>seenPins := [], pinContainerR := Some r, g_pc := G_Done\<rparr>)"
      by simp
  next
    assume h: "g_pc st = G_Start" "getGridContainer B (page (g_world st)) = Inr cont"
      "reactInstanceFromDOMElem B cont (page (g_world st)) = Inr (Some r)"
      "stateNode r = Some sn"
      "e \<in> set (childNodes B sn (page (g_world st)))"
      "find (\<lambda>k. startsWith k onDomNode) (objectKeys B e (page (g_world st))) = None"
      and nn: "handles_not_null B (page (g_world st)) (childNodes B sn (page (g_world st)))"
    from d[OF h] nn
    show "grid_WRIteratorHandler (Suc n) tail_ok B st
               = Some (Inl (Error ''Could not find react internal key''),
                       st\<lparr>seenPins := [], pinContainerR := Some r, g_pc := G_Done\<rparr>)"
      by simp
  next
    assume "g_pc st = G_Start" "getGridContainer B (page (g_world st)) = Inr (Some c)"
      "find (\<lambda>k. startsWith k onDomNode) (objectKeys B c (page (g_world st))) = None"
    then show "grid_WRIteratorHandler (Suc n) tail_ok B st
          = Some (Inl (Error ''Could not find react internal key''), st\<lparr>g_pc := G_Done\<rparr>)"
      by (rule container_handle_throws)
  next
    assume "g_pc st = G_Done"
    then show "grid_WRIteratorHandler (Suc n) tail_ok B st = Some (Inr True, st)"
      by (rule completed_stays_done)
  qed
qed

theorem grid_invariant_violations_are_fatal_witness:
  "getGridContainer (grid_example (Some 3) (\<lambda>e. True)) 0 = Inl (Error ''wrong container'')
   \<and> grid_WRIteratorHandler 1 all_tails_parse (grid_example (Some 3) (\<lambda>e. True)) (iteratePins 0)
       = Some (Inl (Error ''wrong container''), (iteratePins 0)\<lparr>g_pc := G_Done\<rparr>)
   \<and> reactInstanceFromDOMElem (grid_example (Some 2) (\<lambda>e. e \<noteq> 11)) (Some 11) 0
       = Inl (Error ''Could not find react internal key'')
   \<and> reactInstancesFromElements (grid_example (Some 2) (\<lambda>e. e \<noteq> 11)) 0 [10, 11] keySelector []
       = Inl (Error ''Could not find react internal key'')
   \<and> getGridContainer (grid_example (Some 2) (\<lambda>e. True)) 0 = Inr (Some 2)
   \<and> grid_WRIteratorHandler 1 all_tails_parse (grid_example (Some 2) (\<lambda>e. e \<noteq> 11)) (iteratePins 0)
       = Some (Inl (Error ''Could not find react internal key''),
               (iteratePins 0)\<lparr>seenPins := [],
                  pinContainerR := Some \<lparr>fiber_key = Some ''c'', stateNode = Some 2\<rparr>, g_pc := G_Done\<rparr>)
   \<and> grid_WRIteratorHandler 1 all_tails_parse (grid_example (Some 2) (\<lambda>e. e \<noteq> 12))
         \<lparr>g_pc = G_Consume FirstDrain [], seenPins = [Some ''a'', Some ''b''],
          pinContainerR = Some \<lparr>fiber_key = Some ''c'', stateNode = Some 2\<rparr>,
          OLC = OutLinkCollector_new, g_world = \<lparr>page = 2000, trace = []\<rparr>\<rparr>
       = Some (Inl (Error ''Could not find react internal key''),
          \<lparr>g_pc = G_Done, seenPins = [Some ''a'', Some ''b''],
           pinContainerR = Some \<lparr>fiber_key = Some ''c'', stateNode = Some 2\<rparr>,
           OLC = OutLinkCollector_new, g_world = \<lparr>page = 2000, trace = []\<rparr>\<rparr>)
   \<and> grid_WRIteratorHandler 1 all_tails_parse (grid_example (Some 2) (\<lambda>e. e \<noteq> 2)) (iteratePins 0)
       = Some (Inl (Error ''Could not find react internal key''), (iteratePins 0)\<lparr>g_pc := G_Done\<rparr>)
   \<and> grid_WRIteratorHandler 1 all_tails_parse (grid_example (Some 2) (\<lambda>e. e \<noteq> 2))
         ((iteratePins 0)\<lparr>g_pc := G_Done\<rparr>)
       = Some (Inr True, (iteratePins 0)\<lparr>g_pc := G_Done\<rparr>)"
proof -
  let ?B = "grid_example (Some 3) (\<lambda>e. True)"
  let ?C = "grid_example (Some 2) (\<lambda>e. e \<noteq> 11)"
  let ?D = "grid_example (Some 2) (\<lambda>e. e \<noteq> 12)"
  let ?E = "grid_example (Some 2) (\<lambda>e. e \<noteq> 2)"
  let ?r = "\<lparr>fiber_key = Some ''c'', stateNode = Some (2::nat)\<rparr>"
  let ?st = "\<lparr>g_pc = G_Consume FirstDrain [], seenPins = [Some ''a'', Some ''b''],
          pinContainerR = Some ?r,
          OLC = OutLinkCollector_new, g_world = \<lparr>page = 2000::nat, trace = []\<rparr>\<rparr>"
  have q: "documentQuerySelector ?B gridImage 0 = Some 10"
    by (simp add: grid_example_def)
  have ne: "parentElement ?B 10 0 \<noteq> documentQuerySelector ?B gridContainer 0"
    by (simp add: grid_example_def gridImage_def gridContainer_def)
  have miss: "find (\<lambda>k. startsWith k onDomNode) (objectKeys ?C 11 0) = None"
    by (simp add: grid_example_def startsWith_def onDomNode_def)
  have mem: "(11::nat) \<in> set [10, 11]" by simp
  have nn: "handles_not_null ?C 0 [10, 11]"
    by (simp add: handles_not_null_def reactInstanceFromDOMElem_def grid_example_def
        startsWith_def onDomNode_def)
  have ok: "getGridContainer (grid_example (Some 2) (\<lambda>e. True)) 0 = Inr (Some 2)"
    by (simp add: getGridContainer_def grid_example_def gridImage_def gridContainer_def)
  note wrong = grid_invariant_violations_are_fatal [where B = ?B and p = 0 and firstChild = 10
      and n = 0 and tail_ok = all_tails_parse, THEN conjunct1, rule_format, OF q ne]
  note missing = grid_invariant_violations_are_fatal [where B = ?C and p = 0 and e = 11
      and elems = "[10, 11]" and selectingFn = keySelector and s = "[]",
      THEN conjunct2, THEN conjunct1, rule_format, OF miss]
  have pc0: "g_pc (iteratePins (0::nat) :: (nat, nat) grid_state) = G_Start"
    by (simp add: iteratePins_def)
  have pg0: "page (g_world (iteratePins (0::nat) :: (nat, nat) grid_state)) = 0"
    by (simp add: iteratePins_def)
  have gcC: "getGridContainer ?C (page (g_world (iteratePins (0::nat) :: (nat, nat) grid_state))) = Inr (Some 2)"
    unfolding pg0 by (simp add: getGridContainer_def grid_example_def gridImage_def gridContainer_def)
  have riC: "reactInstanceFromDOMElem ?C (Some 2) (page (g_world (iteratePins (0::nat) :: (nat, nat) grid_state)))
               = Inr (Some ?r)"
    unfolding pg0
    by (simp add: reactInstanceFromDOMElem_def grid_example_def startsWith_def onDomNode_def
        example_key_def)
  have snr: "stateNode ?r = Some 2" by simp
  have memC: "11 \<in> set (childNodes ?C 2 (page (g_world (iteratePins (0::nat) :: (nat, nat) grid_state))))"
    unfolding pg0 by (simp add: grid_example_def)
  have missC: "find (\<lambda>k. startsWith k onDomNode)
                 (objectKeys ?C 11 (page (g_world (iteratePins (0::nat) :: (nat, nat) grid_state)))) = None"
    unfolding pg0 by (rule miss)
  have nnC: "handles_not_null ?C (page (g_world (iteratePins (0::nat) :: (nat, nat) grid_state)))
               (childNodes ?C 2 (page (g_world (iteratePins (0::nat) :: (nat, nat) grid_state))))"
    unfolding pg0 using nn by (simp add: grid_example_def)
  note first = grid_invariant_violations_are_fatal [where B = ?C and st = "iteratePins 0"
      and cont = "Some 2" and r = ?r and sn = 2 and e = 11 and n = 0 and tail_ok = all_tails_parse,
      THEN conjunct2, THEN conjunct2, THEN conjunct2, THEN conjunct1, rule_format,
      OF pc0 gcC riC snr memC missC, THEN conjunct2, rule_format, OF nnC]
  have pcD: "g_pc ?st = G_Consume FirstDrain []" by simp
  have rD: "pinContainerR ?st = Some ?r" by simp
  have memD: "12 \<in> set (childNodes ?D 2 (page (g_world ?st)))"
    by (simp add: grid_example_def)
  have missD: "find (\<lambda>k. startsWith k onDomNode) (objectKeys ?D 12 (page (g_world ?st))) = None"
    by (simp add: grid_example_def startsWith_def onDomNode_def)
  have nnD: "handles_not_null ?D (page (g_world ?st)) (childNodes ?D 2 (page (g_world ?st)))"
    by (simp add: handles_not_null_def reactInstanceFromDOMElem_def grid_example_def
        startsWith_def onDomNode_def)
  note later = grid_invariant_violations_are_fatal [where B = ?D and st = ?st and d = FirstDrain
      and r = ?r and sn = 2 and e = 12 and n = 0 and tail_ok = all_tails_parse,
      THEN conjunct2, THEN conjunct2, THEN conjunct1, rule_format,
      OF pcD rD snr memD missD, THEN conjunct2, rule_format, OF nnD]
  have gcE: "getGridContainer ?E (page (g_world (iteratePins (0::nat) :: (nat, nat) grid_state))) = Inr (Some 2)"
    unfolding pg0 by (simp add: getGridContainer_def grid_example_def gridImage_def gridContainer_def)
  have missE: "find (\<lambda>k. startsWith k onDomNode)
                 (objectKeys ?E 2 (page (g_world (iteratePins (0::nat) :: (nat, nat) grid_state)))) = None"
    by (simp add: grid_example_def startsWith_def onDomNode_def)
  note cont = grid_invariant_violations_are_fatal [where B = ?E and st = "iteratePins 0"
      and c = 2 and n = 0 and tail_ok = all_tails_parse,
      THEN conjunct2, THEN conjunct2, THEN conjunct2, THEN conjunct2, THEN conjunct1, rule_format,
      OF pc0 gcE missE]
  have pcF: "g_pc ((iteratePins (0::nat) :: (nat, nat) grid_state)\<lparr>g_pc := G_Done\<rparr>) = G_Done"
    by simp
  note fin = grid_invariant_violations_are_fatal [where B = ?E
      and st = "(iteratePins 0)\<lparr>g_pc := G_Done\<rparr>" and n = 0 and tail_ok = all_tails_parse,
      THEN conjunct2, THEN conjunct2, THEN conjunct2, THEN conjunct2, THEN conjunct2,
      rule_format, OF pcF]
  have w1: "getGridContainer ?B 0 = Inl (Error ''wrong container'')"
    and w2: "grid_WRIteratorHandler 1 all_tails_parse ?B (iteratePins 0)
       = Some (Inl (Error ''wrong container''), (iteratePins 0)\<lparr>g_pc := G_Done\<rparr>)"
    using wrong by simp_all
  have m1: "reactInstanceFromDOMElem ?C (Some 11) 0 = Inl (Error ''Could not find react internal key'')"
    and m2: "reactInstancesFromElements ?C 0 [10, 11] keySelector []
       = Inl (Error ''Could not find react internal key'')"
    using missing mem nn by simp_all
  have f1: "grid_WRIteratorHandler 1 all_tails_parse ?C (iteratePins 0)
       = Some (Inl (Error ''Could not find react internal key''),
               (iteratePins 0)\<lparr>seenPins := [], pinContainerR := Some ?r, g_pc := G_Done\<rparr>)"
    using first by simp
  have l1: "grid_WRIteratorHandler 1 all_tails_parse ?D ?st
       = Some (Inl (Error ''Could not find react internal key''),
          \<lparr>g_pc = G_Done, seenPins = [Some ''a'', Some ''b''],
           pinContainerR = Some ?r,
           OLC = OutLinkCollector_new, g_world = \<lparr>page = 2000, trace = []\<rparr>\<rparr>)"
    using later by simp
  have c1: "grid_WRIteratorHandler 1 all_tails_parse ?E (iteratePins 0)
       = Some (Inl (Error ''Could not find react internal key''), (iteratePins 0)\<lparr>g_pc := G_Done\<rparr>)"
    using cont by simp
  have d1: "grid_WRIteratorHandler 1 all_tails_parse ?E ((iteratePins 0)\<lparr>g_pc := G_Done\<rparr>)
       = Some (Inr True, (iteratePins 0)\<lparr>g_pc := G_Done\<rparr>)"
    using fin by simp
  from w1 w2 m1 m2 ok f1 l1 c1 d1 show ?thesis
    by (intro conjI)
qed

section \<open>Properties of the Timeline Visitor\<close>

lemmas timeline_example_sel =
  tweetFooterSelector_def replyActionSelector_def replyBtnSelector_def noReplySpanSelector_def
  threadSelector_def closeFullTweetSelector_def

text \<open>
  Claim C7. The constructor of a Timeline unit marks its element as visited first: the
  world it leaves is the world after \<open>markElemAsVisited\<close>, with the class \<open>wrvistited\<close>
  added to the element, whether the construction succeeds or throws. The construction
  succeeds exactly when, on the page so marked, the tweet has a parent and a footer,
  the footer a reply action and the reply action a reply button; otherwise it throws a
  \<open>TypeError\<close>. In the unit constructed the reply button is the button found in the
  reply action found in the footer found in the tweet; \<open>hasReplys\<close> is true exactly when
  this button contains no span that says the count is zero, \<open>apartOfThread\<close> exactly
  when the tweet contains a show-thread link, and \<open>hasRepliedOrInThread\<close> is their
  disjunction.
\<close>

theorem tweet_constructor:
  "snd (Tweet_new B aTweet base w) = markElemAsVisited B (Some aTweet) wrvistited w
   \<and> trace (snd (Tweet_new B aTweet base w)) = trace w @ [AddedClass aTweet ''wrvistited'']
   \<and> page (snd (Tweet_new B aTweet base w)) = classListAdd B ''wrvistited'' aTweet (page w)
   \<and> (fst (Tweet_new B aTweet base w) = Inr t \<longrightarrow>
        tweet t = aTweet
        \<and> querySelector B tweetFooterSelector aTweet (page (snd (Tweet_new B aTweet base w))) = Some (footer t)
        \<and> querySelector B replyActionSelector (footer t) (page (snd (Tweet_new B aTweet base w))) = Some (tRplyAct t)
        \<and> querySelector B replyBtnSelector (tRplyAct t) (page (snd (Tweet_new B aTweet base w))) = Some (rplyButton t)
        \<and> hasReplys t =
            (querySelector B noReplySpanSelector (rplyButton t) (page (snd (Tweet_new B aTweet base w))) = None)
        \<and> apartOfThread t =
            (querySelector B threadSelector aTweet (page (snd (Tweet_new B aTweet base w))) \<noteq> None)
        \<and> hasRepliedOrInThread t = (hasReplys t \<or> apartOfThread t))
   \<and> (parentElement B aTweet (classListAdd B ''wrvistited'' aTweet (page w)) = Some cont \<longrightarrow>
      querySelector B tweetFooterSelector aTweet (classListAdd B ''wrvistited'' aTweet (page w)) = Some foot \<longrightarrow>
      querySelector B replyActionSelector foot (classListAdd B ''wrvistited'' aTweet (page w)) = Some ract \<longrightarrow>
      querySelector B replyBtnSelector ract (classListAdd B ''wrvistited'' aTweet (page w)) = Some btn \<longrightarrow>
        (\<exists>u. fst (Tweet_new B aTweet base w) = Inr u
           \<and> u = \<lparr>tweet = aTweet, container = cont, footer = foot, tRplyAct = ract,
                  rplyButton = btn, fullTweetOverlay = None,
                  priv_hasReplys =
                    (querySelector B noReplySpanSelector btn (classListAdd B ''wrvistited'' aTweet (page w)) = None),
                  priv_apartThread =
                    (querySelector B threadSelector aTweet (classListAdd B ''wrvistited'' aTweet (page w)) \<noteq> None),
                  priv_baseURI = base\<rparr>
           \<and> hasReplys u =
               (querySelector B noReplySpanSelector btn (classListAdd B ''wrvistited'' aTweet (page w)) = None)
           \<and> apartOfThread u =
               (querySelector B threadSelector aTweet (classListAdd B ''wrvistited'' aTweet (page w)) \<noteq> None)
           \<and> hasRepliedOrInThread u =
               (querySelector B noReplySpanSelector btn (classListAdd B ''wrvistited'' aTweet (page w)) = None
                \<or> querySelector B threadSelector aTweet (classListAdd B ''wrvistited'' aTweet (page w)) \<noteq> None)))
   \<and> ((parentElement B aTweet (classListAdd B ''wrvistited'' aTweet (page w)) = None
        \<or> querySelector B tweetFooterSelector aTweet (classListAdd B ''wrvistited'' aTweet (page w)) = None
        \<or> (\<exists>foot'. querySelector B tweetFooterSelector aTweet (classListAdd B ''wrvistited'' aTweet (page w)) = Some foot'
              \<and> (querySelector B replyActionSelector foot' (classListAdd B ''wrvistited'' aTweet (page w)) = None
                  \<or> (\<exists>ract'. querySelector B replyActionSelector foot' (classListAdd B ''wrvistited'' aTweet (page w)) = Some ract'
                        \<and> querySelector B replyBtnSelector ract' (classListAdd B ''wrvistited'' aTweet (page w)) = None))))
       \<longrightarrow> fst (Tweet_new B aTweet base w) = Inl TypeError)
   \<and> ((\<forall>u. fst (Tweet_new B aTweet base w) \<noteq> Inr u) \<longrightarrow> fst (Tweet_new B aTweet base w) = Inl TypeError)"
proof -
  let ?p = "classListAdd B ''wrvistited'' aTweet (page w)"
  have w: "snd (Tweet_new B aTweet base w) = markElemAsVisited B (Some aTweet) wrvistited w"
    by (simp add: Tweet_new_def Let_def split: option.splits)
  have m: "markElemAsVisited B (Some aTweet) wrvistited w
            = \<lparr>page = ?p, trace = trace w @ [AddedClass aTweet ''wrvistited'']\<rparr>"
    by (simp add: markElemAsVisited_def act_def wrvistited_def)
  have pm: "page (markElemAsVisited B (Some aTweet) wrvistited w) = ?p"
    by (simp add: m)
  have c: "fst (Tweet_new B aTweet base w) = Inr t \<longrightarrow>
        tweet t = aTweet
        \<and> querySelector B tweetFooterSelector aTweet ?p = Some (footer t)
        \<and> querySelector B replyActionSelector (footer t) ?p = Some (tRplyAct t)
        \<and> querySelector B replyBtnSelector (tRplyAct t) ?p = Some (rplyButton t)
        \<and> priv_hasReplys t = (querySelector B noReplySpanSelector (rplyButton t) ?p = None)
        \<and> priv_apartThread t = (querySelector B threadSelector aTweet ?p \<noteq> None)"
    by (auto simp: Tweet_new_def Let_def pm split: option.splits)
  have c4: "fst (Tweet_new B aTweet base w) = Inr t \<longrightarrow>
        tweet t = aTweet
        \<and> querySelector B tweetFooterSelector aTweet (page (snd (Tweet_new B aTweet base w))) = Some (footer t)
        \<and> querySelector B replyActionSelector (footer t) (page (snd (Tweet_new B aTweet base w))) = Some (tRplyAct t)
        \<and> querySelector B replyBtnSelector (tRplyAct t) (page (snd (Tweet_new B aTweet base w))) = Some (rplyButton t)
        \<and> hasReplys t =
            (querySelector B noReplySpanSelector (rplyButton t) (page (snd (Tweet_new B aTweet base w))) = None)
        \<and> apartOfThread t =
            (querySelector B threadSelector aTweet (page (snd (Tweet_new B aTweet base w))) \<noteq> None)
        \<and> hasRepliedOrInThread t = (hasReplys t \<or> apartOfThread t)"
    unfolding w pm using c by (simp add: hasReplys_def apartOfThread_def hasRepliedOrInThread_def)
  have c5: "parentElement B aTweet ?p = Some cont \<longrightarrow>
      querySelector B tweetFooterSelector aTweet ?p = Some foot \<longrightarrow>
      querySelector B replyActionSelector foot ?p = Some ract \<longrightarrow>
      querySelector B replyBtnSelector ract ?p = Some btn \<longrightarrow>
        (\<exists>u. fst (Tweet_new B aTweet base w) = Inr u
           \<and> u = \<lparr>tweet = aTweet, container = cont, footer = foot, tRplyAct = ract,
                  rplyButton = btn, fullTweetOverlay = None,
                  priv_hasReplys = (querySelector B noReplySpanSelector btn ?p = None),
                  priv_apartThread = (querySelector B threadSelector aTweet ?p \<noteq> None),
                  priv_baseURI = base\<rparr>
           \<and> hasReplys u = (querySelector B noReplySpanSelector btn ?p = None)
           \<and> apartOfThread u = (querySelector B threadSelector aTweet ?p \<noteq> None)
           \<and> hasRepliedOrInThread u =
               (querySelector B noReplySpanSelector btn ?p = None
                \<or> querySelector B threadSelector aTweet ?p \<noteq> None))"
    by (simp add: Tweet_new_def Let_def pm hasReplys_def apartOfThread_def hasRepliedOrInThread_def)
  have c6: "(parentElement B aTweet ?p = None
        \<or> querySelector B tweetFooterSelector aTweet ?p = None
        \<or> (\<exists>foot'. querySelector B tweetFooterSelector aTweet ?p = Some foot'
              \<and> (querySelector B replyActionSelector foot' ?p = None
                  \<or> (\<exists>ract'. querySelector B replyActionSelector foot' ?p = Some ract'
                        \<and> querySelector B replyBtnSelector ract' ?p = None))))
       \<longrightarrow> fst (Tweet_new B aTweet base w) = Inl TypeError"
    by (auto simp: Tweet_new_def Let_def pm split: option.splits)
  have c7: "(\<forall>u. fst (Tweet_new B aTweet base w) \<noteq> Inr u) \<longrightarrow> fst (Tweet_new B aTweet base w) = Inl TypeError"
    by (auto simp: Tweet_new_def Let_def pm split: option.splits)
  have c2: "trace (snd (Tweet_new B aTweet base w)) = trace w @ [AddedClass aTweet ''wrvistited'']"
    unfolding w by (simp add: m)
  have c3: "page (snd (Tweet_new B aTweet base w)) = ?p"
    unfolding w by (simp add: m)
  from w c2 c3 c4 c5 c6 c7 show ?thesis
    by (intro conjI)
qed

theorem tweet_constructor_witness:
  "fst (Tweet_new (timeline_example True True False False 0 800) 1 timeline_home \<lparr>page = tpage0, trace = []\<rparr>)
     = Inr \<lparr>tweet = 1, container = 100, footer = 11, tRplyAct = 12, rplyButton = 13,
            fullTweetOverlay = None, priv_hasReplys = False, priv_apartThread = True,
            priv_baseURI = timeline_home\<rparr>
   \<and> visited (page (snd (Tweet_new (timeline_example True True False False 0 800) 1 timeline_home
        \<lparr>page = tpage0, trace = []\<rparr>))) = [1]
   \<and> hasReplys (\<lparr>tweet = 1, container = 100, footer = 11, tRplyAct = 12, rplyButton = 13,
            fullTweetOverlay = None, priv_hasReplys = False, priv_apartThread = True,
            priv_baseURI = timeline_home\<rparr> :: nat Tweet) = False
   \<and> apartOfThread (\<lparr>tweet = 1, container = 100, footer = 11, tRplyAct = 12, rplyButton = 13,
            fullTweetOverlay = None, priv_hasReplys = False, priv_apartThread = True,
            priv_baseURI = timeline_home\<rparr> :: nat Tweet) = True
   \<and> hasRepliedOrInThread (\<lparr>tweet = 1, container = 100, footer = 11, tRplyAct = 12, rplyButton = 13,
            fullTweetOverlay = None, priv_hasReplys = False, priv_apartThread = True,
            priv_baseURI = timeline_home\<rparr> :: nat Tweet) = True
   \<and> fst (Tweet_new (timeline_example False False False False 0 800) 1 timeline_home \<lparr>page = tpage0, trace = []\<rparr>)
     = Inr \<lparr>tweet = 1, container = 100, footer = 11, tRplyAct = 12, rplyButton = 13,
            fullTweetOverlay = None, priv_hasReplys = True, priv_apartThread = False,
            priv_baseURI = timeline_home\<rparr>
   \<and> hasRepliedOrInThread (\<lparr>tweet = 1, container = 100, footer = 11, tRplyAct = 12, rplyButton = 13,
            fullTweetOverlay = None, priv_hasReplys = False, priv_apartThread = False,
            priv_baseURI = timeline_home\<rparr> :: nat Tweet) = False
   \<and> fst (Tweet_new (timeline_example True True False False 0 800) 2 timeline_home \<lparr>page = tpage0, trace = []\<rparr>)
     = Inl TypeError
   \<and> visited (page (snd (Tweet_new (timeline_example True True False False 0 800) 2 timeline_home
        \<lparr>page = tpage0, trace = []\<rparr>))) = [2]"
proof -
  let ?B = "timeline_example True True False False 0 800"
  let ?C = "timeline_example False False False False 0 800"
  let ?D = "timeline_example True False False False 0 800"
  let ?w = "\<lparr>page = tpage0, trace = []\<rparr> :: (tpage, nat) world"
  let ?t = "\<lparr>tweet = 1, container = 100, footer = 11, tRplyAct = 12, rplyButton = 13,
            fullTweetOverlay = None, priv_hasReplys = False, priv_apartThread = True,
            priv_baseURI = timeline_home\<rparr> :: nat Tweet"
  let ?u = "\<lparr>tweet = 1, container = 100, footer = 11, tRplyAct = 12, rplyButton = 13,
            fullTweetOverlay = None, priv_hasReplys = True, priv_apartThread = False,
            priv_baseURI = timeline_home\<rparr> :: nat Tweet"
  let ?v = "\<lparr>tweet = 1, container = 100, footer = 11, tRplyAct = 12, rplyButton = 13,
            fullTweetOverlay = None, priv_hasReplys = False, priv_apartThread = False,
            priv_baseURI = timeline_home\<rparr> :: nat Tweet"
  have q: "parentElement ?B 1 (classListAdd ?B ''wrvistited'' 1 (page ?w)) = Some 100"
    "querySelector ?B tweetFooterSelector 1 (classListAdd ?B ''wrvistited'' 1 (page ?w)) = Some 11"
    "querySelector ?B replyActionSelector 11 (classListAdd ?B ''wrvistited'' 1 (page ?w)) = Some 12"
    "querySelector ?B replyBtnSelector 12 (classListAdd ?B ''wrvistited'' 1 (page ?w)) = Some 13"
    by (simp_all add: timeline_example_def timeline_example_sel)
  have f: "querySelector ?B noReplySpanSelector 13 (classListAdd ?B ''wrvistited'' 1 (page ?w)) = Some 14"
    "querySelector ?B threadSelector 1 (classListAdd ?B ''wrvistited'' 1 (page ?w)) = Some 15"
    by (simp_all add: timeline_example_def timeline_example_sel)
  have qC: "parentElement ?C 1 (classListAdd ?C ''wrvistited'' 1 (page ?w)) = Some 100"
    "querySelector ?C tweetFooterSelector 1 (classListAdd ?C ''wrvistited'' 1 (page ?w)) = Some 11"
    "querySelector ?C replyActionSelector 11 (classListAdd ?C ''wrvistited'' 1 (page ?w)) = Some 12"
    "querySelector ?C replyBtnSelector 12 (classListAdd ?C ''wrvistited'' 1 (page ?w)) = Some 13"
    by (simp_all add: timeline_example_def timeline_example_sel)
  have fC: "querySelector ?C noReplySpanSelector 13 (classListAdd ?C ''wrvistited'' 1 (page ?w)) = None"
    "querySelector ?C threadSelector 1 (classListAdd ?C ''wrvistited'' 1 (page ?w)) = None"
    by (simp_all add: timeline_example_def timeline_example_sel)
  have qD: "parentElement ?D 1 (classListAdd ?D ''wrvistited'' 1 (page ?w)) = Some 100"
    "querySelector ?D tweetFooterSelector 1 (classListAdd ?D ''wrvistited'' 1 (page ?w)) = Some 11"
    "querySelector ?D replyActionSelector 11 (classListAdd ?D ''wrvistited'' 1 (page ?w)) = Some 12"
    "querySelector ?D replyBtnSelector 12 (classListAdd ?D ''wrvistited'' 1 (page ?w)) = Some 13"
    by (simp_all add: timeline_example_def timeline_example_sel)
  have fD: "querySelector ?D noReplySpanSelector 13 (classListAdd ?D ''wrvistited'' 1 (page ?w)) = Some 14"
    "querySelector ?D threadSelector 1 (classListAdd ?D ''wrvistited'' 1 (page ?w)) = None"
    by (simp_all add: timeline_example_def timeline_example_sel)
  have no: "parentElement ?B 2 (classListAdd ?B ''wrvistited'' 2 (page ?w)) = None"
    by (simp add: timeline_example_def)
  have cls: "classListAdd ?B ''wrvistited'' e tpage0 = tpage0\<lparr>visited := [e]\<rparr>" for e
    by (simp add: timeline_example_def wrvistited_def tpage0_def)
  note T = tweet_constructor [of ?B 1 timeline_home ?w ?t 100 11 12 13]
  note pg = T [THEN conjunct2, THEN conjunct2, THEN conjunct1]
  have v: "visited (page (snd (Tweet_new ?B 1 timeline_home ?w))) = [1]"
    unfolding pg using cls by simp
  note ok = T [THEN conjunct2, THEN conjunct2, THEN conjunct2, THEN conjunct2, THEN conjunct1,
      rule_format, OF q]
  have made: "fst (Tweet_new ?B 1 timeline_home ?w) = Inr ?t"
    and hr: "hasReplys ?t = False" and at: "apartOfThread ?t = True"
    and dj: "hasRepliedOrInThread ?t = True"
    using ok [unfolded f] by simp_all
  note okC = tweet_constructor [of ?C 1 timeline_home ?w ?u 100 11 12 13,
      THEN conjunct2, THEN conjunct2, THEN conjunct2, THEN conjunct2, THEN conjunct1,
      rule_format, OF qC]
  have madeC: "fst (Tweet_new ?C 1 timeline_home ?w) = Inr ?u"
    using okC [unfolded fC] by simp
  note okD = tweet_constructor [of ?D 1 timeline_home ?w ?v 100 11 12 13,
      THEN conjunct2, THEN conjunct2, THEN conjunct2, THEN conjunct2, THEN conjunct1,
      rule_format, OF qD]
  have djD: "hasRepliedOrInThread ?v = False"
    using okD [unfolded fD] by simp
  note F = tweet_constructor [of ?B 2 timeline_home ?w ?t 100 11 12 13]
  have thrown: "fst (Tweet_new ?B 2 timeline_home ?w) = Inl TypeError"
    using F [THEN conjunct2, THEN conjunct2, THEN conjunct2, THEN conjunct2, THEN conjunct2,
        THEN conjunct1] no
    by blast
  have v2: "visited (page (snd (Tweet_new ?B 2 timeline_home ?w))) = [2]"
    unfolding F [THEN conjunct2, THEN conjunct2, THEN conjunct1] using cls by simp
  from made v hr at dj madeC djD thrown v2 show ?thesis
    by (intro conjI)
qed

lemma step_Return:
  assumes "timelineIterator_step debug tail_ok B xq st = (Return, st')"
  shows "t_pc st = T_Tweets [] \<or> t_pc st = T_Done"
proof (cases "t_pc st")
  case (T_Tweets xs)
  with assms show ?thesis
    by (cases xs) (auto simp: timelineIterator_step_def Let_def split: prod.splits sum.splits bool.splits)
next
  case (T_Opened v t tw)
  with assms show ?thesis
    by (cases v) (auto simp: timelineIterator_step_def visitThreadReplyTweets_start_def Let_def
        split: option.splits if_splits)
next
  case (T_Thread t tw items)
  with assms show ?thesis
    by (cases items) (auto simp: timelineIterator_step_def visitThreadReplyTweets_again_def Let_def
        split: option.splits if_splits prod.splits)
qed (use assms in \<open>auto simp: timelineIterator_step_def Let_def
        split: prod.splits option.splits bool.splits if_splits\<close>)

text \<open>
  Claim C2, as amended. The session loop of the Timeline Visitor ends at one place
  only, the test \<open>while (tweets.length > 0 && canScrollMore())\<close> that follows the drained
  array. There the enumeration of the tweets not yet visited is run, and run once more
  after a wait of 3000 ms if it was empty. The traversal goes on exactly when this
  enumeration is not empty and the scroll-extent check reports that more scrolling is
  possible; it ends when the enumeration is empty, or when no further scrolling is
  possible, one of the two suffices. \<open>canScrollMore\<close> holds exactly when the scroll
  position plus the height of the window is less than the largest of the five extent
  measurements.
\<close>

theorem session_loop_exit:
  "(t_pc st = T_Tweets [] \<longrightarrow>
      timelineIterator_step debug tail_ok B xq st =
        (if fst (requery B xq (t_world st)) \<noteq> [] \<and> canScrollMore B (page (snd (requery B xq (t_world st))))
         then (Tau, st\<lparr>t_world := snd (requery B xq (t_world st)),
                       t_pc := T_Tweets (fst (requery B xq (t_world st)))\<rparr>)
         else (Return, st\<lparr>t_world := snd (requery B xq (t_world st)), t_pc := T_Done\<rparr>)))
   \<and> (timelineIterator_step debug tail_ok B xq st = (Return, st') \<longrightarrow>
        t_pc st = T_Tweets [] \<or> t_pc st = T_Done)
   \<and> requery B xq w =
       (if xq tweetXpath None (page w) = []
        then (xq tweetXpath None (page (delay B 3000 w)), delay B 3000 w)
        else (xq tweetXpath None (page w), w))
   \<and> canScrollMore B p =
       (windowScrollY B p + windowInnerHeight B p <
        max (bodyScrollHeight B p) (max (bodyOffsetHeight B p) (max (rootClientHeight B p)
          (max (rootScrollHeight B p) (rootOffsetHeight B p)))))"
proof -
  have a: "t_pc st = T_Tweets [] \<longrightarrow>
      timelineIterator_step debug tail_ok B xq st =
        (if fst (requery B xq (t_world st)) \<noteq> [] \<and> canScrollMore B (page (snd (requery B xq (t_world st))))
         then (Tau, st\<lparr>t_world := snd (requery B xq (t_world st)),
                       t_pc := T_Tweets (fst (requery B xq (t_world st)))\<rparr>)
         else (Return, st\<lparr>t_world := snd (requery B xq (t_world st)), t_pc := T_Done\<rparr>))"
    by (auto simp: timelineIterator_step_def Let_def split: prod.splits)
  have b: "timelineIterator_step debug tail_ok B xq st = (Return, st') \<longrightarrow>
        t_pc st = T_Tweets [] \<or> t_pc st = T_Done"
    using step_Return by blast
  have c: "requery B xq w =
       (if xq tweetXpath None (page w) = []
        then (xq tweetXpath None (page (delay B 3000 w)), delay B 3000 w)
        else (xq tweetXpath None (page w), w))"
    by (simp add: requery_def Let_def)
  have d: "canScrollMore B p =
       (windowScrollY B p + windowInnerHeight B p <
        max (bodyScrollHeight B p) (max (bodyOffsetHeight B p) (max (rootClientHeight B p)
          (max (rootScrollHeight B p) (rootOffsetHeight B p)))))"
    by (simp add: canScrollMore_def)
  show ?thesis
    using a b c d by blast
qed

lemma example_canScrollMore:
  "canScrollMore (timeline_example zero thread vc video arrival height) p = (800 < max height 0)"
  by (simp add: canScrollMore_def timeline_example_def null_browser_def)

theorem session_loop_exit_witness:
  "timelineIterator_step True all_tails_parse (timeline_example True False False False 5000 5000)
      (maybePolyfillXPG (timeline_example True False False False 5000 5000) None)
      \<lparr>t_pc = T_Tweets [], baseURI = timeline_home, links = timeline_links_new,
       t_world = \<lparr>page = tpage0, trace = []\<rparr>\<rparr>
     = (Return, \<lparr>t_pc = T_Done, baseURI = timeline_home, links = timeline_links_new,
                 t_world = \<lparr>page = tpage0\<lparr>clock := 3000\<rparr>, trace = [Delayed 3000]\<rparr>\<rparr>)
   \<and> canScrollMore (timeline_example True False False False 5000 5000) (tpage0\<lparr>clock := 3000\<rparr>)"
proof -
  let ?B = "timeline_example True False False False 5000 5000"
  let ?st = "\<lparr>t_pc = T_Tweets [], baseURI = timeline_home, links = timeline_links_new,
       t_world = \<lparr>page = tpage0, trace = []\<rparr>\<rparr> :: (tpage, nat) timeline_state"
  have pc: "t_pc ?st = T_Tweets []" by simp
  have rq: "requery ?B (maybePolyfillXPG ?B None) \<lparr>page = tpage0, trace = []\<rparr>
      = ([], \<lparr>page = tpage0\<lparr>clock := 3000\<rparr>, trace = [Delayed 3000]\<rparr>)"
    by (simp add: requery_def maybePolyfillXPG_def timeline_example_def delay_def act_def tpage0_def)
  have cs: "canScrollMore ?B (tpage0\<lparr>clock := 3000\<rparr>)"
    by (simp add: example_canScrollMore)
  note T = session_loop_exit [where st = ?st and B = ?B and debug = True and tail_ok = all_tails_parse
      and xq = "maybePolyfillXPG ?B None", THEN conjunct1, rule_format, OF pc]
  show ?thesis
    unfolding T using cs by (simp add: rq)
qed

text \<open>
  The claim C2 as it was stated fails. On a page with no tweet in it that is 5000 high
  in a window 800 high, the first step of the session reports done, although more
  scrolling is possible: the enumeration alone, empty after the wait, ends the session.
  On a page 800 high on which the tweet arrives after two seconds, the first step
  reports done as well, although the enumeration after the wait holds the tweet: that
  no scrolling is possible ends the session alone, and the tweet is never visited.
\<close>

theorem session_ends_on_one_condition_counterexample:
  "map_option fst (WRIteratorHandler 5 all_tails_parse (timeline_example True False False False 5000 5000) None
      (timelineIterator (timeline_example True False False False 5000 5000) tpage0))
     = Some (Inr \<lparr>step_done = True, wait = False\<rparr>)
   \<and> map_option (\<lambda>r. page (t_world (snd r)))
        (WRIteratorHandler 5 all_tails_parse (timeline_example True False False False 5000 5000) None
          (timelineIterator (timeline_example True False False False 5000 5000) tpage0))
     = Some (tpage0\<lparr>clock := 3000\<rparr>)
   \<and> documentEvaluate (timeline_example True False False False 5000 5000) tweetXpath None
        (tpage0\<lparr>clock := 3000\<rparr>) = []
   \<and> canScrollMore (timeline_example True False False False 5000 5000) (tpage0\<lparr>clock := 3000\<rparr>)
   \<and> map_option fst (WRIteratorHandler 5 all_tails_parse (timeline_example True False False False 2000 800) None
      (timelineIterator (timeline_example True False False False 2000 800) tpage0))
     = Some (Inr \<lparr>step_done = True, wait = False\<rparr>)
   \<and> map_option (\<lambda>r. page (t_world (snd r)))
        (WRIteratorHandler 5 all_tails_parse (timeline_example True False False False 2000 800) None
          (timelineIterator (timeline_example True False False False 2000 800) tpage0))
     = Some (tpage0\<lparr>clock := 3000\<rparr>)
   \<and> documentEvaluate (timeline_example True False False False 2000 800) tweetXpath None
        (tpage0\<lparr>clock := 3000\<rparr>) = [1]
   \<and> \<not> canScrollMore (timeline_example True False False False 2000 800) (tpage0\<lparr>clock := 3000\<rparr>)"
proof -
  have a: "WRIteratorHandler 5 all_tails_parse (timeline_example True False False False 5000 5000) None
      (timelineIterator (timeline_example True False False False 5000 5000) tpage0)
     = Some (Inr \<lparr>step_done = True, wait = False\<rparr>,
             \<lparr>t_pc = T_Done, baseURI = timeline_home, links = timeline_links_new,
              t_world = \<lparr>page = tpage0\<lparr>clock := 3000\<rparr>, trace = [Delayed 3000]\<rparr>\<rparr>)"
    by (simp add: WRIteratorHandler_def WRTweetIterator_next_def eval_nat_numeral
        timelineIterator_step_def timelineIterator_def requery_def maybePolyfillXPG_def
        timeline_example_def null_browser_def delay_def act_def tpage0_def canScrollMore_def)
  have b: "WRIteratorHandler 5 all_tails_parse (timeline_example True False False False 2000 800) None
      (timelineIterator (timeline_example True False False False 2000 800) tpage0)
     = Some (Inr \<lparr>step_done = True, wait = False\<rparr>,
             \<lparr>t_pc = T_Done, baseURI = timeline_home, links = timeline_links_new,
              t_world = \<lparr>page = tpage0\<lparr>clock := 3000\<rparr>, trace = [Delayed 3000]\<rparr>\<rparr>)"
    by (simp add: WRIteratorHandler_def WRTweetIterator_next_def eval_nat_numeral
        timelineIterator_step_def timelineIterator_def requery_def maybePolyfillXPG_def
        timeline_example_def null_browser_def delay_def act_def tpage0_def canScrollMore_def)
  have c: "documentEvaluate (timeline_example True False False False 5000 5000) tweetXpath None
        (tpage0\<lparr>clock := 3000\<rparr>) = []"
    "documentEvaluate (timeline_example True False False False 2000 800) tweetXpath None
        (tpage0\<lparr>clock := 3000\<rparr>) = [1]"
    by (simp_all add: timeline_example_def tpage0_def)
  show ?thesis
    unfolding a b by (simp add: c example_canScrollMore)
qed

lemma step_Yield:
  assumes "timelineIterator_step debug tail_ok B xq st = (Yield v, st')"
  shows "(v \<and> (\<exists>x tweets aTweet w. t_pc st = T_Tweets (x # tweets) \<and> t_pc st' = T_View aTweet tweets
               \<and> hasVideo B aTweet w = (True, t_world st')
               \<and> querySelector B ''div.AdaptiveMedia-videoContainer'' (tweet aTweet) (page w) \<noteq> None))
         \<or> (\<not> v \<and> (\<exists>t tweets. t_pc st' = T_Close t tweets \<or> (\<exists>items. t_pc st' = T_Thread t tweets items)))"
proof (cases "t_pc st")
  case (T_Tweets xs)
  show ?thesis
  proof (cases xs)
    case Nil
    with assms T_Tweets show ?thesis
      by (auto simp: timelineIterator_step_def Let_def split: prod.splits if_splits)
  next
    case (Cons x tweets)
    with assms T_Tweets obtain aTweet w1 w4 where
      hv: "hasVideo B aTweet
             (scrollIntoViewWithDelay B (Some (tweet aTweet)) 500
               (debug_class debug B (tweet aTweet) ''wr-debug-visited'' w1)) = (True, w4)"
      and v: "v = True" and st': "t_pc st' = T_View aTweet tweets" "t_world st' = w4"
      by (auto simp: timelineIterator_step_def Let_def split: prod.splits sum.splits bool.splits)
    from hv have "querySelector B ''div.AdaptiveMedia-videoContainer'' (tweet aTweet)
        (page (scrollIntoViewWithDelay B (Some (tweet aTweet)) 500
               (debug_class debug B (tweet aTweet) ''wr-debug-visited'' w1))) \<noteq> None"
      by (auto simp: hasVideo_def split: option.splits)
    with hv v st' T_Tweets Cons show ?thesis by blast
  qed
next
  case (T_Opened vw t tw)
  with assms show ?thesis
    by (cases vw) (auto simp: timelineIterator_step_def visitThreadReplyTweets_start_def Let_def
        split: option.splits if_splits)
next
  case (T_Thread t tw items)
  with assms show ?thesis
    by (cases items) (auto simp: timelineIterator_step_def visitThreadReplyTweets_again_def Let_def
        split: option.splits if_splits prod.splits)
qed (use assms in \<open>auto simp: timelineIterator_step_def Let_def
        split: prod.splits option.splits bool.splits if_splits\<close>)

lemma run_generator_last:
  assumes "run_generator n step st = Some (sig, st')"
  shows "sig \<noteq> Tau \<and> (\<exists>s. step s = (sig, st'))"
  using assms
proof (induction n arbitrary: st)
  case 0
  then show ?case by simp
next
  case (Suc n)
  obtain sg s1 where s: "step st = (sg, s1)" by (cases "step st")
  show ?case
  proof (cases sg)
    case Tau
    with Suc.prems s have "run_generator n step s1 = Some (sig, st')" by simp
    from Suc.IH[OF this] show ?thesis .
  qed (use Suc.prems s in auto)
qed

lemma handler_done_state:
  assumes "t_pc st = T_Done"
  shows "WRIteratorHandler (Suc n) tail_ok B xpg st = Some (Inr \<lparr>step_done = True, wait = False\<rparr>, st)"
  using assms
  by (simp add: WRIteratorHandler_def WRTweetIterator_next_def timelineIterator_step_def)

lemma handler_result:
  assumes "WRIteratorHandler n tail_ok B xpg st = Some (res, st')"
  shows "(\<exists>v s. res = Inr \<lparr>step_done = False, wait = v\<rparr>
            \<and> timelineIterator_step True tail_ok B (maybePolyfillXPG B xpg) s = (Yield v, st'))
         \<or> ((res = Inr \<lparr>step_done = True, wait = False\<rparr> \<or> isl res) \<and> t_pc st' = T_Done)"
proof -
  from assms obtain sig s1 where run:
    "run_generator n (timelineIterator_step True tail_ok B (maybePolyfillXPG B xpg)) st = Some (sig, s1)"
    by (auto simp: WRIteratorHandler_def WRTweetIterator_next_def split: option.splits)
  from run_generator_last[OF run] obtain s where
    nt: "sig \<noteq> Tau" and s: "timelineIterator_step True tail_ok B (maybePolyfillXPG B xpg) s = (sig, s1)"
    by blast
  show ?thesis
    using assms run nt s
    by (cases sig) (auto simp: WRIteratorHandler_def WRTweetIterator_next_def)
qed

text \<open>
  Claim C6, as amended. Every call of the step handle that settles and does not throw
  returns a pair of done and wait. Wait is true only when the step ended at the
  \<open>yield true\<close> of the session loop, which is made when \<open>hasVideo()\<close> returned true for
  the unit at hand, that is, when the unit holds an inline video container, whether
  or not a video element was found and started in it. The other yields, the one of
  \<open>viewRegularTweet\<close> and those of \<open>visitThreadReplyTweets\<close>, give wait false, and so does
  the end of the loop. When a step reports done, or throws, the generator is completed;
  on a completed generator every further step is a no-op: it leaves the state as it is
  and returns done true and wait false.
\<close>

theorem step_handle:
  "(WRIteratorHandler n tail_ok B xpg st = Some (Inr r, st') \<longrightarrow>
      (wait r \<longrightarrow> \<not> step_done r
         \<and> (\<exists>aTweet tweets w. t_pc st' = T_View aTweet tweets
               \<and> hasVideo B aTweet w = (True, t_world st')
               \<and> querySelector B ''div.AdaptiveMedia-videoContainer'' (tweet aTweet) (page w) \<noteq> None))
      \<and> (\<not> wait r \<and> \<not> step_done r \<longrightarrow>
            (\<exists>t tweets. t_pc st' = T_Close t tweets \<or> (\<exists>items. t_pc st' = T_Thread t tweets items)))
      \<and> (step_done r \<longrightarrow> t_pc st' = T_Done))
   \<and> (WRIteratorHandler n tail_ok B xpg st = Some (Inl e, st') \<longrightarrow> t_pc st' = T_Done)
   \<and> (t_pc st = T_Done \<longrightarrow>
        WRIteratorHandler (Suc n) tail_ok B xpg st = Some (Inr \<lparr>step_done = True, wait = False\<rparr>, st))"
proof (intro conjI impI)
  assume h: "WRIteratorHandler n tail_ok B xpg st = Some (Inr r, st')" and w: "wait r"
  from handler_result[OF h] w obtain s where
    s: "timelineIterator_step True tail_ok B (maybePolyfillXPG B xpg) s = (Yield True, st')"
    and r: "r = \<lparr>step_done = False, wait = True\<rparr>"
    by auto
  from r show "\<not> step_done r" by simp
  from step_Yield[OF s]
  show "\<exists>aTweet tweets w. t_pc st' = T_View aTweet tweets
               \<and> hasVideo B aTweet w = (True, t_world st')
               \<and> querySelector B ''div.AdaptiveMedia-videoContainer'' (tweet aTweet) (page w) \<noteq> None"
    by blast
next
  assume h: "WRIteratorHandler n tail_ok B xpg st = Some (Inr r, st')" and w: "\<not> wait r \<and> \<not> step_done r"
  from handler_result[OF h] w obtain s where
    s: "timelineIterator_step True tail_ok B (maybePolyfillXPG B xpg) s = (Yield False, st')"
    by auto
  from step_Yield[OF s]
  show "\<exists>t tweets. t_pc st' = T_Close t tweets \<or> (\<exists>items. t_pc st' = T_Thread t tweets items)"
    by blast
next
  assume h: "WRIteratorHandler n tail_ok B xpg st = Some (Inr r, st')" and d: "step_done r"
  from handler_result[OF h] d show "t_pc st' = T_Done" by auto
next
  assume h: "WRIteratorHandler n tail_ok B xpg st = Some (Inl e, st')"
  from handler_result[OF h] show "t_pc st' = T_Done" by auto
next
  assume "t_pc st = T_Done"
  then show "WRIteratorHandler (Suc n) tail_ok B xpg st = Some (Inr \<lparr>step_done = True, wait = False\<rparr>, st)"
    by (rule handler_done_state)
qed

lemmas timeline_run_defs =
  WRIteratorHandler_def WRTweetIterator_next_def timelineIterator_step_def timelineIterator_def
  requery_def maybePolyfillXPG_def timeline_example_def null_browser_def delay_def act_def
  tpage0_def canScrollMore_def Tweet_new_def markElemAsVisited_def debug_class_def
  scrollIntoViewWithDelay_def scrollIntoView_def collectOutlinksFrom_def addOutLinks_def
  hasVideo_def timeline_example_sel wrvistited_def timeline_links_new_def timeline_home_def

theorem step_handle_witness:
  "WRIteratorHandler 5 all_tails_parse (timeline_example True False True True 0 800) None
      (timelineIterator (timeline_example True False True True 0 800) tpage0)
     = Some (Inr \<lparr>step_done = False, wait = True\<rparr>,
         \<lparr>t_pc = T_View \<lparr>tweet = 1, container = 100, footer = 11, tRplyAct = 12, rplyButton = 13,
                   fullTweetOverlay = None, priv_hasReplys = False, priv_apartThread = False,
                   priv_baseURI = timeline_home\<rparr> [],
          baseURI = timeline_home, links = timeline_links_new,
          t_world = \<lparr>page = \<lparr>uri = timeline_home, clock = 500, visited = [1], playing = [17]\<rparr>,
                     trace = [AddedClass 1 ''wrvistited'', AddedClass 1 ''wr-debug-visited'',
                              ScrolledIntoView 1, Delayed 500, Played 17]\<rparr>\<rparr>)
   \<and> WRIteratorHandler 1 all_tails_parse (timeline_example True False True True 0 800) None
        \<lparr>t_pc = T_Done, baseURI = timeline_home, links = timeline_links_new,
         t_world = \<lparr>page = tpage0, trace = []\<rparr>\<rparr>
       = Some (Inr \<lparr>step_done = True, wait = False\<rparr>,
           \<lparr>t_pc = T_Done, baseURI = timeline_home, links = timeline_links_new,
            t_world = \<lparr>page = tpage0, trace = []\<rparr>\<rparr>)"
proof -
  let ?B = "timeline_example True False True True 0 800"
  let ?d = "\<lparr>t_pc = T_Done, baseURI = timeline_home, links = timeline_links_new,
         t_world = \<lparr>page = tpage0, trace = []\<rparr>\<rparr> :: (tpage, nat) timeline_state"
  have run: "WRIteratorHandler 5 all_tails_parse ?B None (timelineIterator ?B tpage0)
     = Some (Inr \<lparr>step_done = False, wait = True\<rparr>,
         \<lparr>t_pc = T_View \<lparr>tweet = 1, container = 100, footer = 11, tRplyAct = 12, rplyButton = 13,
                   fullTweetOverlay = None, priv_hasReplys = False, priv_apartThread = False,
                   priv_baseURI = timeline_home\<rparr> [],
          baseURI = timeline_home, links = timeline_links_new,
          t_world = \<lparr>page = \<lparr>uri = timeline_home, clock = 500, visited = [1], playing = [17]\<rparr>,
                     trace = [AddedClass 1 ''wrvistited'', AddedClass 1 ''wr-debug-visited'',
                              ScrolledIntoView 1, Delayed 500, Played 17]\<rparr>\<rparr>)"
    by (simp add: timeline_run_defs eval_nat_numeral Let_def)
  have pc: "t_pc ?d = T_Done" by simp
  note T = step_handle [where st = ?d and B = ?B and n = 0 and tail_ok = all_tails_parse and xpg = None,
      THEN conjunct2, THEN conjunct2, rule_format, OF pc]
  show ?thesis
    using run T by simp
qed

text \<open>
  The claim C6 as it was stated fails in its first part. A tweet whose video container
  holds no video element: \<open>hasVideo()\<close> starts nothing and returns true, the loop yields
  true, and the step returns wait true, with no video playing and no call of \<open>play\<close> in
  the trace.
\<close>

theorem wait_without_media_counterexample:
  "WRIteratorHandler 5 all_tails_parse (timeline_example False False True False 0 800) None
      (timelineIterator (timeline_example False False True False 0 800) tpage0)
     = Some (Inr \<lparr>step_done = False, wait = True\<rparr>,
         \<lparr>t_pc = T_View \<lparr>tweet = 1, container = 100, footer = 11, tRplyAct = 12, rplyButton = 13,
                   fullTweetOverlay = None, priv_hasReplys = True, priv_apartThread = False,
                   priv_baseURI = timeline_home\<rparr> [],
          baseURI = timeline_home, links = timeline_links_new,
          t_world = \<lparr>page = \<lparr>uri = timeline_home, clock = 500, visited = [1], playing = []\<rparr>,
                     trace = [AddedClass 1 ''wrvistited'', AddedClass 1 ''wr-debug-visited'',
                              ScrolledIntoView 1, Delayed 500]\<rparr>\<rparr>)
   \<and> querySelector (timeline_example False False True False 0 800) ''div.AdaptiveMedia-videoContainer'' 1
        \<lparr>uri = timeline_home, clock = 500, visited = [1], playing = []\<rparr> = Some 16
   \<and> querySelector (timeline_example False False True False 0 800) ''video'' 16
        \<lparr>uri = timeline_home, clock = 500, visited = [1], playing = []\<rparr> = None"
  by (simp add: timeline_run_defs eval_nat_numeral Let_def)

lemma yields_until_mono:
  "yields_until n stop host step s = Some r \<Longrightarrow> yields_until (n + m) stop host step s = Some r"
proof (induction n arbitrary: s r)
  case 0
  then show ?case by simp
next
  case (Suc n)
  show ?case
  proof (cases "stop s")
    case True
    with Suc.prems show ?thesis by simp
  next
    case False
    obtain sg s1 where st: "step s = (sg, s1)" by (cases "step s")
    show ?thesis
    proof (cases sg)
      case Tau
      with Suc.prems False st have "yields_until n stop host step s1 = Some r" by simp
      from Suc.IH[OF this] show ?thesis using False st Tau by simp
    next
      case (Yield v)
      with Suc.prems False st obtain vs s2 where
        y: "yields_until n stop host step (host s1) = Some (vs, s2)" and r: "r = (v # vs, s2)"
        by (auto split: option.splits)
      from Suc.IH[OF y] show ?thesis using False st Yield r by simp
    qed (use Suc.prems False st in auto)
  qed
qed

lemma at_rest_upd [simp]:
  "at_rest ts (st\<lparr>t_world := w, t_pc := pc\<rparr>) = (pc = T_Tweets ts)"
  "at_rest ts (st\<lparr>t_pc := pc\<rparr>) = (pc = T_Tweets ts)"
  by (simp_all add: at_rest_def)

lemma between_steps_upd [simp]:
  "between_steps h (st\<lparr>t_world := w, t_pc := pc\<rparr>)
     = st\<lparr>t_world := w\<lparr>page := h (st\<lparr>t_world := w, t_pc := pc\<rparr>)\<rparr>, t_pc := pc\<rparr>"
  by (simp add: between_steps_def)

lemma step_Opening:
  "timelineIterator_step debug tail_ok B xq (st\<lparr>t_world := w, t_pc := T_Opening v t tweets path\<rparr>) =
     (case interval_fires (second_passes B) (openFullTweet_predicate debug B path) (w, t) of
        (True, (w', t')) \<Rightarrow> (Tau, st\<lparr>t_world := w', t_pc := T_Opened v t' tweets\<rparr>)
      | (False, (w', t')) \<Rightarrow> (Tau, st\<lparr>t_world := w', t_pc := T_Opening v t' tweets path\<rparr>))"
  by (simp add: timelineIterator_step_def split: prod.splits bool.splits)

lemma step_Closing:
  "timelineIterator_step debug tail_ok B xq (st\<lparr>t_world := w, t_pc := T_Closing t tweets overlay\<rparr>) =
     (case interval_fires (second_passes B) (closeFullTweetOverlay_predicate debug B overlay) (w, t) of
        (True, (w', t')) \<Rightarrow> (Tau, st\<lparr>t_world := w', t_pc := T_Tweets tweets\<rparr>)
      | (False, (w', t')) \<Rightarrow> (Tau, st\<lparr>t_world := w', t_pc := T_Closing t' tweets overlay\<rparr>))"
  by (simp add: timelineIterator_step_def split: prod.splits bool.splits)

lemma opening_resolves:
  assumes "waitForPredicate a (second_passes B) (openFullTweet_predicate debug B path) (w, t) = Some (w2, t2)"
    and "yields_until k (at_rest ts) host (timelineIterator_step debug tail_ok B xq)
           (st\<lparr>t_world := w2, t_pc := T_Opened v t2 tweets\<rparr>) = Some r"
  shows "yields_until (a + k) (at_rest ts) host (timelineIterator_step debug tail_ok B xq)
           (st\<lparr>t_world := w, t_pc := T_Opening v t tweets path\<rparr>) = Some r"
  using assms(1)
proof (induction a arbitrary: w t)
  case 0
  then show ?case by simp
next
  case (Suc a)
  obtain b w' t' where f:
    "interval_fires (second_passes B) (openFullTweet_predicate debug B path) (w, t) = (b, (w', t'))"
    by (cases "interval_fires (second_passes B) (openFullTweet_predicate debug B path) (w, t)") auto
  show ?case
  proof (cases b)
    case True
    with Suc.prems f have "w' = w2" "t' = t2" by auto
    with True f yields_until_mono[OF assms(2), of a] show ?thesis
      by (simp add: step_Opening add.commute)
  next
    case False
    with Suc.prems f have
      "waitForPredicate a (second_passes B) (openFullTweet_predicate debug B path) (w', t') = Some (w2, t2)"
      by simp
    from Suc.IH[OF this] False f show ?thesis
      by (simp add: step_Opening)
  qed
qed

lemma closing_resolves:
  assumes "waitForPredicate b (second_passes B) (closeFullTweetOverlay_predicate debug B overlay) (w, t)
             = Some (w3, t3)"
  shows "yields_until (b + 1) (at_rest tweets) host (timelineIterator_step debug tail_ok B xq)
           (st\<lparr>t_world := w, t_pc := T_Closing t tweets overlay\<rparr>)
         = Some ([], st\<lparr>t_world := w3, t_pc := T_Tweets tweets\<rparr>)"
  using assms
proof (induction b arbitrary: w t)
  case 0
  then show ?case by simp
next
  case (Suc b)
  obtain c w' t' where f:
    "interval_fires (second_passes B) (closeFullTweetOverlay_predicate debug B overlay) (w, t) = (c, (w', t'))"
    by (cases "interval_fires (second_passes B) (closeFullTweetOverlay_predicate debug B overlay) (w, t)") auto
  show ?case
  proof (cases c)
    case True
    with Suc.prems f have "w' = w3" by auto
    with True f have "yields_until 1 (at_rest tweets) host (timelineIterator_step debug tail_ok B xq)
           (st\<lparr>t_world := w3, t_pc := T_Tweets tweets\<rparr>) = Some ([], st\<lparr>t_world := w3, t_pc := T_Tweets tweets\<rparr>)"
      by simp
    from yields_until_mono[OF this, of b] True f \<open>w' = w3\<close> show ?thesis
      by (simp add: step_Closing add.commute)
  next
    case False
    with Suc.prems f have
      "waitForPredicate b (second_passes B) (closeFullTweetOverlay_predicate debug B overlay) (w', t') = Some (w3, t3)"
      by simp
    from Suc.IH[OF this] False f show ?thesis
      by (simp add: step_Closing)
  qed
qed

lemma step_View:
  assumes "t_pc st = T_View t tweets"
  shows "timelineIterator_step debug tail_ok B xq st =
     (Tau, st\<lparr>t_world := snd (click B (Some (container t)) (t_world st)),
              t_pc := T_Opening (if hasRepliedOrInThread t then RepliesOrThread else RegularTweet)
                        t tweets (permalinkPath B t (page (t_world st)))\<rparr>)"
  using assms by (simp add: timelineIterator_step_def click_Some Let_def)

lemma step_Opened_regular:
  "timelineIterator_step debug tail_ok B xq (st\<lparr>t_world := w, t_pc := T_Opened RegularTweet t tweets\<rparr>) =
     (Yield False, st\<lparr>t_world := w, t_pc := T_Close t tweets\<rparr>)"
  by (simp add: timelineIterator_step_def)

lemma step_Close:
  "timelineIterator_step debug tail_ok B xq (st\<lparr>t_world := w, t_pc := T_Close t tweets\<rparr>) =
     (case documentQuerySelector B closeFullTweetSelector (page w) of
        None \<Rightarrow> (Tau, st\<lparr>t_world := w, t_pc := T_Tweets tweets\<rparr>)
      | Some overlay \<Rightarrow>
          (Tau, st\<lparr>t_world := snd (click B (Some overlay) (debug_class debug B overlay ''wr-debug-click'' w)),
                   t_pc := T_Closing t tweets overlay\<rparr>))"
  by (simp add: timelineIterator_step_def click_Some split: option.splits)

lemma step_Tweets:
  assumes "t_pc st = T_Tweets (x # tweets)"
    and "Tweet_new B x (baseURI st) (t_world st) = (Inr t, w1)"
  shows "timelineIterator_step debug tail_ok B xq st =
     ((if fst (hasVideo B t
                 (scrollIntoViewWithDelay B (Some x) 500 (debug_class debug B x ''wr-debug-visited'' w1)))
       then Yield True else Tau),
      st\<lparr>t_world := snd (hasVideo B t
                 (scrollIntoViewWithDelay B (Some x) 500 (debug_class debug B x ''wr-debug-visited'' w1))),
         links := collectOutlinksFrom tail_ok B x
                    (page (scrollIntoViewWithDelay B (Some x) 500
                              (debug_class debug B x ''wr-debug-visited'' w1))) (links st),
         t_pc := T_View t tweets\<rparr>)"
proof -
  have tw: "tweet t = x"
    using assms(2) by (auto simp: Tweet_new_def Let_def split: option.splits)
  show ?thesis
    using assms tw
    by (cases "hasVideo B t
                 (scrollIntoViewWithDelay B (Some x) 500 (debug_class debug B x ''wr-debug-visited'' w1))")
       (simp add: timelineIterator_step_def Let_def)
qed

lemma hasVideo_fst:
  "fst (hasVideo B t w) = (querySelector B ''div.AdaptiveMedia-videoContainer'' (tweet t) (page w) \<noteq> None)"
  by (simp add: hasVideo_def split: option.splits)

lemma waitForPredicate_fired:
  "waitForPredicate n sec predicate s = Some s' \<Longrightarrow> \<exists>s0. predicate s0 = (Inr True, s')"
proof (induction n arbitrary: s)
  case 0
  then show ?case by simp
next
  case (Suc n)
  obtain r s1 where p: "predicate (sec s) = (r, s1)" by (cases "predicate (sec s)")
  show ?case
  proof (cases r)
    case (Inl e)
    with Suc.prems p have "waitForPredicate n sec predicate s1 = Some s'"
      by (simp add: interval_fires_def)
    then show ?thesis by (rule Suc.IH)
  next
    case (Inr b)
    show ?thesis
    proof (cases b)
      case True
      with Suc.prems p Inr have "s1 = s'" by (simp add: interval_fires_def)
      with p Inr True have "predicate (sec s) = (Inr True, s')" by simp
      then show ?thesis by (rule exI)
    next
      case False
      with Suc.prems p Inr have "waitForPredicate n sec predicate s1 = Some s'"
        by (simp add: interval_fires_def)
      then show ?thesis by (rule Suc.IH)
    qed
  qed
qed

lemma open_fired:
  assumes "openFullTweet_predicate debug B path (wa, ta) = (Inr True, (w2, t2))"
  shows "endsWith (documentBaseURI B (page wa)) (searchString path)
         \<and> t2 = ta\<lparr>fullTweetOverlay := getElementById B ''permalink-overlay'' (page wa)\<rparr>
         \<and> w2 = (if debug
                 then (case getElementById B ''permalink-overlay'' (page wa) of
                         None \<Rightarrow> wa
                       | Some el \<Rightarrow> act (AddedClass el ''wr-debug-visited-overlay'')
                                      (classListAdd B ''wr-debug-visited-overlay'' el) wa)
                 else wa)"
  using assms
  by (auto simp: openFullTweet_predicate_def Let_def split: if_splits option.splits)

lemma open_keeps_unit:
  "fst (interval_fires (second_passes B) (openFullTweet_predicate debug B path) (w, t)) = b \<Longrightarrow>
   \<exists>ov. snd (snd (interval_fires (second_passes B) (openFullTweet_predicate debug B path) (w, t)))
           = t\<lparr>fullTweetOverlay := ov\<rparr>"
proof -
  have same: "t = t\<lparr>fullTweetOverlay := fullTweetOverlay t\<rparr>" by simp
  show ?thesis
    apply (simp add: interval_fires_def second_passes_def openFullTweet_predicate_def Let_def
        split: if_splits option.splits)
    using same by blast
qed

lemma open_wait_unit:
  "waitForPredicate a (second_passes B) (openFullTweet_predicate debug B path) (w, t) = Some (w2, t2) \<Longrightarrow>
   t2 = t\<lparr>fullTweetOverlay := fullTweetOverlay t2\<rparr>"
proof (induction a arbitrary: w t)
  case 0
  then show ?case by simp
next
  case (Suc a)
  obtain b w' t' where f:
    "interval_fires (second_passes B) (openFullTweet_predicate debug B path) (w, t) = (b, (w', t'))"
    by (cases "interval_fires (second_passes B) (openFullTweet_predicate debug B path) (w, t)") auto
  from open_keeps_unit[of B debug path w t b] f obtain ov where t': "t' = t\<lparr>fullTweetOverlay := ov\<rparr>"
    by auto
  show ?case
  proof (cases b)
    case True
    with Suc.prems f have "t2 = t'" by simp
    with t' show ?thesis by simp
  next
    case False
    with Suc.prems f have
      "waitForPredicate a (second_passes B) (openFullTweet_predicate debug B path) (w', t') = Some (w2, t2)"
      by simp
    from Suc.IH[OF this] have "t2 = t'\<lparr>fullTweetOverlay := fullTweetOverlay t2\<rparr>" .
    with t' show ?thesis by simp
  qed
qed

lemma close_fired:
  assumes "closeFullTweetOverlay_predicate debug B overlay (wb, tb) = (Inr True, (w3, t3))"
  shows "documentBaseURI B (page wb) = priv_baseURI tb \<and> t3 = tb
         \<and> w3 = (if debug then act (RemovedClass overlay ''wr-debug-click'')
                                 (classListRemove B ''wr-debug-click'' overlay) wb
                 else wb)"
  using assms
  by (auto simp: closeFullTweetOverlay_predicate_def Let_def split: if_splits)

lemma close_wait_unit:
  "waitForPredicate b (second_passes B) (closeFullTweetOverlay_predicate debug B overlay) (w, t) = Some (w3, t3) \<Longrightarrow>
   t3 = t"
proof (induction b arbitrary: w)
  case 0
  then show ?case by simp
next
  case (Suc b)
  obtain c w' t' where f:
    "interval_fires (second_passes B) (closeFullTweetOverlay_predicate debug B overlay) (w, t) = (c, (w', t'))"
    by (cases "interval_fires (second_passes B) (closeFullTweetOverlay_predicate debug B overlay) (w, t)") auto
  then have t': "t' = t"
    by (auto simp: interval_fires_def second_passes_def closeFullTweetOverlay_predicate_def Let_def
        split: if_splits)
  show ?case
  proof (cases c)
    case True
    with Suc.prems f t' show ?thesis by simp
  next
    case False
    with Suc.prems f t' have
      "waitForPredicate b (second_passes B) (closeFullTweetOverlay_predicate debug B overlay) (w', t) = Some (w3, t3)"
      by simp
    then show ?thesis by (rule Suc.IH)
  qed
qed

lemma open_wait_location:
  assumes "waitForPredicate a (second_passes B) (openFullTweet_predicate debug B path) (w, t) = Some (w2, t2)"
  shows "\<exists>wa. endsWith (documentBaseURI B (page wa)) (searchString path)
           \<and> t2 = t\<lparr>fullTweetOverlay := getElementById B ''permalink-overlay'' (page wa)\<rparr>
           \<and> w2 = (if debug
                   then (case getElementById B ''permalink-overlay'' (page wa) of
                           None \<Rightarrow> wa
                         | Some el \<Rightarrow> act (AddedClass el ''wr-debug-visited-overlay'')
                                        (classListAdd B ''wr-debug-visited-overlay'' el) wa)
                   else wa)"
proof -
  from waitForPredicate_fired[OF assms] obtain wa ta where
    f: "openFullTweet_predicate debug B path (wa, ta) = (Inr True, (w2, t2))"
    by (metis surj_pair)
  note o = open_fired[OF f]
  from o have ov: "fullTweetOverlay t2 = getElementById B ''permalink-overlay'' (page wa)"
    by simp
  from open_wait_unit[OF assms] ov
  have "t2 = t\<lparr>fullTweetOverlay := getElementById B ''permalink-overlay'' (page wa)\<rparr>"
    by simp
  with o show ?thesis by blast
qed

lemma close_wait_location:
  assumes "waitForPredicate b (second_passes B) (closeFullTweetOverlay_predicate debug B overlay) (w, t)
             = Some (w3, t3)"
  shows "\<exists>wb. documentBaseURI B (page wb) = priv_baseURI t \<and> t3 = t
           \<and> w3 = (if debug then act (RemovedClass overlay ''wr-debug-click'')
                                   (classListRemove B ''wr-debug-click'' overlay) wb
                   else wb)"
proof -
  from waitForPredicate_fired[OF assms] obtain wb tb where
    f: "closeFullTweetOverlay_predicate debug B overlay (wb, tb) = (Inr True, (w3, t3))"
    by (metis surj_pair)
  note c = close_fired[OF f]
  from close_wait_unit[OF assms] c have "tb = t" by simp
  with c show ?thesis by blast
qed

lemma regular_visit_dismissed:
  assumes nd: "\<not> hasRepliedOrInThread t" and pc: "t_pc st = T_View t tweets"
    and op: "waitForPredicate a (second_passes B)
               (openFullTweet_predicate debug B (permalinkPath B t (page (t_world st))))
               (snd (click B (Some (container t)) (t_world st)), t) = Some (w2, t2)"
    and dm: "documentQuerySelector B closeFullTweetSelector
               (h (st\<lparr>t_world := w2, t_pc := T_Close t2 tweets\<rparr>)) = Some overlay"
    and cl: "waitForPredicate b (second_passes B) (closeFullTweetOverlay_predicate debug B overlay)
               (snd (click B (Some overlay)
                       (debug_class debug B overlay ''wr-debug-click''
                          (w2\<lparr>page := h (st\<lparr>t_world := w2, t_pc := T_Close t2 tweets\<rparr>)\<rparr>))), t2)
             = Some (w3, t3)"
  shows "yields_until (a + b + 4) (at_rest tweets) (between_steps h)
           (timelineIterator_step debug tail_ok B xq) st
         = Some ([False], st\<lparr>t_world := w3, t_pc := T_Tweets tweets\<rparr>)"
proof -
  let ?step = "timelineIterator_step debug tail_ok B xq"
  let ?fin = "st\<lparr>t_world := w3, t_pc := T_Tweets tweets\<rparr>"
  let ?wh = "w2\<lparr>page := h (st\<lparr>t_world := w2, t_pc := T_Close t2 tweets\<rparr>)\<rparr>"
  have c1: "yields_until (b + 1) (at_rest tweets) (between_steps h) ?step
      (st\<lparr>t_world := snd (click B (Some overlay) (debug_class debug B overlay ''wr-debug-click'' ?wh)),
          t_pc := T_Closing t2 tweets overlay\<rparr>) = Some ([], ?fin)"
    by (rule closing_resolves[OF cl])
  have c2: "yields_until (Suc (b + 1)) (at_rest tweets) (between_steps h) ?step
      (st\<lparr>t_world := ?wh, t_pc := T_Close t2 tweets\<rparr>) = Some ([], ?fin)"
    using c1 dm by (simp add: step_Close)
  have c3: "yields_until (Suc (Suc (b + 1))) (at_rest tweets) (between_steps h) ?step
      (st\<lparr>t_world := w2, t_pc := T_Opened RegularTweet t2 tweets\<rparr>) = Some ([False], ?fin)"
    using c2 by (simp add: step_Opened_regular)
  have c4: "yields_until (a + Suc (Suc (b + 1))) (at_rest tweets) (between_steps h) ?step
      (st\<lparr>t_world := snd (click B (Some (container t)) (t_world st)),
          t_pc := T_Opening RegularTweet t tweets (permalinkPath B t (page (t_world st)))\<rparr>)
      = Some ([False], ?fin)"
    by (rule opening_resolves[OF op c3])
  have nh: "\<not> at_rest tweets st"
    using pc by (simp add: at_rest_def)
  have main: "yields_until (Suc (a + Suc (Suc (b + 1)))) (at_rest tweets) (between_steps h) ?step st
      = Some ([False], ?fin)"
    using c4 nh nd by (simp add: step_View[OF pc])
  have e: "a + b + 4 = Suc (a + Suc (Suc (b + 1)))" by simp
  show ?thesis unfolding e by (rule main)
qed

lemma regular_visit_no_dismiss:
  assumes nd: "\<not> hasRepliedOrInThread t" and pc: "t_pc st = T_View t tweets"
    and op: "waitForPredicate a (second_passes B)
               (openFullTweet_predicate debug B (permalinkPath B t (page (t_world st))))
               (snd (click B (Some (container t)) (t_world st)), t) = Some (w2, t2)"
    and dm: "documentQuerySelector B closeFullTweetSelector
               (h (st\<lparr>t_world := w2, t_pc := T_Close t2 tweets\<rparr>)) = None"
  shows "yields_until (a + 4) (at_rest tweets) (between_steps h)
           (timelineIterator_step debug tail_ok B xq) st
         = Some ([False],
                 st\<lparr>t_world := w2\<lparr>page := h (st\<lparr>t_world := w2, t_pc := T_Close t2 tweets\<rparr>)\<rparr>,
                    t_pc := T_Tweets tweets\<rparr>)"
proof -
  let ?step = "timelineIterator_step debug tail_ok B xq"
  let ?wh = "w2\<lparr>page := h (st\<lparr>t_world := w2, t_pc := T_Close t2 tweets\<rparr>)\<rparr>"
  let ?fin = "st\<lparr>t_world := ?wh, t_pc := T_Tweets tweets\<rparr>"
  have c1: "yields_until (Suc 0) (at_rest tweets) (between_steps h) ?step ?fin = Some ([], ?fin)"
    by simp
  have c2: "yields_until (Suc (Suc 0)) (at_rest tweets) (between_steps h) ?step
      (st\<lparr>t_world := ?wh, t_pc := T_Close t2 tweets\<rparr>) = Some ([], ?fin)"
    using c1 dm by (simp add: step_Close)
  have c3: "yields_until (Suc (Suc (Suc 0))) (at_rest tweets) (between_steps h) ?step
      (st\<lparr>t_world := w2, t_pc := T_Opened RegularTweet t2 tweets\<rparr>) = Some ([False], ?fin)"
    using c2 by (simp add: step_Opened_regular)
  have c4: "yields_until (a + Suc (Suc (Suc 0))) (at_rest tweets) (between_steps h) ?step
      (st\<lparr>t_world := snd (click B (Some (container t)) (t_world st)),
          t_pc := T_Opening RegularTweet t tweets (permalinkPath B t (page (t_world st)))\<rparr>)
      = Some ([False], ?fin)"
    by (rule opening_resolves[OF op c3])
  have nh: "\<not> at_rest tweets st"
    using pc by (simp add: at_rest_def)
  have main: "yields_until (Suc (a + Suc (Suc (Suc 0)))) (at_rest tweets) (between_steps h) ?step st
      = Some ([False], ?fin)"
    using c4 nh nd by (simp add: step_View[OF pc])
  have e: "a + 4 = Suc (a + Suc (Suc (Suc 0)))" by simp
  show ?thesis unfolding e by (rule main)
qed

lemma turn_of_unit:
  assumes pc: "t_pc st = T_Tweets (x # tweets)"
    and step: "timelineIterator_step debug tail_ok B xq st = (sg, st1)"
    and sg: "sg = (if v then Yield True else Tau)"
    and rest: "yields_until k (at_rest tweets) (between_steps h) (timelineIterator_step debug tail_ok B xq)
                 (if v then between_steps h st1 else st1) = Some (ys, fin)"
  shows "yields_until (Suc k) (at_rest tweets) (between_steps h) (timelineIterator_step debug tail_ok B xq) st
         = Some ((if v then True # ys else ys), fin)"
proof -
  have nh: "\<not> at_rest tweets st"
    using pc by (simp add: at_rest_def)
  show ?thesis
    using nh step sg rest by (cases v) simp_all
qed

text \<open>
  Claim C4, as amended. A unit whose reply button contains the span that says the reply
  count is zero, and whose tweet contains no show-thread link, has no deep content:
  \<open>hasRepliedOrInThread\<close> is false. The turn of the session loop on a tweet constructs the
  unit, with the base location of the session, and yields true at once exactly when
  the tweet contains a video container, and nothing otherwise; a turn yields the
  signal of this step and then the signals of the visit. The visit of a unit without
  deep content, from the choice of the view to the return to the loop of the session,
  clicks the container of the unit and waits until the location ends with the
  permalink path: when this wait resolves, the location did end with the path on the
  page the predicate saw, and the overlay of the unit is the one found on that page.
  The visit then yields false once and yields nothing else. While the generator is
  suspended at this yield the page may change in any way; on the page it finds when it
  resumes, the visit closes the overlay: it clicks the dismiss control and waits until
  the location is the base location of the unit again, or does nothing more when there
  is no dismiss control. The visit runs no nested iteration: it ends in the state it
  began in, but for the world the two waits left, the registry of links included. If
  the waits resolve after \<open>a\<close> and \<open>b\<close> firings of their intervals, the visit takes
  \<open>a + b + 4\<close> steps of the machine.
\<close>

theorem regular_tweet_visit:
  "(fst (Tweet_new B aTweet base w0) = Inr u \<longrightarrow>
      querySelector B noReplySpanSelector (rplyButton u) (page (snd (Tweet_new B aTweet base w0))) \<noteq> None \<longrightarrow>
      querySelector B threadSelector aTweet (page (snd (Tweet_new B aTweet base w0))) = None \<longrightarrow>
      \<not> hasRepliedOrInThread u)
   \<and> (t_pc st = T_Tweets (x # tweets) \<longrightarrow> Tweet_new B x (baseURI st) (t_world st) = (Inr t, w1) \<longrightarrow>
        tweet t = x
        \<and> priv_baseURI t = baseURI st
        \<and> fst (hasVideo B t (scrollIntoViewWithDelay B (Some x) 500 (debug_class debug B x ''wr-debug-visited'' w1))) = (querySelector B ''div.AdaptiveMedia-videoContainer'' x (page (scrollIntoViewWithDelay B (Some x) 500 (debug_class debug B x ''wr-debug-visited'' w1))) \<noteq> None)
        \<and> timelineIterator_step debug tail_ok B xq st =
          ((if querySelector B ''div.AdaptiveMedia-videoContainer'' x (page (scrollIntoViewWithDelay B (Some x) 500 (debug_class debug B x ''wr-debug-visited'' w1))) \<noteq> None then Yield True else Tau),
           (st\<lparr>t_world := snd (hasVideo B t (scrollIntoViewWithDelay B (Some x) 500 (debug_class debug B x ''wr-debug-visited'' w1))),
            links := collectOutlinksFrom tail_ok B x (page (scrollIntoViewWithDelay B (Some x) 500 (debug_class debug B x ''wr-debug-visited'' w1))) (links st),
            t_pc := T_View t tweets\<rparr>))
        \<and> (yields_until k (at_rest tweets) (between_steps h) (timelineIterator_step debug tail_ok B xq)
            (if querySelector B ''div.AdaptiveMedia-videoContainer'' x (page (scrollIntoViewWithDelay B (Some x) 500 (debug_class debug B x ''wr-debug-visited'' w1))) \<noteq> None
             then between_steps h (st\<lparr>t_world := snd (hasVideo B t (scrollIntoViewWithDelay B (Some x) 500 (debug_class debug B x ''wr-debug-visited'' w1))),
            links := collectOutlinksFrom tail_ok B x (page (scrollIntoViewWithDelay B (Some x) 500 (debug_class debug B x ''wr-debug-visited'' w1))) (links st),
            t_pc := T_View t tweets\<rparr>)
             else (st\<lparr>t_world := snd (hasVideo B t (scrollIntoViewWithDelay B (Some x) 500 (debug_class debug B x ''wr-debug-visited'' w1))),
            links := collectOutlinksFrom tail_ok B x (page (scrollIntoViewWithDelay B (Some x) 500 (debug_class debug B x ''wr-debug-visited'' w1))) (links st),
            t_pc := T_View t tweets\<rparr>)) = Some (ys, fin) \<longrightarrow>
           yields_until (Suc k) (at_rest tweets) (between_steps h) (timelineIterator_step debug tail_ok B xq) st
            = Some ((if querySelector B ''div.AdaptiveMedia-videoContainer'' x (page (scrollIntoViewWithDelay B (Some x) 500 (debug_class debug B x ''wr-debug-visited'' w1))) \<noteq> None then True # ys else ys), fin)))
   \<and> (\<not> hasRepliedOrInThread t \<longrightarrow> t_pc st = T_View t tweets \<longrightarrow>
       waitForPredicate a (second_passes B)
         (openFullTweet_predicate debug B (permalinkPath B t (page (t_world st))))
         (snd (click B (Some (container t)) (t_world st)), t) = Some (w2, t2) \<longrightarrow>
       (\<exists>wa. endsWith (documentBaseURI B (page wa)) (searchString (permalinkPath B t (page (t_world st))))
           \<and> t2 = t\<lparr>fullTweetOverlay := getElementById B ''permalink-overlay'' (page wa)\<rparr>
           \<and> w2 = (if debug
                   then (case getElementById B ''permalink-overlay'' (page wa) of
                           None \<Rightarrow> wa
                         | Some el \<Rightarrow> act (AddedClass el ''wr-debug-visited-overlay'')
                                        (classListAdd B ''wr-debug-visited-overlay'' el) wa)
                   else wa))
       \<and> (documentQuerySelector B closeFullTweetSelector (h (st\<lparr>t_world := w2, t_pc := T_Close t2 tweets\<rparr>)) = Some overlay \<longrightarrow>
          waitForPredicate b (second_passes B) (closeFullTweetOverlay_predicate debug B overlay)
          (snd (click B (Some overlay)
                  (debug_class debug B overlay ''wr-debug-click'' (w2\<lparr>page := (h (st\<lparr>t_world := w2, t_pc := T_Close t2 tweets\<rparr>))\<rparr>))), t2)
          = Some (w3, t3) \<longrightarrow>
          yields_until (a + b + 4) (at_rest tweets) (between_steps h) (timelineIterator_step debug tail_ok B xq) st
            = Some ([False], st\<lparr>t_world := w3, t_pc := T_Tweets tweets\<rparr>)
          \<and> (\<exists>wb. documentBaseURI B (page wb) = priv_baseURI t
              \<and> w3 = (if debug then act (RemovedClass overlay ''wr-debug-click'')
                                      (classListRemove B ''wr-debug-click'' overlay) wb
                      else wb)))
       \<and> (documentQuerySelector B closeFullTweetSelector (h (st\<lparr>t_world := w2, t_pc := T_Close t2 tweets\<rparr>)) = None \<longrightarrow>
          yields_until (a + 4) (at_rest tweets) (between_steps h) (timelineIterator_step debug tail_ok B xq) st
            = Some ([False], st\<lparr>t_world := w2\<lparr>page := (h (st\<lparr>t_world := w2, t_pc := T_Close t2 tweets\<rparr>))\<rparr>, t_pc := T_Tweets tweets\<rparr>)))"
proof (intro conjI impI)
  assume "fst (Tweet_new B aTweet base w0) = Inr u"
    and "querySelector B noReplySpanSelector (rplyButton u) (page (snd (Tweet_new B aTweet base w0))) \<noteq> None"
    and "querySelector B threadSelector aTweet (page (snd (Tweet_new B aTweet base w0))) = None"
  then show "\<not> hasRepliedOrInThread u"
    by (auto simp: Tweet_new_def Let_def hasRepliedOrInThread_def hasReplys_def apartOfThread_def
        split: option.splits)
next
  assume "t_pc st = T_Tweets (x # tweets)" and n: "Tweet_new B x (baseURI st) (t_world st) = (Inr t, w1)"
  from n show "tweet t = x"
    by (auto simp: Tweet_new_def Let_def split: option.splits)
next
  assume "t_pc st = T_Tweets (x # tweets)" and n: "Tweet_new B x (baseURI st) (t_world st) = (Inr t, w1)"
  from n show "priv_baseURI t = baseURI st"
    by (auto simp: Tweet_new_def Let_def split: option.splits)
next
  assume "t_pc st = T_Tweets (x # tweets)" and n: "Tweet_new B x (baseURI st) (t_world st) = (Inr t, w1)"
  from n have "tweet t = x"
    by (auto simp: Tweet_new_def Let_def split: option.splits)
  then show "fst (hasVideo B t (scrollIntoViewWithDelay B (Some x) 500 (debug_class debug B x ''wr-debug-visited'' w1))) = (querySelector B ''div.AdaptiveMedia-videoContainer'' x (page (scrollIntoViewWithDelay B (Some x) 500 (debug_class debug B x ''wr-debug-visited'' w1))) \<noteq> None)"
    by (simp add: hasVideo_fst)
next
  assume pc: "t_pc st = T_Tweets (x # tweets)" and n: "Tweet_new B x (baseURI st) (t_world st) = (Inr t, w1)"
  from n have tw: "tweet t = x"
    by (auto simp: Tweet_new_def Let_def split: option.splits)
  show "timelineIterator_step debug tail_ok B xq st =
          ((if querySelector B ''div.AdaptiveMedia-videoContainer'' x (page (scrollIntoViewWithDelay B (Some x) 500 (debug_class debug B x ''wr-debug-visited'' w1))) \<noteq> None then Yield True else Tau),
           (st\<lparr>t_world := snd (hasVideo B t (scrollIntoViewWithDelay B (Some x) 500 (debug_class debug B x ''wr-debug-visited'' w1))),
            links := collectOutlinksFrom tail_ok B x (page (scrollIntoViewWithDelay B (Some x) 500 (debug_class debug B x ''wr-debug-visited'' w1))) (links st),
            t_pc := T_View t tweets\<rparr>))"
    unfolding step_Tweets[OF pc n] by (simp add: hasVideo_fst tw)
next
  assume pc: "t_pc st = T_Tweets (x # tweets)" and n: "Tweet_new B x (baseURI st) (t_world st) = (Inr t, w1)"
    and rest: "yields_until k (at_rest tweets) (between_steps h) (timelineIterator_step debug tail_ok B xq)
            (if querySelector B ''div.AdaptiveMedia-videoContainer'' x (page (scrollIntoViewWithDelay B (Some x) 500 (debug_class debug B x ''wr-debug-visited'' w1))) \<noteq> None
             then between_steps h (st\<lparr>t_world := snd (hasVideo B t (scrollIntoViewWithDelay B (Some x) 500 (debug_class debug B x ''wr-debug-visited'' w1))),
            links := collectOutlinksFrom tail_ok B x (page (scrollIntoViewWithDelay B (Some x) 500 (debug_class debug B x ''wr-debug-visited'' w1))) (links st),
            t_pc := T_View t tweets\<rparr>)
             else (st\<lparr>t_world := snd (hasVideo B t (scrollIntoViewWithDelay B (Some x) 500 (debug_class debug B x ''wr-debug-visited'' w1))),
            links := collectOutlinksFrom tail_ok B x (page (scrollIntoViewWithDelay B (Some x) 500 (debug_class debug B x ''wr-debug-visited'' w1))) (links st),
            t_pc := T_View t tweets\<rparr>)) = Some (ys, fin)"
  from n have tw: "tweet t = x"
    by (auto simp: Tweet_new_def Let_def split: option.splits)
  have sg: "(if fst (hasVideo B t (scrollIntoViewWithDelay B (Some x) 500 (debug_class debug B x ''wr-debug-visited'' w1))) then Yield True else Tau)
            = (if querySelector B ''div.AdaptiveMedia-videoContainer'' x (page (scrollIntoViewWithDelay B (Some x) 500 (debug_class debug B x ''wr-debug-visited'' w1))) \<noteq> None then Yield True else Tau)"
    by (simp add: hasVideo_fst tw)
  show "yields_until (Suc k) (at_rest tweets) (between_steps h) (timelineIterator_step debug tail_ok B xq) st
            = Some ((if querySelector B ''div.AdaptiveMedia-videoContainer'' x (page (scrollIntoViewWithDelay B (Some x) 500 (debug_class debug B x ''wr-debug-visited'' w1))) \<noteq> None then True # ys else ys), fin)"
    by (rule turn_of_unit[OF pc step_Tweets[OF pc n] sg rest])
next
  assume "\<not> hasRepliedOrInThread t" "t_pc st = T_View t tweets"
    and op: "waitForPredicate a (second_passes B)
         (openFullTweet_predicate debug B (permalinkPath B t (page (t_world st))))
         (snd (click B (Some (container t)) (t_world st)), t) = Some (w2, t2)"
  from open_wait_location[OF op]
  show "\<exists>wa. endsWith (documentBaseURI B (page wa)) (searchString (permalinkPath B t (page (t_world st))))
           \<and> t2 = t\<lparr>fullTweetOverlay := getElementById B ''permalink-overlay'' (page wa)\<rparr>
           \<and> w2 = (if debug
                   then (case getElementById B ''permalink-overlay'' (page wa) of
                           None \<Rightarrow> wa
                         | Some el \<Rightarrow> act (AddedClass el ''wr-debug-visited-overlay'')
                                        (classListAdd B ''wr-debug-visited-overlay'' el) wa)
                   else wa)" .
next
  assume "\<not> hasRepliedOrInThread t" "t_pc st = T_View t tweets"
    "waitForPredicate a (second_passes B)
         (openFullTweet_predicate debug B (permalinkPath B t (page (t_world st))))
         (snd (click B (Some (container t)) (t_world st)), t) = Some (w2, t2)"
    "documentQuerySelector B closeFullTweetSelector (h (st\<lparr>t_world := w2, t_pc := T_Close t2 tweets\<rparr>)) = Some overlay"
    "waitForPredicate b (second_passes B) (closeFullTweetOverlay_predicate debug B overlay)
          (snd (click B (Some overlay)
                  (debug_class debug B overlay ''wr-debug-click'' (w2\<lparr>page := (h (st\<lparr>t_world := w2, t_pc := T_Close t2 tweets\<rparr>))\<rparr>))), t2)
          = Some (w3, t3)"
  then show "yields_until (a + b + 4) (at_rest tweets) (between_steps h) (timelineIterator_step debug tail_ok B xq) st
            = Some ([False], st\<lparr>t_world := w3, t_pc := T_Tweets tweets\<rparr>)"
    by (rule regular_visit_dismissed)
next
  assume "\<not> hasRepliedOrInThread t" "t_pc st = T_View t tweets"
    and op: "waitForPredicate a (second_passes B)
         (openFullTweet_predicate debug B (permalinkPath B t (page (t_world st))))
         (snd (click B (Some (container t)) (t_world st)), t) = Some (w2, t2)"
    and "documentQuerySelector B closeFullTweetSelector (h (st\<lparr>t_world := w2, t_pc := T_Close t2 tweets\<rparr>)) = Some overlay"
    and cl: "waitForPredicate b (second_passes B) (closeFullTweetOverlay_predicate debug B overlay)
          (snd (click B (Some overlay)
                  (debug_class debug B overlay ''wr-debug-click'' (w2\<lparr>page := (h (st\<lparr>t_world := w2, t_pc := T_Close t2 tweets\<rparr>))\<rparr>))), t2)
          = Some (w3, t3)"
  from open_wait_unit[OF op] have b: "priv_baseURI t2 = priv_baseURI t"
    by (metis Tweet.select_convs(9) Tweet.surjective Tweet.update_convs(6))
  from close_wait_location[OF cl] b
  show "\<exists>wb. documentBaseURI B (page wb) = priv_baseURI t
              \<and> w3 = (if debug then act (RemovedClass overlay ''wr-debug-click'')
                                      (classListRemove B ''wr-debug-click'' overlay) wb
                      else wb)"
    by auto
next
  assume "\<not> hasRepliedOrInThread t" "t_pc st = T_View t tweets"
    "waitForPredicate a (second_passes B)
         (openFullTweet_predicate debug B (permalinkPath B t (page (t_world st))))
         (snd (click B (Some (container t)) (t_world st)), t) = Some (w2, t2)"
    "documentQuerySelector B closeFullTweetSelector (h (st\<lparr>t_world := w2, t_pc := T_Close t2 tweets\<rparr>)) = None"
  then show "yields_until (a + 4) (at_rest tweets) (between_steps h) (timelineIterator_step debug tail_ok B xq) st
            = Some ([False], st\<lparr>t_world := w2\<lparr>page := (h (st\<lparr>t_world := w2, t_pc := T_Close t2 tweets\<rparr>))\<rparr>, t_pc := T_Tweets tweets\<rparr>)"
    by (rule regular_visit_no_dismiss)
qed

theorem regular_tweet_visit_witness:
  "yields_until 7 (at_rest [])
     (between_steps (\<lambda>s. (page (t_world s))\<lparr>clock := clock (page (t_world s)) + 7\<rparr>))
     (timelineIterator_step True all_tails_parse (timeline_example True False True True 0 800)
        (maybePolyfillXPG (timeline_example True False True True 0 800) None))
     \<lparr>t_pc = T_Tweets [1], baseURI = timeline_home, links = timeline_links_new,
      t_world = \<lparr>page = tpage0, trace = []\<rparr>\<rparr>
   = Some ([True, False],
       \<lparr>t_pc = T_Tweets [], baseURI = timeline_home, links = timeline_links_new,
        t_world = \<lparr>page = \<lparr>uri = timeline_home, clock = 2514, visited = [1], playing = [17]\<rparr>,
                   trace = [AddedClass 1 ''wrvistited'', AddedClass 1 ''wr-debug-visited'', ScrolledIntoView 1,
                  Delayed 500, Played 17, MouseEvent ''mouseover'' 100, Clicked 100,
                  AddedClass 50 ''wr-debug-visited-overlay'',
                  AddedClass 51 ''wr-debug-click'', MouseEvent ''mouseover'' 51, Clicked 51,
                  RemovedClass 51 ''wr-debug-click'']\<rparr>\<rparr>)
   \<and> fst (timelineIterator_step True all_tails_parse (timeline_example True False True True 0 800)
        (maybePolyfillXPG (timeline_example True False True True 0 800) None)
        \<lparr>t_pc = T_Tweets [1], baseURI = timeline_home, links = timeline_links_new,
      t_world = \<lparr>page = tpage0, trace = []\<rparr>\<rparr>) = Yield True
   \<and> \<not> hasRepliedOrInThread (\<lparr>tweet = 1, container = 100, footer = 11, tRplyAct = 12, rplyButton = 13,
            fullTweetOverlay = None, priv_hasReplys = False, priv_apartThread = False,
            priv_baseURI = timeline_home\<rparr> :: nat Tweet)
   \<and> (\<exists>wa :: (tpage, nat) world. endsWith (documentBaseURI (timeline_example True False True True 0 800) (page wa)) ''/u/status/1''
          \<and> getElementById (timeline_example True False True True 0 800) ''permalink-overlay'' (page wa) = Some 50)
   \<and> (\<exists>wb :: (tpage, nat) world. documentBaseURI (timeline_example True False True True 0 800) (page wb) = timeline_home
          \<and> trace wb = [AddedClass 1 ''wrvistited'', AddedClass 1 ''wr-debug-visited'', ScrolledIntoView 1,
                  Delayed 500, Played 17, MouseEvent ''mouseover'' 100, Clicked 100,
                  AddedClass 50 ''wr-debug-visited-overlay'',
                  AddedClass 51 ''wr-debug-click'', MouseEvent ''mouseover'' 51, Clicked 51])"
proof -
  let ?B = "(timeline_example True False True True 0 800)"
  let ?h = "(\<lambda>s. (page (t_world s))\<lparr>clock := clock (page (t_world s)) + 7\<rparr>) :: (tpage, nat) timeline_state \<Rightarrow> tpage"
  let ?step = "timelineIterator_step True all_tails_parse ?B (maybePolyfillXPG ?B None)"
  let ?t = "\<lparr>tweet = 1, container = 100, footer = 11, tRplyAct = 12, rplyButton = 13,
            fullTweetOverlay = None, priv_hasReplys = False, priv_apartThread = False,
            priv_baseURI = timeline_home\<rparr> :: nat Tweet"
  let ?t2 = "?t\<lparr>fullTweetOverlay := Some 50\<rparr>"
  let ?st0 = "\<lparr>t_pc = T_Tweets [1], baseURI = timeline_home, links = timeline_links_new,
      t_world = \<lparr>page = tpage0, trace = []\<rparr>\<rparr> :: (tpage, nat) timeline_state"
  let ?w1 = "\<lparr>page = tpage0\<lparr>visited := [1]\<rparr>, trace = [AddedClass 1 ''wrvistited'']\<rparr> :: (tpage, nat) world"
  let ?st1h = "\<lparr>t_pc = T_View ?t [], baseURI = timeline_home, links = timeline_links_new,
      t_world = \<lparr>page = \<lparr>uri = timeline_home, clock = 507, visited = [1], playing = [17]\<rparr>,
                 trace = [AddedClass 1 ''wrvistited'', AddedClass 1 ''wr-debug-visited'', ScrolledIntoView 1,
                  Delayed 500, Played 17]\<rparr>\<rparr> :: (tpage, nat) timeline_state"
  let ?w2 = "\<lparr>page = \<lparr>uri = timeline_home @ ''/status/1'', clock = 1507, visited = [1], playing = [17]\<rparr>,
              trace = [AddedClass 1 ''wrvistited'', AddedClass 1 ''wr-debug-visited'', ScrolledIntoView 1,
                  Delayed 500, Played 17, MouseEvent ''mouseover'' 100, Clicked 100,
                  AddedClass 50 ''wr-debug-visited-overlay'']\<rparr> :: (tpage, nat) world"
  let ?w3 = "\<lparr>page = \<lparr>uri = timeline_home, clock = 2514, visited = [1], playing = [17]\<rparr>,
              trace = [AddedClass 1 ''wrvistited'', AddedClass 1 ''wr-debug-visited'', ScrolledIntoView 1,
                  Delayed 500, Played 17, MouseEvent ''mouseover'' 100, Clicked 100,
                  AddedClass 50 ''wr-debug-visited-overlay'',
                  AddedClass 51 ''wr-debug-click'', MouseEvent ''mouseover'' 51, Clicked 51,
                  RemovedClass 51 ''wr-debug-click'']\<rparr> :: (tpage, nat) world"
  let ?fin = "\<lparr>t_pc = T_Tweets [], baseURI = timeline_home, links = timeline_links_new,
        t_world = \<lparr>page = \<lparr>uri = timeline_home, clock = 2514, visited = [1], playing = [17]\<rparr>,
                   trace = [AddedClass 1 ''wrvistited'', AddedClass 1 ''wr-debug-visited'', ScrolledIntoView 1,
                  Delayed 500, Played 17, MouseEvent ''mouseover'' 100, Clicked 100,
                  AddedClass 50 ''wr-debug-visited-overlay'',
                  AddedClass 51 ''wr-debug-click'', MouseEvent ''mouseover'' 51, Clicked 51,
                  RemovedClass 51 ''wr-debug-click'']\<rparr>\<rparr> :: (tpage, nat) timeline_state"
  have made: "fst (Tweet_new ?B 1 timeline_home \<lparr>page = tpage0, trace = []\<rparr>) = Inr ?t"
    by (simp add: Tweet_new_def timeline_example_def markElemAsVisited_def act_def Let_def
        timeline_example_sel)
  have zero: "querySelector ?B noReplySpanSelector (rplyButton ?t)
                (page (snd (Tweet_new ?B 1 timeline_home \<lparr>page = tpage0, trace = []\<rparr>))) \<noteq> None"
    by (simp add: timeline_example_def timeline_example_sel)
  have nothread: "querySelector ?B threadSelector 1
                (page (snd (Tweet_new ?B 1 timeline_home \<lparr>page = tpage0, trace = []\<rparr>))) = None"
    by (simp add: timeline_example_def timeline_example_sel)
  note nd = regular_tweet_visit [where B = ?B and aTweet = 1 and base = timeline_home
      and ?w0.0 = "\<lparr>page = tpage0, trace = []\<rparr>" and u = ?t,
      THEN conjunct1, rule_format, OF made zero nothread]
  have pc0: "t_pc ?st0 = T_Tweets (1 # [])" by simp
  have n: "Tweet_new ?B 1 (baseURI ?st0) (t_world ?st0) = (Inr ?t, ?w1)"
    by (simp add: Tweet_new_def timeline_example_def markElemAsVisited_def act_def Let_def
        timeline_example_sel wrvistited_def tpage0_def)
  note turn = regular_tweet_visit [where B = ?B and st = ?st0 and x = 1 and tweets = "[]"
      and t = ?t and ?w1.0 = ?w1 and debug = True and tail_ok = all_tails_parse
      and xq = "maybePolyfillXPG ?B None" and h = ?h and k = 6 and ys = "[False]" and fin = ?fin,
      THEN conjunct2, THEN conjunct1, rule_format, OF pc0 n]
  have vc: "querySelector ?B ''div.AdaptiveMedia-videoContainer'' 1 (page (scrollIntoViewWithDelay ?B (Some 1) 500 (debug_class True ?B 1 ''wr-debug-visited'' ?w1))) \<noteq> None"
    by (simp add: timeline_example_def)
  have st1h: "between_steps ?h (?st0\<lparr>t_world := snd (hasVideo ?B ?t (scrollIntoViewWithDelay ?B (Some 1) 500 (debug_class True ?B 1 ''wr-debug-visited'' ?w1))),
            links := collectOutlinksFrom all_tails_parse ?B 1 (page (scrollIntoViewWithDelay ?B (Some 1) 500 (debug_class True ?B 1 ''wr-debug-visited'' ?w1))) (links ?st0),
            t_pc := T_View ?t []\<rparr>) = ?st1h"
    by (simp add: between_steps_def hasVideo_def scrollIntoViewWithDelay_def scrollIntoView_def
        delay_def debug_class_def act_def collectOutlinksFrom_def addOutLinks_def
        timeline_example_def null_browser_def tpage0_def wrvistited_def timeline_example_sel)
  have pc1: "t_pc ?st1h = T_View ?t []" by simp
  have op: "waitForPredicate 1 (second_passes ?B)
              (openFullTweet_predicate True ?B (permalinkPath ?B ?t (page (t_world ?st1h))))
              (snd (click ?B (Some (container ?t)) (t_world ?st1h)), ?t)
            = Some (?w2, ?t2)"
    by (simp add: interval_fires_def second_passes_def openFullTweet_predicate_def permalinkPath_def
        click_Some timeline_example_def null_browser_def act_def endsWith_def searchString_def
        timeline_home_def wrvistited_def Let_def)
  have dm: "documentQuerySelector ?B closeFullTweetSelector
              (?h (?st1h\<lparr>t_world := ?w2, t_pc := T_Close ?t2 []\<rparr>)) = Some 51"
    by (simp add: timeline_example_def)
  have cl: "waitForPredicate 1 (second_passes ?B) (closeFullTweetOverlay_predicate True ?B 51)
              (snd (click ?B (Some 51)
                      (debug_class True ?B 51 ''wr-debug-click''
                         (?w2\<lparr>page := ?h (?st1h\<lparr>t_world := ?w2, t_pc := T_Close ?t2 []\<rparr>)\<rparr>))), ?t2)
            = Some (?w3, ?t2)"
    by (simp add: interval_fires_def second_passes_def closeFullTweetOverlay_predicate_def
        click_Some timeline_example_def null_browser_def act_def debug_class_def wrvistited_def
        timeline_home_def Let_def)
  note visit = regular_tweet_visit [where B = ?B and debug = True and tail_ok = all_tails_parse
      and xq = "maybePolyfillXPG ?B None" and tweets = "[]" and h = ?h and st = ?st1h and t = ?t
      and a = 1 and b = 1 and ?w2.0 = ?w2 and ?t2.0 = ?t2 and ?w3.0 = ?w3 and ?t3.0 = ?t2
      and overlay = 51,
      THEN conjunct2, THEN conjunct2, rule_format, OF nd pc1 op]
  note opened = visit [THEN conjunct1]
  note closed = visit [THEN conjunct2, THEN conjunct1, rule_format, OF dm cl]
  have v6: "yields_until 6 (at_rest []) (between_steps ?h) ?step ?st1h = Some ([False], ?fin)"
    using closed [THEN conjunct1] by simp
  have rest: "yields_until 6 (at_rest []) (between_steps ?h) ?step
            (if querySelector ?B ''div.AdaptiveMedia-videoContainer'' 1 (page (scrollIntoViewWithDelay ?B (Some 1) 500 (debug_class True ?B 1 ''wr-debug-visited'' ?w1))) \<noteq> None
             then between_steps ?h (?st0\<lparr>t_world := snd (hasVideo ?B ?t (scrollIntoViewWithDelay ?B (Some 1) 500 (debug_class True ?B 1 ''wr-debug-visited'' ?w1))),
            links := collectOutlinksFrom all_tails_parse ?B 1 (page (scrollIntoViewWithDelay ?B (Some 1) 500 (debug_class True ?B 1 ''wr-debug-visited'' ?w1))) (links ?st0),
            t_pc := T_View ?t []\<rparr>)
             else (?st0\<lparr>t_world := snd (hasVideo ?B ?t (scrollIntoViewWithDelay ?B (Some 1) 500 (debug_class True ?B 1 ''wr-debug-visited'' ?w1))),
            links := collectOutlinksFrom all_tails_parse ?B 1 (page (scrollIntoViewWithDelay ?B (Some 1) 500 (debug_class True ?B 1 ''wr-debug-visited'' ?w1))) (links ?st0),
            t_pc := T_View ?t []\<rparr>)) = Some ([False], ?fin)"
    unfolding st1h using vc v6 by simp
  note whole = turn [THEN conjunct2, THEN conjunct2, THEN conjunct2, THEN conjunct2, rule_format, OF rest]
  have c1: "yields_until 7 (at_rest []) (between_steps ?h) ?step ?st0 = Some ([True, False], ?fin)"
    using whole vc by simp
  have c2: "fst (?step ?st0) = Yield True"
    using turn [THEN conjunct2, THEN conjunct2, THEN conjunct2, THEN conjunct1] vc by simp
  have c4: "\<exists>wa :: (tpage, nat) world. endsWith (documentBaseURI ?B (page wa)) ''/u/status/1''
          \<and> getElementById ?B ''permalink-overlay'' (page wa) = Some 50"
    using opened
  proof (elim exE conjE)
    fix wa :: "(tpage, nat) world"
    assume e: "endsWith (documentBaseURI ?B (page wa)) (searchString (permalinkPath ?B ?t (page (t_world ?st1h))))"
      and o: "?t2 = ?t\<lparr>fullTweetOverlay := getElementById ?B ''permalink-overlay'' (page wa)\<rparr>"
    have p: "searchString (permalinkPath ?B ?t (page (t_world ?st1h))) = ''/u/status/1''"
      by (simp add: searchString_def permalinkPath_def timeline_example_def)
    from o have g: "getElementById ?B ''permalink-overlay'' (page wa) = Some 50"
      by simp
    from e have e': "endsWith (documentBaseURI ?B (page wa)) ''/u/status/1''"
      unfolding p .
    show ?thesis
      by (rule exI[of _ wa]) (rule conjI[OF e' g])
  qed
  have c5: "\<exists>wb :: (tpage, nat) world. documentBaseURI ?B (page wb) = timeline_home
          \<and> trace wb = [AddedClass 1 ''wrvistited'', AddedClass 1 ''wr-debug-visited'', ScrolledIntoView 1,
                  Delayed 500, Played 17, MouseEvent ''mouseover'' 100, Clicked 100,
                  AddedClass 50 ''wr-debug-visited-overlay'',
                  AddedClass 51 ''wr-debug-click'', MouseEvent ''mouseover'' 51, Clicked 51]"
    using closed [THEN conjunct2]
  proof (elim exE conjE)
    fix wb :: "(tpage, nat) world"
    assume l: "documentBaseURI ?B (page wb) = priv_baseURI ?t"
      and w: "?w3 = (if True then act (RemovedClass 51 ''wr-debug-click'')
                                      (classListRemove ?B ''wr-debug-click'' 51) wb
                      else wb)"
    from w have "trace wb @ [RemovedClass 51 ''wr-debug-click''] = trace ?w3"
      by (simp add: act_def)
    then have tr: "trace wb = [AddedClass 1 ''wrvistited'', AddedClass 1 ''wr-debug-visited'', ScrolledIntoView 1,
                  Delayed 500, Played 17, MouseEvent ''mouseover'' 100, Clicked 100,
                  AddedClass 50 ''wr-debug-visited-overlay'',
                  AddedClass 51 ''wr-debug-click'', MouseEvent ''mouseover'' 51, Clicked 51]"
      by simp
    have l': "documentBaseURI ?B (page wb) = timeline_home"
      using l by simp
    show ?thesis
      by (rule exI[of _ wb]) (rule conjI[OF l' tr])
  qed
  from c1 c2 nd c4 c5 show ?thesis
    by (intro conjI)
qed

text \<open>
  The claim C4 as it was stated fails. The reply button of this unit contains no span
  that says the reply count is zero, and its tweet contains no show-thread link: the
  unit is constructed with \<open>hasReplys\<close> true, so \<open>hasRepliedOrInThread\<close> is true, not
  false, and the session takes the view with the nested iteration.
\<close>

theorem no_zero_marker_is_deep_counterexample:
  "querySelector (timeline_example False False False False 0 800) noReplySpanSelector 13
      (tpage0\<lparr>visited := [1]\<rparr>) = None
   \<and> querySelector (timeline_example False False False False 0 800) threadSelector 1
      (tpage0\<lparr>visited := [1]\<rparr>) = None
   \<and> Tweet_new (timeline_example False False False False 0 800) 1 timeline_home
        \<lparr>page = tpage0, trace = []\<rparr>
      = (Inr \<lparr>tweet = 1, container = 100, footer = 11, tRplyAct = 12, rplyButton = 13,
               fullTweetOverlay = None, priv_hasReplys = True, priv_apartThread = False,
               priv_baseURI = timeline_home\<rparr>,
         \<lparr>page = tpage0\<lparr>visited := [1]\<rparr>, trace = [AddedClass 1 ''wrvistited'']\<rparr>)
   \<and> hasRepliedOrInThread (\<lparr>tweet = 1, container = 100, footer = 11, tRplyAct = 12, rplyButton = 13,
               fullTweetOverlay = None, priv_hasReplys = True, priv_apartThread = False,
               priv_baseURI = timeline_home\<rparr> :: nat Tweet)
   \<and> fst (timelineIterator_step True all_tails_parse (timeline_example False False False False 0 800)
        (maybePolyfillXPG (timeline_example False False False False 0 800) None)
        \<lparr>t_pc = T_View \<lparr>tweet = 1, container = 100, footer = 11, tRplyAct = 12, rplyButton = 13,
               fullTweetOverlay = None, priv_hasReplys = True, priv_apartThread = False,
               priv_baseURI = timeline_home\<rparr> [],
         baseURI = timeline_home, links = timeline_links_new,
         t_world = \<lparr>page = tpage0\<lparr>visited := [1]\<rparr>, trace = []\<rparr>\<rparr>) = Tau
   \<and> t_pc (snd (timelineIterator_step True all_tails_parse (timeline_example False False False False 0 800)
        (maybePolyfillXPG (timeline_example False False False False 0 800) None)
        \<lparr>t_pc = T_View \<lparr>tweet = 1, container = 100, footer = 11, tRplyAct = 12, rplyButton = 13,
               fullTweetOverlay = None, priv_hasReplys = True, priv_apartThread = False,
               priv_baseURI = timeline_home\<rparr> [],
         baseURI = timeline_home, links = timeline_links_new,
         t_world = \<lparr>page = tpage0\<lparr>visited := [1]\<rparr>, trace = []\<rparr>\<rparr>))
      = T_Opening RepliesOrThread
          \<lparr>tweet = 1, container = 100, footer = 11, tRplyAct = 12, rplyButton = 13,
           fullTweetOverlay = None, priv_hasReplys = True, priv_apartThread = False,
           priv_baseURI = timeline_home\<rparr> [] (Some ''/u/status/1'')"
  by (simp add: timeline_run_defs hasRepliedOrInThread_def hasReplys_def apartOfThread_def
      permalinkPath_def click_Some Let_def)

end
